theory Spec2Isabelle
  imports Main
begin

section \<open>Data model\<close>

text \<open>
  The repository holds the play-axis visual twice: \<^verbatim>\<open>src/src/playAxis.ts\<close> (the basic
  variant) and \<^verbatim>\<open>src/unnamed/part_000\<close> (the extended variant, which adds the
  \<^verbatim>\<open>autoStart\<close> and \<^verbatim>\<open>loop\<close> settings). The methods \<^verbatim>\<open>stopAnimation\<close>,
  \<^verbatim>\<open>pauseAnimation\<close>, \<^verbatim>\<open>step\<close> and \<^verbatim>\<open>updateCaption\<close> are the same text in both
  files and are embedded once; \<^verbatim>\<open>playAnimation\<close>, \<^verbatim>\<open>update\<close> and
  \<^verbatim>\<open>visualTransform\<close> differ and are embedded twice, the extended ones with the suffix
  \<open>X\<close>.
\<close>

datatype Status = Play | Pause | Stop

record 'tok CategoryDataPoint =
  category :: string
  selectionId :: 'tok

text \<open>A \<^verbatim>\<open>Fill\<close> is \<^verbatim>\<open>{ solid: { color: string } }\<close>; only the colour string is kept.\<close>

type_synonym Fill = string

record TransitionSettings =
  timeInterval :: int

record TransitionSettingsX = TransitionSettings +
  autoStart :: bool
  loop :: bool

record ColorSelector =
  colorPicked :: Fill

record ColorSelectorX =
  pickedColor :: Fill
  showAll :: bool
  playColor :: Fill
  pauseColor :: Fill
  stopColor :: Fill
  previousColor :: Fill
  nextColor :: Fill

record CaptionSettings =
  "show" :: bool
  captionColor :: Fill
  fontSize :: int

record CaptionSettingsX = CaptionSettings +
  align :: string

record ('t, 'c, 'k) VisualSettings =
  transitionSettings :: 't
  colorSelector :: 'c
  captionSettings :: 'k

type_synonym VisualSettingsB =
  "(TransitionSettings, ColorSelector, CaptionSettings) VisualSettings"

type_synonym VisualSettingsX =
  "(TransitionSettingsX, ColorSelectorX, CaptionSettingsX) VisualSettings"

text \<open>
  The basic \<^verbatim>\<open>visualTransform\<close> returns \<^verbatim>\<open>settings: <VisualSettings>{}\<close> when the data
  is not ready: an object none of whose groups exists, so that reading
  \<^verbatim>\<open>settings.captionSettings.show\<close> raises a TypeError. \<open>None\<close> stands for that object
  and for \<^verbatim>\<open>undefined\<close> (a field never assigned); both raise at the same reads.
\<close>

record ('tok, 'vs) ViewModel =
  dataPoints :: "'tok CategoryDataPoint list"
  settings :: "'vs option"

text \<open>
  What the visual sends out: to the selection manager (\<open>Select\<close>, \<open>ClearSelection\<close>),
  to the caption label (\<open>LabelText\<close> is \<^verbatim>\<open>svg.select("#label").text(s)\<close>) and to the
  other attributes of the SVG (\<open>Attr selector name value\<close>).
\<close>

datatype attr_value = Str string | Num int | ViewBox int int int int

datatype 'tok event =
    Select 'tok
  | ClearSelection
  | LabelText string
  | Attr string string attr_value

text \<open>
  A timer of the host's event loop, as \<^verbatim>\<open>setTimeout(callback, delay)\<close> creates it. The
  callback is kept as data: what the closure captured.
\<close>

record 'cb timer =
  handle :: nat
  delay :: int
  callback :: 'cb

text \<open>
  The fields of class \<^verbatim>\<open>Visual\<close>, followed by the two things of its environment that the
  methods act on: the timers of the event loop that have neither fired nor been cleared
  (\<open>pending\<close>, with \<open>nextHandle\<close> the next handle \<^verbatim>\<open>setTimeout\<close> returns), and the trace
  of what the selection manager and the SVG received (\<open>events\<close>).
\<close>

record ('tok, 'vs, 'cb) Visual =
  visualDataPoints :: "'tok CategoryDataPoint list option"
  visualSettings :: "'vs option"
  status :: Status
  lastSelected :: int
  viewModel :: "('tok, 'vs) ViewModel option"
  timers :: "nat list"
  pending :: "'cb timer list"
  nextHandle :: nat
  events :: "'tok event list"

text \<open>
  A method either returns or raises a TypeError (reading a property of \<^verbatim>\<open>undefined\<close>);
  the assignments made before the raise stay, so the error carries the state it left.
\<close>

datatype js_error = TypeError

type_synonym 's result = "(js_error \<times> 's) + 's"

definition throw :: "'s \<Rightarrow> 's result" where
  "throw s = Inl (TypeError, s)"

definition and_then :: "'s result \<Rightarrow> ('s \<Rightarrow> 's result) \<Rightarrow> 's result" where
  "and_then r f = (case r of Inl x \<Rightarrow> Inl x | Inr s \<Rightarrow> f s)"

definition state_of :: "'s result \<Rightarrow> 's" where
  "state_of r = (case r of Inl (e, s) \<Rightarrow> s | Inr s \<Rightarrow> s)"

definition returns :: "'s result \<Rightarrow> bool" where
  "returns r = (case r of Inl x \<Rightarrow> False | Inr s \<Rightarrow> True)"

section \<open>The environment: sinks and timers\<close>

definition emit :: "'tok event \<Rightarrow> ('tok, 'vs, 'cb) Visual \<Rightarrow> ('tok, 'vs, 'cb) Visual" where
  "emit e s = s\<lparr>events := events s @ [e]\<rparr>"

definition setTimeout ::
  "'cb \<Rightarrow> int \<Rightarrow> ('tok, 'vs, 'cb) Visual \<Rightarrow> nat \<times> ('tok, 'vs, 'cb) Visual" where
  "setTimeout cb d s =
     (nextHandle s,
      s\<lparr>pending := pending s @ [\<lparr>handle = nextHandle s, delay = d, callback = cb\<rparr>],
        nextHandle := nextHandle s + 1\<rparr>)"

definition clearTimeout :: "nat \<Rightarrow> ('tok, 'vs, 'cb) Visual \<Rightarrow> ('tok, 'vs, 'cb) Visual" where
  "clearTimeout h s = s\<lparr>pending := filter (\<lambda>t. handle t \<noteq> h) (pending s)\<rparr>"

text \<open>\<^verbatim>\<open>this.timers.push(timer)\<close>\<close>

definition push :: "nat \<Rightarrow> ('tok, 'vs, 'cb) Visual \<Rightarrow> ('tok, 'vs, 'cb) Visual" where
  "push h s = s\<lparr>timers := timers s @ [h]\<rparr>"

text \<open>\<^verbatim>\<open>for (let i of this.timers) { clearTimeout(i); }\<close>\<close>

definition clearTimers :: "('tok, 'vs, 'cb) Visual \<Rightarrow> ('tok, 'vs, 'cb) Visual" where
  "clearTimers s = fold clearTimeout (timers s) s"

section \<open>The methods both variants share\<close>

definition updateCaption ::
  "string \<Rightarrow> ('tok, ('t, 'c, 'k CaptionSettings_scheme) VisualSettings, 'cb) Visual
     \<Rightarrow> ('tok, ('t, 'c, 'k CaptionSettings_scheme) VisualSettings, 'cb) Visual result" where
  "updateCaption caption s =
     (case visualSettings s of
        None \<Rightarrow> throw s
      | Some vs \<Rightarrow>
          if show (captionSettings vs) then Inr (emit (LabelText caption) s) else Inr s)"

definition stopAnimation ::
  "('tok, ('t, 'c, 'k CaptionSettings_scheme) VisualSettings, 'cb) Visual
     \<Rightarrow> ('tok, ('t, 'c, 'k CaptionSettings_scheme) VisualSettings, 'cb) Visual result" where
  "stopAnimation s =
     (if status s = Stop then Inr s
      else
        let s1 = emit (Attr ''#pause, #stop, #next, #previous'' ''opacity'' (Str ''0.3'')) s;
            s2 = emit (Attr ''#play'' ''opacity'' (Str ''1'')) s1;
            s3 = clearTimers s2
        in and_then (updateCaption '''' s3)
             (\<lambda>s4. let s5 = s4\<lparr>lastSelected := 0\<rparr>;
                        s6 = emit ClearSelection s5
                    in Inr (s6\<lparr>status := Stop\<rparr>)))"

definition pauseAnimation ::
  "('tok, 'vs, 'cb) Visual \<Rightarrow> ('tok, 'vs, 'cb) Visual result" where
  "pauseAnimation s =
     (if status s = Pause \<or> status s = Stop then Inr s
      else
        let s1 = emit (Attr ''#pause'' ''opacity'' (Str ''0.3'')) s;
            s2 = emit (Attr ''#play, #stop, #next, #previous'' ''opacity'' (Str ''1'')) s1;
            s3 = clearTimers s2
        in Inr (s3\<lparr>status := Pause\<rparr>))"

text \<open>
  \<^verbatim>\<open>step(step: number)\<close>; the buttons pass \<open>-1\<close> and \<open>1\<close>, the method takes any number.
  Past the bounds check the index is within the list, so \<^verbatim>\<open>dataPoints[lastSelected]\<close>
  is defined.
\<close>

definition step ::
  "int \<Rightarrow> ('tok, ('t, 'c, 'k CaptionSettings_scheme) VisualSettings, 'cb) Visual
     \<Rightarrow> ('tok, ('t, 'c, 'k CaptionSettings_scheme) VisualSettings, 'cb) Visual result" where
  "step d s =
     (if status s = Play \<or> status s = Stop then Inr s
      else
        case viewModel s of
          None \<Rightarrow> throw s
        | Some vm \<Rightarrow>
            if lastSelected s + d < 0 \<or> lastSelected s + d > int (length (dataPoints vm)) - 1
            then Inr s
            else
              let s1 = s\<lparr>lastSelected := lastSelected s + d\<rparr>;
                  dp = dataPoints vm ! nat (lastSelected s1);
                  s2 = emit (Select (selectionId dp)) s1
              in and_then (updateCaption (category dp) s2)
                   (\<lambda>s3. Inr (s3\<lparr>status := Pause\<rparr>)))"

text \<open>
  The body of the callback that \<^verbatim>\<open>playAnimation\<close> hands to \<^verbatim>\<open>setTimeout\<close> for index
  \<open>i\<close>. It reads \<^verbatim>\<open>this.viewModel\<close> when it runs; \<^verbatim>\<open>dataPoints[i]\<close> is
  \<^verbatim>\<open>undefined\<close> outside the list, and reading its \<^verbatim>\<open>selectionId\<close> raises.
\<close>

definition advance ::
  "int \<Rightarrow> ('tok, ('t, 'c, 'k CaptionSettings_scheme) VisualSettings, 'cb) Visual
     \<Rightarrow> ('tok, ('t, 'c, 'k CaptionSettings_scheme) VisualSettings, 'cb) Visual result" where
  "advance i s =
     (case viewModel s of
        None \<Rightarrow> throw s
      | Some vm \<Rightarrow>
          if 0 \<le> i \<and> i < int (length (dataPoints vm)) then
            let dp = dataPoints vm ! nat i;
                s1 = emit (Select (selectionId dp)) s;
                s2 = s1\<lparr>lastSelected := i\<rparr>
            in updateCaption (category dp) s2
          else throw s)"

text \<open>
  The loop of \<^verbatim>\<open>playAnimation\<close>:
  \<^verbatim>\<open>for (let i = startingIndex; i < this.viewModel.dataPoints.length; ++i)\<close>, with \<open>n\<close>
  the length, \<open>ti\<close> the time interval, \<open>mk i\<close> the callback closed over \<open>i\<close>, and the
  delay computed from
  \<^verbatim>\<open>this.lastSelected\<close> as it is when the timer is created.
\<close>

function playLoop ::
  "(int \<Rightarrow> 'cb) \<Rightarrow> int \<Rightarrow> int \<Rightarrow> int \<Rightarrow> ('tok, 'vs, 'cb) Visual \<Rightarrow> ('tok, 'vs, 'cb) Visual" where
  "playLoop mk n ti i s =
     (if i < n then
        (case setTimeout (mk i) ((i - lastSelected s) * ti) s of
           (t, s') \<Rightarrow> playLoop mk n ti (i + 1) (push t s'))
      else s)"
  by pat_completeness auto
termination
  by (relation "measure (\<lambda>(mk, n, ti, i, s). nat (n - i))") auto

declare playLoop.simps [simp del]

section \<open>The basic variant\<close>

text \<open>The only callback the basic variant creates is the one for an index.\<close>

datatype callbackB = AdvanceB int

type_synonym 'tok VisualB = "('tok, VisualSettingsB, callbackB) Visual"

definition playAnimation :: "'tok VisualB \<Rightarrow> 'tok VisualB result" where
  "playAnimation s =
     (if status s = Play then Inr s
      else
        let s1 = emit (Attr ''#play, #next, #previous'' ''opacity'' (Str ''0.3'')) s;
            s2 = emit (Attr ''#stop, #pause'' ''opacity'' (Str ''1'')) s1
        in case viewModel s2 of
             None \<Rightarrow> throw s2
           | Some vm \<Rightarrow>
               (case settings vm of
                  None \<Rightarrow> throw s2
                | Some vs \<Rightarrow>
                    let ti = timeInterval (transitionSettings vs);
                        startingIndex = (if status s2 = Stop then 0 else lastSelected s2 + 1);
                        s3 = playLoop AdvanceB (int (length (dataPoints vm))) ti startingIndex s2
                    in Inr (s3\<lparr>status := Play\<rparr>)))"

text \<open>
  The event loop runs the callback of a pending timer: the timer leaves the queue and its
  callback runs. Which pending timer runs next is the event loop's choice (by due time);
  here any pending timer may be named. A handle that is not pending runs nothing.
\<close>

definition fire :: "nat \<Rightarrow> 'tok VisualB \<Rightarrow> 'tok VisualB result" where
  "fire h s =
     (case find (\<lambda>t. handle t = h) (pending s) of
        None \<Rightarrow> Inr s
      | Some t \<Rightarrow>
          (case callback t of
             AdvanceB i \<Rightarrow> advance i (clearTimeout h s)))"

text \<open>
  What \<^verbatim>\<open>update\<close> reads of its \<^verbatim>\<open>VisualUpdateOptions\<close> and of the host, for data that
  passes the readiness test (\<^verbatim>\<open>dataViews[0].categorical.categories[0].source\<close> exists):
  the category values as strings, the selection id the host builds for index \<open>i\<close>, the
  display name of the category, the helper \<^verbatim>\<open>getValue<T>(objects, object, property,
  default)\<close> at the three types it is used at (it is not among the sources, so it is a
  parameter), and the width the browser reports for the rendered title. \<open>None\<close> is data
  that fails the readiness test.
\<close>

record 'tok DataView =
  categoryValues :: "string list"
  createSelectionId :: "nat \<Rightarrow> 'tok"
  displayName :: string
  getNumber :: "string \<Rightarrow> string \<Rightarrow> int \<Rightarrow> int"
  getBoolean :: "string \<Rightarrow> string \<Rightarrow> bool \<Rightarrow> bool"
  getText :: "string \<Rightarrow> string \<Rightarrow> string \<Rightarrow> string"
  labelWidth :: int

type_synonym 'tok VisualUpdateOptions = "'tok DataView option"

definition categoryDataPoints :: "'tok DataView \<Rightarrow> 'tok CategoryDataPoint list" where
  "categoryDataPoints dv =
     map (\<lambda>i. \<lparr>category = categoryValues dv ! i, selectionId = createSelectionId dv i\<rparr>)
       [0 ..< length (categoryValues dv)]"

definition defaultSettings :: VisualSettingsB where
  "defaultSettings =
     \<lparr>transitionSettings = \<lparr>timeInterval = 1000\<rparr>,
      colorSelector = \<lparr>colorPicked = ''#000000''\<rparr>,
      captionSettings = \<lparr>show = True, captionColor = ''#000000'', fontSize = 16\<rparr>\<rparr>"

definition visualTransform :: "'tok VisualUpdateOptions \<Rightarrow> ('tok, VisualSettingsB) ViewModel" where
  "visualTransform options =
     (case options of
        None \<Rightarrow> \<lparr>dataPoints = [], settings = None\<rparr>
      | Some dv \<Rightarrow>
          \<lparr>dataPoints = categoryDataPoints dv,
           settings = Some
             \<lparr>transitionSettings =
                \<lparr>timeInterval = getNumber dv ''transitionSettings'' ''timeInterval''
                   (timeInterval (transitionSettings defaultSettings))\<rparr>,
              colorSelector =
                \<lparr>colorPicked = getText dv ''colorSelector'' ''colorPicked''
                   (colorPicked (colorSelector defaultSettings))\<rparr>,
              captionSettings =
                \<lparr>show = getBoolean dv ''captionSettings'' ''show''
                   (show (captionSettings defaultSettings)),
                 captionColor = getText dv ''captionSettings'' ''captionColor''
                   (captionColor (captionSettings defaultSettings)),
                 fontSize = getNumber dv ''captionSettings'' ''fontSize''
                   (fontSize (captionSettings defaultSettings))\<rparr>\<rparr>\<rparr>)"

text \<open>
  The basic \<^verbatim>\<open>update\<close> installs the view model first and styles the SVG afterwards. With
  data that is not ready the installed settings are \<^verbatim>\<open>{}\<close>, and the first styling line
  (\<^verbatim>\<open>viewModel.settings.colorSelector.colorPicked\<close>) raises.
\<close>

definition update :: "'tok VisualUpdateOptions \<Rightarrow> 'tok VisualB \<Rightarrow> 'tok VisualB result" where
  "update options s =
     (let vm = visualTransform options;
          s1 = s\<lparr>viewModel := Some vm\<rparr>;
          s2 = s1\<lparr>visualSettings := settings vm\<rparr>;
          s3 = s2\<lparr>visualDataPoints := Some (dataPoints vm)\<rparr>
      in case settings vm of
           None \<Rightarrow> throw s3
         | Some vs \<Rightarrow>
             let s4 = emit (Attr ''.controls'' ''fill'' (Str (colorPicked (colorSelector vs)))) s3;
                 s5 = emit (Attr ''#label'' ''fill'' (Str (captionColor (captionSettings vs)))) s4;
                 s6 = emit (Attr ''#label'' ''font-size'' (Num (fontSize (captionSettings vs)))) s5
             in if show (captionSettings vs) then
                  (case options of
                     None \<Rightarrow> throw s6
                   | Some dv \<Rightarrow>
                       Inr (emit (Attr ''svg'' ''viewBox'' (ViewBox 0 0 260 24))
                             (emit (LabelText (displayName dv)) s6)))
                else
                  Inr (emit (Attr ''svg'' ''viewBox'' (ViewBox 0 0 145 24))
                        (emit (LabelText '''') s6)))"

text \<open>
  The constructor: \<^verbatim>\<open>status = Status.Stop\<close>, \<^verbatim>\<open>timers = []\<close>, \<^verbatim>\<open>lastSelected = 0\<close>;
  the other fields are not assigned. Building the SVG elements sends nothing to the
  sinks.
\<close>

definition constructor :: "('tok, 'vs, 'cb) Visual" where
  "constructor =
     \<lparr>visualDataPoints = None, visualSettings = None, status = Stop, lastSelected = 0,
      viewModel = None, timers = [], pending = [], nextHandle = 0, events = []\<rparr>"

text \<open>
  What can happen to a visual: a click on one of the buttons (previous and next are
  \<open>CallStep (-1)\<close> and \<open>CallStep 1\<close>), an update from the host, a timer running.
\<close>

datatype 'tok action =
    ClickPlay
  | ClickStop
  | ClickPause
  | CallStep int
  | CallUpdate "'tok VisualUpdateOptions"
  | Timeout nat

fun act :: "'tok action \<Rightarrow> 'tok VisualB \<Rightarrow> 'tok VisualB result" where
  "act ClickPlay s = playAnimation s"
| "act ClickStop s = stopAnimation s"
| "act ClickPause s = pauseAnimation s"
| "act (CallStep d) s = step d s"
| "act (CallUpdate options) s = update options s"
| "act (Timeout h) s = fire h s"

text \<open>An exception ends the handler it was raised in; the visual lives on in the state it left.\<close>

fun exec :: "'tok action list \<Rightarrow> 'tok VisualB \<Rightarrow> 'tok VisualB" where
  "exec [] s = s"
| "exec (a # as) s = exec as (state_of (act a s))"

section \<open>The extended variant\<close>

datatype callbackX = AdvanceX int | StopAnimationTimer

type_synonym 'tok VisualX = "('tok, VisualSettingsX, callbackX) Visual"

definition playAnimationX :: "'tok VisualX \<Rightarrow> 'tok VisualX result" where
  "playAnimationX s =
     (if status s = Play then Inr s
      else
        let s1 = emit (Attr ''#play, #next, #previous'' ''opacity'' (Str ''0.3'')) s;
            s2 = emit (Attr ''#stop, #pause'' ''opacity'' (Str ''1'')) s1
        in case viewModel s2 of
             None \<Rightarrow> throw s2
           | Some vm \<Rightarrow>
               (case settings vm of
                  None \<Rightarrow> throw s2
                | Some vs \<Rightarrow>
                    let ti = timeInterval (transitionSettings vs);
                        startingIndex = (if status s2 = Stop then 0 else lastSelected s2 + 1);
                        s3 = playLoop AdvanceX (int (length (dataPoints vm))) ti startingIndex s2
                    in case setTimeout StopAnimationTimer
                              ((int (length (dataPoints vm)) - lastSelected s3) * ti) s3 of
                         (stopAnimationTimer, s4) \<Rightarrow>
                           Inr ((push stopAnimationTimer s4)\<lparr>status := Play\<rparr>)))"

text \<open>The callback of \<^verbatim>\<open>stopAnimationTimer\<close>: replay or stop after one cycle.\<close>

definition replayOrStop :: "'tok VisualX \<Rightarrow> 'tok VisualX result" where
  "replayOrStop s =
     (case visualSettings s of
        None \<Rightarrow> throw s
      | Some vs \<Rightarrow>
          if loop (transitionSettings vs) then
            let s1 = s\<lparr>status := Stop\<rparr>;
                s2 = s1\<lparr>lastSelected := 0\<rparr>
            in playAnimationX s2
          else stopAnimation s)"

definition fireX :: "nat \<Rightarrow> 'tok VisualX \<Rightarrow> 'tok VisualX result" where
  "fireX h s =
     (case find (\<lambda>t. handle t = h) (pending s) of
        None \<Rightarrow> Inr s
      | Some t \<Rightarrow>
          (case callback t of
             AdvanceX i \<Rightarrow> advance i (clearTimeout h s)
           | StopAnimationTimer \<Rightarrow> replayOrStop (clearTimeout h s)))"

definition defaultSettingsX :: VisualSettingsX where
  "defaultSettingsX =
     \<lparr>transitionSettings = \<lparr>timeInterval = 1000, autoStart = False, loop = False\<rparr>,
      colorSelector =
        \<lparr>pickedColor = ''#000000'', showAll = False, playColor = ''#f2c811'',
         pauseColor = ''#1769b8'', stopColor = ''#f42550'', previousColor = ''#12b159'',
         nextColor = ''#a81de8''\<rparr>,
      captionSettings =
        \<lparr>show = True, captionColor = ''#000000'', fontSize = 16, align = ''left''\<rparr>\<rparr>"

text \<open>
  The extended \<^verbatim>\<open>visualTransform\<close> has no readiness test of its own: \<^verbatim>\<open>update\<close> calls
  it after \<^verbatim>\<open>isDataReady\<close>, so it takes ready data.
\<close>

definition visualTransformX :: "'tok DataView \<Rightarrow> ('tok, VisualSettingsX) ViewModel" where
  "visualTransformX dv =
     \<lparr>dataPoints = categoryDataPoints dv,
      settings = Some
        \<lparr>transitionSettings =
           \<lparr>timeInterval = getNumber dv ''transitionSettings'' ''timeInterval''
              (timeInterval (transitionSettings defaultSettingsX)),
            autoStart = getBoolean dv ''transitionSettings'' ''autoStart''
              (autoStart (transitionSettings defaultSettingsX)),
            loop = getBoolean dv ''transitionSettings'' ''loop''
              (loop (transitionSettings defaultSettingsX))\<rparr>,
         colorSelector =
           \<lparr>pickedColor = getText dv ''colorSelector'' ''pickedColor''
              (pickedColor (colorSelector defaultSettingsX)),
            showAll = getBoolean dv ''colorSelector'' ''showAll''
              (showAll (colorSelector defaultSettingsX)),
            playColor = getText dv ''colorSelector'' ''playColor''
              (playColor (colorSelector defaultSettingsX)),
            pauseColor = getText dv ''colorSelector'' ''pauseColor''
              (pauseColor (colorSelector defaultSettingsX)),
            stopColor = getText dv ''colorSelector'' ''stopColor''
              (stopColor (colorSelector defaultSettingsX)),
            previousColor = getText dv ''colorSelector'' ''previousColor''
              (previousColor (colorSelector defaultSettingsX)),
            nextColor = getText dv ''colorSelector'' ''nextColor''
              (nextColor (colorSelector defaultSettingsX))\<rparr>,
         captionSettings =
           \<lparr>show = getBoolean dv ''captionSettings'' ''show''
              (show (captionSettings defaultSettingsX)),
            captionColor = getText dv ''captionSettings'' ''captionColor''
              (captionColor (captionSettings defaultSettingsX)),
            fontSize = getNumber dv ''captionSettings'' ''fontSize''
              (fontSize (captionSettings defaultSettingsX)),
            align = getText dv ''captionSettings'' ''align''
              (align (captionSettings defaultSettingsX))\<rparr>\<rparr>\<rparr>"

definition isDataReady :: "'tok VisualUpdateOptions \<Rightarrow> bool" where
  "isDataReady options = (case options of None \<Rightarrow> False | Some dv \<Rightarrow> True)"

text \<open>The styling that ends the extended \<^verbatim>\<open>update\<close>: colours, font size, title, view boxes.\<close>

definition restyleX :: "'tok DataView \<Rightarrow> VisualSettingsX \<Rightarrow> 'tok event list" where
  "restyleX dv vs =
     (if showAll (colorSelector vs) then
        [Attr ''#play'' ''fill'' (Str (playColor (colorSelector vs))),
         Attr ''#pause'' ''fill'' (Str (pauseColor (colorSelector vs))),
         Attr ''#stop'' ''fill'' (Str (stopColor (colorSelector vs))),
         Attr ''#previous'' ''fill'' (Str (previousColor (colorSelector vs))),
         Attr ''#next'' ''fill'' (Str (nextColor (colorSelector vs)))]
      else [Attr ''.controls'' ''fill'' (Str (pickedColor (colorSelector vs)))])
     @ [Attr ''#label'' ''fill'' (Str (captionColor (captionSettings vs))),
        Attr ''#label'' ''font-size'' (Num (fontSize (captionSettings vs)))]
     @ (if show (captionSettings vs) then
          [LabelText (displayName dv), LabelText (displayName dv),
           Attr ''controlsSVG'' ''viewBox'' (ViewBox 0 0 (155 + labelWidth dv) 24),
           Attr ''controlsSVG'' ''preserveAspectRatio'' (Str ''xMinYMin'')]
          @ (if align (captionSettings vs) = ''right'' then
               [Attr ''captionSVG text'' ''text-anchor'' (Str ''end''),
                Attr ''captionSVG text'' ''x'' (Str ''100%''),
                Attr ''captionSVG'' ''viewBox'' (ViewBox 0 0 145 24),
                Attr ''captionSVG'' ''preserveAspectRatio'' (Str ''xMaxYMin'')]
             else
               [Attr ''captionSVG text'' ''text-anchor'' (Str ''start''),
                Attr ''captionSVG text'' ''x'' (Str ''4%''),
                Attr ''captionSVG'' ''viewBox'' (ViewBox (- 140) 0 (155 + labelWidth dv) 24),
                Attr ''captionSVG'' ''preserveAspectRatio'' (Str ''xMinYMin'')])
        else
          [LabelText '''',
           Attr ''controlsSVG'' ''viewBox'' (ViewBox 0 0 145 24),
           Attr ''controlsSVG'' ''preserveAspectRatio'' (Str ''xMinYMin'')])"

text \<open>
  The extended \<^verbatim>\<open>update\<close>. Past \<^verbatim>\<open>isDataReady\<close> the options hold ready data; were they
  not to, \<^verbatim>\<open>visualTransform\<close> would raise on them, after \<^verbatim>\<open>stopAnimation\<close> has run.
\<close>

definition updateX :: "'tok VisualUpdateOptions \<Rightarrow> 'tok VisualX \<Rightarrow> 'tok VisualX result" where
  "updateX options s =
     (if isDataReady options = False then Inr s
      else
        and_then (stopAnimation s)
          (\<lambda>s1. case options of
                   None \<Rightarrow> throw s1
                 | Some dv \<Rightarrow>
                     let vm = visualTransformX dv;
                         s2 = s1\<lparr>viewModel := Some vm\<rparr>;
                         s3 = s2\<lparr>visualSettings := settings vm\<rparr>;
                         s4 = s3\<lparr>visualDataPoints := Some (dataPoints vm)\<rparr>
                     in case visualSettings s4 of
                          None \<Rightarrow> throw s4
                        | Some vs \<Rightarrow>
                            and_then
                              (if autoStart (transitionSettings vs) then playAnimationX s4
                               else Inr s4)
                              (\<lambda>s5. Inr (s5\<lparr>events := events s5 @ restyleX dv vs\<rparr>))))"

fun actX :: "'tok action \<Rightarrow> 'tok VisualX \<Rightarrow> 'tok VisualX result" where
  "actX ClickPlay s = playAnimationX s"
| "actX ClickStop s = stopAnimation s"
| "actX ClickPause s = pauseAnimation s"
| "actX (CallStep d) s = step d s"
| "actX (CallUpdate options) s = updateX options s"
| "actX (Timeout h) s = fireX h s"

fun execX :: "'tok action list \<Rightarrow> 'tok VisualX \<Rightarrow> 'tok VisualX" where
  "execX [] s = s"
| "execX (a # as) s = execX as (state_of (actX a s))"

text \<open>
  The event loop running every timer that is pending now, in the order they were created.
  The timers of one \<^verbatim>\<open>playAnimation\<close> call are created with delays that do not decrease
  (for a time interval that is not negative), so this is the order in which they are due.
\<close>

definition run_pending :: "'tok VisualX \<Rightarrow> 'tok VisualX" where
  "run_pending s = execX (map Timeout (map handle (pending s))) s"

section \<open>Invariants of the reachable states\<close>

text \<open>
  Every handle of a pending timer is in \<^verbatim>\<open>this.timers\<close>, so the loops of
  \<^verbatim>\<open>stopAnimation\<close> and \<^verbatim>\<open>pauseAnimation\<close> reach it.
\<close>

definition owned :: "('tok, 'vs, 'cb) Visual \<Rightarrow> bool" where
  "owned s = (\<forall>t \<in> set (pending s). handle t \<in> set (timers s))"

definition controller_inv :: "('tok, 'vs, 'cb) Visual \<Rightarrow> bool" where
  "controller_inv s =
     (owned s \<and> (pending s \<noteq> [] \<longrightarrow> status s = Play) \<and> (status s = Stop \<longrightarrow> lastSelected s = 0))"

text \<open>A view model with its settings is installed, and \<^verbatim>\<open>this.visualSettings\<close> is those settings.\<close>

definition installed :: "('tok, 'vs, 'cb) Visual \<Rightarrow> bool" where
  "installed s =
     (case viewModel s of
        None \<Rightarrow> False
      | Some vm \<Rightarrow> settings vm \<noteq> None \<and> visualSettings s = settings vm)"

definition seq_len :: "('tok, 'vs, 'cb) Visual \<Rightarrow> int" where
  "seq_len s = (case viewModel s of None \<Rightarrow> 0 | Some vm \<Rightarrow> int (length (dataPoints vm)))"

text \<open>The index a pending callback closed over lies within a sequence of length \<open>n\<close>.\<close>

fun within :: "int \<Rightarrow> callbackX \<Rightarrow> bool" where
  "within n (AdvanceX i) = (0 \<le> i \<and> i < n)"
| "within n StopAnimationTimer = True"

definition in_range :: "'tok VisualX \<Rightarrow> bool" where
  "in_range s = (\<forall>t \<in> set (pending s). within (seq_len s) (callback t))"

definition controller_invX :: "'tok VisualX \<Rightarrow> bool" where
  "controller_invX s =
     (controller_inv s \<and> (status s \<noteq> Stop \<longrightarrow> installed s) \<and>
      (viewModel s \<noteq> None \<longrightarrow> installed s) \<and> in_range s \<and>
      0 \<le> lastSelected s \<and> (lastSelected s = 0 \<or> lastSelected s < seq_len s))"

section \<open>Sample data\<close>

text \<open>
  The sequence \<^verbatim>\<open>["A", "B", "C"]\<close> with every setting at its default (interval 1000,
  caption shown, no auto start, no loop), selection ids \<open>0, 1, 2\<close>; and the same data
  with one setting changed.
\<close>

definition abc :: "nat DataView" where
  "abc =
     \<lparr>categoryValues = [''A'', ''B'', ''C''], createSelectionId = (\<lambda>i. i),
      displayName = ''Letter'', getNumber = (\<lambda>obj prop d. d), getBoolean = (\<lambda>obj prop d. d),
      getText = (\<lambda>obj prop d. d), labelWidth = 40\<rparr>"

definition abc_with :: "string \<Rightarrow> bool \<Rightarrow> nat DataView" where
  "abc_with name b = abc\<lparr>getBoolean := (\<lambda>obj prop d. if prop = name then b else d)\<rparr>"

definition nothing_with :: "string \<Rightarrow> bool \<Rightarrow> nat DataView" where
  "nothing_with name b = (abc_with name b)\<lparr>categoryValues := []\<rparr>"

section \<open>Closed forms of the loops and the methods\<close>

lemma fold_clearTimeout:
  "fold clearTimeout hs s = s\<lparr>pending := filter (\<lambda>t. handle t \<notin> set hs) (pending s)\<rparr>"
proof (induction hs arbitrary: s)
  case Nil
  show ?case by simp
next
  case (Cons h hs)
  have "fold clearTimeout (h # hs) s = fold clearTimeout hs (clearTimeout h s)"
    by simp
  also have "\<dots> = (clearTimeout h s)\<lparr>pending := filter (\<lambda>t. handle t \<notin> set hs) (pending (clearTimeout h s))\<rparr>"
    by (rule Cons.IH)
  also have "\<dots> = s\<lparr>pending := filter (\<lambda>t. handle t \<notin> set (h # hs)) (pending s)\<rparr>"
    by (simp add: clearTimeout_def conj_commute)
  finally show ?case .
qed

lemma clearTimers_eq:
  "clearTimers s = s\<lparr>pending := filter (\<lambda>t. handle t \<notin> set (timers s)) (pending s)\<rparr>"
  unfolding clearTimers_def by (rule fold_clearTimeout)

lemma playLoop_eq:
  "playLoop mk n ti i s =
     s\<lparr>timers := timers s @ map (\<lambda>j. nextHandle s + nat (j - i)) [i..n - 1],
       pending := pending s @
         map (\<lambda>j. \<lparr>handle = nextHandle s + nat (j - i), delay = (j - lastSelected s) * ti,
                   callback = mk j\<rparr>) [i..n - 1],
       nextHandle := nextHandle s + nat (n - i)\<rparr>"
proof (induction mk n ti i s rule: playLoop.induct)
  case (1 mk n ti i s)
  show ?case
  proof (cases "i < n")
    case False
    then show ?thesis by (subst playLoop.simps) simp
  next
    case True
    define s' where "s' = push (nextHandle s) (snd (setTimeout (mk i) ((i - lastSelected s) * ti) s))"
    have step: "playLoop mk n ti i s = playLoop mk n ti (i + 1) s'"
      using True by (subst playLoop.simps) (simp add: s'_def setTimeout_def)
    have ih: "playLoop mk n ti (i + 1) s' =
       s'\<lparr>timers := timers s' @ map (\<lambda>j. nextHandle s' + nat (j - (i + 1))) [i + 1..n - 1],
       pending := pending s' @
         map (\<lambda>j. \<lparr>handle = nextHandle s' + nat (j - (i + 1)), delay = (j - lastSelected s') * ti,
                   callback = mk j\<rparr>) [i + 1..n - 1],
       nextHandle := nextHandle s' + nat (n - (i + 1))\<rparr>"
      using True by (intro "1.IH"[of "nextHandle s" "snd (setTimeout (mk i) ((i - lastSelected s) * ti) s)", folded s'_def]) (simp_all add: setTimeout_def)
    have up: "[i..n - 1] = i # [i + 1..n - 1]"
      using True by (simp add: upto_rec1)
    have h: "map (\<lambda>j. Suc (nextHandle s + nat (j - (i + 1)))) [i + 1..n - 1] = map (\<lambda>j. nextHandle s + nat (j - i)) [i + 1..n - 1]"
      by (rule map_cong) auto
    have h2: "map (\<lambda>j. \<lparr>handle = Suc (nextHandle s + nat (j - (i + 1))), delay = (j - lastSelected s) * ti,
                   callback = mk j\<rparr>) [i + 1..n - 1] = map (\<lambda>j. \<lparr>handle = nextHandle s + nat (j - i), delay = (j - lastSelected s) * ti,
                   callback = mk j\<rparr>) [i + 1..n - 1]"
      by (rule map_cong) auto
    have n: "Suc (nextHandle s + nat (n - (i + 1))) = nextHandle s + nat (n - i)"
      using True by auto
    show ?thesis
      unfolding step ih up
      by (simp add: s'_def setTimeout_def push_def h h2 n)
  qed
qed
lemmas env_defs = emit_def setTimeout_def push_def clearTimeout_def clearTimers_eq
lemmas res_defs = throw_def and_then_def state_of_def returns_def

lemma playAnimation_eq:
  assumes "status s \<noteq> Play" "viewModel s = Some vm" "settings vm = Some vs"
  shows "playAnimation s =
    Inr (s\<lparr>status := Play,
          timers := timers s @ map (\<lambda>j. nextHandle s + nat (j - (if status s = Stop then 0 else lastSelected s + 1)))
             [(if status s = Stop then 0 else lastSelected s + 1)..int (length (dataPoints vm)) - 1],
          pending := pending s @
            map (\<lambda>j. \<lparr>handle = nextHandle s + nat (j - (if status s = Stop then 0 else lastSelected s + 1)),
                      delay = (j - lastSelected s) * timeInterval (transitionSettings vs),
                      callback = AdvanceB j\<rparr>)
             [(if status s = Stop then 0 else lastSelected s + 1)..int (length (dataPoints vm)) - 1],
          nextHandle := nextHandle s + nat (int (length (dataPoints vm)) - (if status s = Stop then 0 else lastSelected s + 1)),
          events := events s @ [Attr ''#play, #next, #previous'' ''opacity'' (Str ''0.3''),
                                Attr ''#stop, #pause'' ''opacity'' (Str ''1'')]\<rparr>)"
  using assms by (simp add: playAnimation_def playLoop_eq emit_def Let_def)

lemma playAnimationX_eq:
  assumes "status s \<noteq> Play" "viewModel s = Some vm" "settings vm = Some vs"
  shows "playAnimationX s =
    Inr (s\<lparr>status := Play,
          timers := timers s @ map (\<lambda>j. nextHandle s + nat (j - (if status s = Stop then 0 else lastSelected s + 1)))
             [(if status s = Stop then 0 else lastSelected s + 1)..int (length (dataPoints vm)) - 1]
             @ [nextHandle s + nat (int (length (dataPoints vm)) - (if status s = Stop then 0 else lastSelected s + 1))],
          pending := pending s @
            map (\<lambda>j. \<lparr>handle = nextHandle s + nat (j - (if status s = Stop then 0 else lastSelected s + 1)),
                      delay = (j - lastSelected s) * timeInterval (transitionSettings vs),
                      callback = AdvanceX j\<rparr>)
             [(if status s = Stop then 0 else lastSelected s + 1)..int (length (dataPoints vm)) - 1]
             @ [\<lparr>handle = nextHandle s + nat (int (length (dataPoints vm)) - (if status s = Stop then 0 else lastSelected s + 1)),
                 delay = (int (length (dataPoints vm)) - lastSelected s) * timeInterval (transitionSettings vs),
                 callback = StopAnimationTimer\<rparr>],
          nextHandle := nextHandle s + nat (int (length (dataPoints vm)) - (if status s = Stop then 0 else lastSelected s + 1)) + 1,
          events := events s @ [Attr ''#play, #next, #previous'' ''opacity'' (Str ''0.3''),
                                Attr ''#stop, #pause'' ''opacity'' (Str ''1'')]\<rparr>)"
  using assms by (simp add: playAnimationX_def playLoop_eq env_defs Let_def)
lemma stopAnimation_eq:
  assumes "status s \<noteq> Stop" "visualSettings s = Some vs"
  shows "stopAnimation s =
    Inr (s\<lparr>status := Stop, lastSelected := 0,
          pending := filter (\<lambda>t. handle t \<notin> set (timers s)) (pending s),
          events := events s @
            [Attr ''#pause, #stop, #next, #previous'' ''opacity'' (Str ''0.3''),
             Attr ''#play'' ''opacity'' (Str ''1'')]
            @ (if show (captionSettings vs) then [LabelText ''''] else [])
            @ [ClearSelection]\<rparr>)"
  using assms by (simp add: stopAnimation_def updateCaption_def env_defs res_defs Let_def)

lemma stopAnimation_throws:
  assumes "status s \<noteq> Stop" "visualSettings s = None"
  shows "stopAnimation s =
    Inl (TypeError, s\<lparr>pending := filter (\<lambda>t. handle t \<notin> set (timers s)) (pending s),
          events := events s @
            [Attr ''#pause, #stop, #next, #previous'' ''opacity'' (Str ''0.3''),
             Attr ''#play'' ''opacity'' (Str ''1'')]\<rparr>)"
  using assms by (simp add: stopAnimation_def updateCaption_def env_defs res_defs Let_def)

lemma pauseAnimation_eq:
  assumes "status s = Play"
  shows "pauseAnimation s =
    Inr (s\<lparr>status := Pause,
          pending := filter (\<lambda>t. handle t \<notin> set (timers s)) (pending s),
          events := events s @
            [Attr ''#pause'' ''opacity'' (Str ''0.3''),
             Attr ''#play, #stop, #next, #previous'' ''opacity'' (Str ''1'')]\<rparr>)"
  using assms by (simp add: pauseAnimation_def env_defs Let_def)

lemma step_eq:
  assumes "status s = Pause" "viewModel s = Some vm" "visualSettings s = Some vs"
    "0 \<le> lastSelected s + d" "lastSelected s + d \<le> int (length (dataPoints vm)) - 1"
  shows "step d s =
    Inr (s\<lparr>status := Pause, lastSelected := lastSelected s + d,
          events := events s @
            [Select (selectionId (dataPoints vm ! nat (lastSelected s + d)))]
            @ (if show (captionSettings vs)
               then [LabelText (category (dataPoints vm ! nat (lastSelected s + d)))] else [])\<rparr>)"
  using assms by (simp add: step_def updateCaption_def env_defs res_defs Let_def)

lemma advance_eq:
  assumes "viewModel s = Some vm" "visualSettings s = Some vs"
    "0 \<le> i" "i < int (length (dataPoints vm))"
  shows "advance i s =
    Inr (s\<lparr>lastSelected := i,
          events := events s @
            [Select (selectionId (dataPoints vm ! nat i))]
            @ (if show (captionSettings vs)
               then [LabelText (category (dataPoints vm ! nat i))] else [])\<rparr>)"
  using assms by (simp add: advance_def updateCaption_def env_defs res_defs Let_def)

lemma filter_owned_empty:
  "owned s \<Longrightarrow> filter (\<lambda>t. handle t \<notin> set (timers s)) (pending s) = []"
  by (auto simp: owned_def filter_empty_conv)

section \<open>The invariant holds in every reachable state of the basic variant\<close>

lemma inv_stopAnimation: "controller_inv s \<Longrightarrow> controller_inv (state_of (stopAnimation s))"
proof -
  assume i: "controller_inv s"
  consider "status s = Stop" | vs where "status s \<noteq> Stop" "visualSettings s = Some vs"
    | "status s \<noteq> Stop" "visualSettings s = None"
    by (cases "visualSettings s") auto
  then show ?thesis
  proof cases
    case 1
    with i show ?thesis by (simp add: stopAnimation_def state_of_def)
  next
    case 2
    with i show ?thesis
      by (simp add: stopAnimation_eq state_of_def controller_inv_def owned_def filter_empty_conv)
  next
    case 3
    with i show ?thesis
      by (simp add: stopAnimation_throws state_of_def controller_inv_def owned_def filter_empty_conv)
  qed
qed

lemma inv_pauseAnimation: "controller_inv s \<Longrightarrow> controller_inv (state_of (pauseAnimation s))"
proof -
  assume i: "controller_inv s"
  show ?thesis
  proof (cases "status s = Play")
    case True
    with i show ?thesis
      by (simp add: pauseAnimation_eq state_of_def controller_inv_def owned_def filter_empty_conv)
  next
    case False
    then have "status s = Pause \<or> status s = Stop" by (cases "status s") auto
    with i show ?thesis by (simp add: pauseAnimation_def state_of_def)
  qed
qed

lemma inv_step: "controller_inv s \<Longrightarrow> controller_inv (state_of (step d s))"
  by (auto simp: step_def updateCaption_def env_defs res_defs Let_def controller_inv_def owned_def
      split: option.splits)

lemma inv_advance:
  "owned s \<Longrightarrow> pending s \<noteq> [] \<longrightarrow> status s = Play \<Longrightarrow> status s = Play \<Longrightarrow> controller_inv (state_of (advance i s))"
  by (auto simp: advance_def updateCaption_def env_defs res_defs Let_def controller_inv_def owned_def
      split: option.splits)

lemma inv_playAnimation: "controller_inv s \<Longrightarrow> controller_inv (state_of (playAnimation s))"
proof (cases "status s = Play")
  case True
  then show "controller_inv s \<Longrightarrow> ?thesis" by (simp add: playAnimation_def state_of_def)
next
  case False
  assume i: "controller_inv s"
  show ?thesis
  proof (cases "\<exists>vm vs. viewModel s = Some vm \<and> settings vm = Some vs")
    case True
    then obtain vm vs where "viewModel s = Some vm" "settings vm = Some vs" by blast
    with False i show ?thesis
      by (auto simp: playAnimation_eq state_of_def controller_inv_def owned_def)
  next
    case F: False
    with False i show ?thesis
      by (auto simp: playAnimation_def env_defs res_defs Let_def controller_inv_def owned_def
          split: option.splits)
  qed
qed

lemma inv_update: "controller_inv s \<Longrightarrow> controller_inv (state_of (update options s))"
  by (auto simp: update_def env_defs res_defs Let_def controller_inv_def owned_def
      split: option.splits)

lemma find_handle:
  "find (\<lambda>t. handle t = h) ts = Some t \<Longrightarrow> t \<in> set ts \<and> handle t = h"
  by (auto simp: find_Some_iff)

lemma inv_fire: "controller_inv s \<Longrightarrow> controller_inv (state_of (fire h s))"
proof -
  assume i: "controller_inv s"
  show ?thesis
  proof (cases "find (\<lambda>t. handle t = h) (pending s)")
    case None
    with i show ?thesis by (simp add: fire_def state_of_def)
  next
    case (Some t)
    then have "pending s \<noteq> []" by (auto dest: find_handle)
    with i have p: "status s = Play" by (simp add: controller_inv_def)
    obtain j where j: "callback t = AdvanceB j" by (cases "callback t")
    have "controller_inv (state_of (advance j (clearTimeout h s)))"
      using i p by (intro inv_advance) (auto simp: controller_inv_def owned_def clearTimeout_def)
    with Some j show ?thesis by (simp add: fire_def)
  qed
qed

lemma inv_act: "controller_inv s \<Longrightarrow> controller_inv (state_of (act a s))"
  by (cases a) (simp_all add: inv_playAnimation inv_stopAnimation inv_pauseAnimation inv_step inv_update inv_fire)

lemma inv_exec: "controller_inv s \<Longrightarrow> controller_inv (exec as s)"
  by (induction as arbitrary: s) (simp_all add: inv_act)

lemma inv_constructor: "controller_inv constructor"
  by (simp add: controller_inv_def owned_def constructor_def)

lemma reachable_inv: "controller_inv (exec as constructor)"
  by (rule inv_exec [OF inv_constructor])

section \<open>The invariant holds in every reachable state of the extended variant\<close>

lemma installed_fields [simp]:
  "installed (s\<lparr>events := e\<rparr>) = installed s"
  "installed (s\<lparr>status := st\<rparr>) = installed s"
  "installed (s\<lparr>pending := p\<rparr>) = installed s"
  "installed (s\<lparr>timers := ts\<rparr>) = installed s"
  "installed (s\<lparr>nextHandle := n\<rparr>) = installed s"
  "installed (s\<lparr>lastSelected := l\<rparr>) = installed s"
  "installed (s\<lparr>visualDataPoints := x\<rparr>) = installed s"
  by (cases "viewModel s"; simp add: installed_def)+

lemma seq_len_fields [simp]:
  "seq_len (s\<lparr>events := e\<rparr>) = seq_len s"
  "seq_len (s\<lparr>status := st\<rparr>) = seq_len s"
  "seq_len (s\<lparr>pending := p\<rparr>) = seq_len s"
  "seq_len (s\<lparr>timers := ts\<rparr>) = seq_len s"
  "seq_len (s\<lparr>nextHandle := n\<rparr>) = seq_len s"
  "seq_len (s\<lparr>lastSelected := l\<rparr>) = seq_len s"
  "seq_len (s\<lparr>visualDataPoints := x\<rparr>) = seq_len s"
  "seq_len (s\<lparr>visualSettings := y\<rparr>) = seq_len s"
  by (simp_all add: seq_len_def)

lemma seq_len_Some: "viewModel s = Some vm \<Longrightarrow> seq_len s = int (length (dataPoints vm))"
  by (simp add: seq_len_def)

lemmas inv_defs = controller_inv_def owned_def in_range_def

lemma installedD:
  "installed s \<Longrightarrow> \<exists>vm vs. viewModel s = Some vm \<and> settings vm = Some vs \<and> visualSettings s = Some vs"
  by (auto simp: installed_def split: option.splits)

lemma invX_stopAnimation:
  assumes i: "controller_invX s"
  shows "controller_invX (state_of (stopAnimation s))"
proof (cases "status s = Stop")
  case True
  with i show ?thesis by (simp add: stopAnimation_def state_of_def)
next
  case False
  with i have "installed s" by (simp add: controller_invX_def)
  then obtain vm vs where v: "viewModel s = Some vm" "settings vm = Some vs" "visualSettings s = Some vs"
    by (blast dest: installedD)
  from i have "owned s" by (simp add: controller_invX_def controller_inv_def)
  then have e: "filter (\<lambda>t. handle t \<notin> set (timers s)) (pending s) = []"
    by (rule filter_owned_empty)
  show ?thesis using i False v
    by (simp add: stopAnimation_eq e state_of_def controller_invX_def inv_defs)
qed

lemma invX_pauseAnimation:
  assumes i: "controller_invX s"
  shows "controller_invX (state_of (pauseAnimation s))"
proof (cases "status s = Play")
  case True
  from i have "owned s" by (simp add: controller_invX_def controller_inv_def)
  then have e: "filter (\<lambda>t. handle t \<notin> set (timers s)) (pending s) = []"
    by (rule filter_owned_empty)
  show ?thesis using i True
    by (simp add: pauseAnimation_eq e state_of_def controller_invX_def inv_defs)
next
  case False
  then have "status s = Pause \<or> status s = Stop" by (cases "status s") auto
  with i show ?thesis by (simp add: pauseAnimation_def state_of_def)
qed

lemma invX_step:
  assumes i: "controller_invX s"
  shows "controller_invX (state_of (step d s))"
proof (cases "status s = Pause")
  case False
  then have "status s = Play \<or> status s = Stop" by (cases "status s") auto
  with i show ?thesis by (simp add: step_def state_of_def)
next
  case True
  with i have "installed s" by (simp add: controller_invX_def)
  then obtain vm vs where v: "viewModel s = Some vm" "settings vm = Some vs" "visualSettings s = Some vs"
    by (blast dest: installedD)
  show ?thesis
  proof (cases "0 \<le> lastSelected s + d \<and> lastSelected s + d \<le> int (length (dataPoints vm)) - 1")
    case False
    with i True v show ?thesis by (auto simp: step_def state_of_def)
  next
    case r: True
    with i True v show ?thesis
      by (simp add: step_eq state_of_def controller_invX_def inv_defs seq_len_Some)
  qed
qed

lemma invX_playAnimationX:
  assumes i: "controller_invX s"
  shows "controller_invX (state_of (playAnimationX s))"
proof (cases "status s = Play")
  case True
  with i show ?thesis by (simp add: playAnimationX_def state_of_def)
next
  case np: False
  show ?thesis
  proof (cases "viewModel s")
    case None
    with i np show ?thesis
      by (simp add: playAnimationX_def env_defs res_defs Let_def controller_invX_def inv_defs)
  next
    case (Some vm)
    with i have "installed s" by (simp add: controller_invX_def)
    with Some obtain vs where v: "settings vm = Some vs" "visualSettings s = Some vs"
      by (auto dest: installedD)
    have nn: "0 \<le> lastSelected s" using i by (simp add: controller_invX_def)
    show ?thesis using i np Some v nn
      by (auto simp: playAnimationX_eq state_of_def controller_invX_def inv_defs seq_len_Some)
  qed
qed

lemma invX_advance:
  assumes i: "controller_invX s" and p: "status s = Play"
    and r: "0 \<le> j" "j < seq_len s"
  shows "controller_invX (state_of (advance j s))"
proof -
  from i p have "installed s" by (simp add: controller_invX_def)
  then obtain vm vs where v: "viewModel s = Some vm" "settings vm = Some vs" "visualSettings s = Some vs"
    by (blast dest: installedD)
  with r have "j < int (length (dataPoints vm))" by (simp add: seq_len_def)
  note seq_len_Some [OF v(1), simp]
  with i p r v show ?thesis
    by (simp add: advance_eq state_of_def controller_invX_def inv_defs)
qed

lemma invX_clearTimeout:
  "controller_invX s \<Longrightarrow> status s = Play \<Longrightarrow> controller_invX (clearTimeout h s)"
  by (auto simp: clearTimeout_def controller_invX_def inv_defs)

lemma invX_restart:
  "controller_invX s \<Longrightarrow> status s = Play \<Longrightarrow>
   controller_invX (state_of (playAnimationX (s\<lparr>status := Stop, lastSelected := 0\<rparr>)))"
proof -
  assume i: "controller_invX s" and p: "status s = Play"
  then have "installed s" by (simp add: controller_invX_def)
  then obtain vm vs where v: "viewModel s = Some vm" "settings vm = Some vs" "visualSettings s = Some vs"
    by (blast dest: installedD)
  show ?thesis using i p v
    by (auto simp: playAnimationX_eq state_of_def controller_invX_def inv_defs seq_len_Some)
qed

lemma invX_replayOrStop:
  assumes i: "controller_invX s" and p: "status s = Play"
  shows "controller_invX (state_of (replayOrStop s))"
proof -
  from i p have "installed s" by (simp add: controller_invX_def)
  then obtain vm vs where v: "viewModel s = Some vm" "settings vm = Some vs" "visualSettings s = Some vs"
    by (blast dest: installedD)
  show ?thesis
  proof (cases "loop (transitionSettings vs)")
    case True
    with v have "replayOrStop s = playAnimationX (s\<lparr>status := Stop, lastSelected := 0\<rparr>)"
      by (simp add: replayOrStop_def Let_def)
    with i p show ?thesis by (simp add: invX_restart)
  next
    case False
    with v have "replayOrStop s = stopAnimation s"
      by (simp add: replayOrStop_def)
    with i show ?thesis by (simp add: invX_stopAnimation)
  qed
qed

lemma invX_fireX:
  assumes i: "controller_invX s"
  shows "controller_invX (state_of (fireX h s))"
proof (cases "find (\<lambda>t. handle t = h) (pending s)")
  case None
  with i show ?thesis by (simp add: fireX_def state_of_def)
next
  case (Some t)
  then have t: "t \<in> set (pending s)" by (auto dest: find_handle)
  then have "pending s \<noteq> []" by auto
  with i have p: "status s = Play" by (simp add: controller_invX_def controller_inv_def)
  have c: "controller_invX (clearTimeout h s)" "status (clearTimeout h s) = Play"
    using i p by (simp_all add: invX_clearTimeout) (simp add: clearTimeout_def)
  show ?thesis
  proof (cases "callback t")
    case (AdvanceX j)
    with i t have "0 \<le> j \<and> j < seq_len s"
      by (auto simp: controller_invX_def in_range_def)
    then have "0 \<le> j" "j < seq_len (clearTimeout h s)" by (simp_all add: seq_len_def clearTimeout_def)
    with c have "controller_invX (state_of (advance j (clearTimeout h s)))"
      by (intro invX_advance)
    with Some AdvanceX show ?thesis by (simp add: fireX_def)
  next
    case StopAnimationTimer
    with Some c show ?thesis by (simp add: fireX_def invX_replayOrStop)
  qed
qed

lemma visualTransformX_settings: "settings (visualTransformX dv) \<noteq> None"
  by (simp add: visualTransformX_def)

lemma invX_install:
  assumes i: "controller_invX s" and st: "status s = Stop"
    and vm: "settings vm = Some vs"
  shows "controller_invX (s\<lparr>viewModel := Some vm, visualSettings := Some vs, visualDataPoints := x\<rparr>)"
  using assms by (auto simp: controller_invX_def inv_defs installed_def seq_len_def)

lemma invX_events:
  "controller_invX s \<Longrightarrow> controller_invX (s\<lparr>events := es\<rparr>)"
  by (simp add: controller_invX_def inv_defs)

lemma status_stopAnimation:
  "controller_invX s \<Longrightarrow> \<exists>s'. stopAnimation s = Inr s' \<and> status s' = Stop"
proof (cases "status s = Stop")
  case True
  then show ?thesis by (simp add: stopAnimation_def)
next
  case False
  assume "controller_invX s"
  with False have "installed s" by (simp add: controller_invX_def)
  then obtain vs where "visualSettings s = Some vs" by (blast dest: installedD)
  with False show ?thesis by (simp add: stopAnimation_eq)
qed

lemma invX_updateX:
  assumes i: "controller_invX s"
  shows "controller_invX (state_of (updateX options s))"
proof (cases options)
  case None
  with i show ?thesis by (simp add: updateX_def isDataReady_def state_of_def)
next
  case (Some dv)
  from status_stopAnimation[OF i] obtain s1 where s1: "stopAnimation s = Inr s1" "status s1 = Stop"
    by blast
  from invX_stopAnimation[OF i] s1 have i1: "controller_invX s1" by (simp add: state_of_def)
  obtain vs where vs: "settings (visualTransformX dv) = Some vs"
    using visualTransformX_settings[of dv] by auto
  define s4 where "s4 = s1\<lparr>viewModel := Some (visualTransformX dv), visualSettings := Some vs,
      visualDataPoints := Some (dataPoints (visualTransformX dv))\<rparr>"
  have i4: "controller_invX s4" unfolding s4_def using i1 s1(2) vs by (rule invX_install)
  have u: "updateX options s =
      and_then (if autoStart (transitionSettings vs) then playAnimationX s4 else Inr s4)
        (\<lambda>s5. Inr (s5\<lparr>events := events s5 @ restyleX dv vs\<rparr>))"
    using Some s1 vs by (simp add: updateX_def isDataReady_def and_then_def Let_def s4_def)
  have i5: "controller_invX (state_of (if autoStart (transitionSettings vs) then playAnimationX s4 else Inr s4))"
    using i4 by (auto simp: invX_playAnimationX) (simp add: state_of_def)
  show ?thesis unfolding u using i5
    by (cases "if autoStart (transitionSettings vs) then playAnimationX s4 else Inr s4")
       (auto simp: and_then_def state_of_def invX_events)
qed

lemma invX_actX: "controller_invX s \<Longrightarrow> controller_invX (state_of (actX a s))"
  by (cases a) (simp_all add: invX_playAnimationX invX_stopAnimation invX_pauseAnimation invX_step invX_updateX invX_fireX)

lemma invX_execX: "controller_invX s \<Longrightarrow> controller_invX (execX as s)"
  by (induction as arbitrary: s) (simp_all add: invX_actX)

lemma invX_constructor: "controller_invX constructor"
  by (simp add: controller_invX_def inv_defs constructor_def seq_len_def)

lemma reachable_invX: "controller_invX (execX as constructor)"
  by (rule invX_execX [OF invX_constructor])

section \<open>The claims\<close>

text \<open>The definitions that evaluate a run on sample data.\<close>

lemmas eval_defs = update_def updateX_def isDataReady_def visualTransform_def visualTransformX_def categoryDataPoints_def
  defaultSettings_def defaultSettingsX_def abc_def abc_with_def nothing_with_def constructor_def
  playAnimation_def playAnimationX_def playLoop_eq stopAnimation_def pauseAnimation_def step_def
  updateCaption_def advance_def fire_def fireX_def replayOrStop_def restyleX_def
  env_defs res_defs Let_def upto_rec1 upt_rec

subsection \<open>Pausing (C8)\<close>

lemma pause_any:
  assumes i: "controller_inv s"
  shows "if status s = Play
         then pauseAnimation s =
           Inr (s\<lparr>status := Pause, pending := [],
                 events := events s @
                   [Attr ''#pause'' ''opacity'' (Str ''0.3''),
                    Attr ''#play, #stop, #next, #previous'' ''opacity'' (Str ''1'')]\<rparr>)
         else pauseAnimation s = Inr s"
proof (cases "status s = Play")
  case True
  from i have "owned s" by (simp add: controller_inv_def)
  then have "filter (\<lambda>t. handle t \<notin> set (timers s)) (pending s) = []"
    by (rule filter_owned_empty)
  with True show ?thesis by (simp add: pauseAnimation_eq)
next
  case False
  then have "status s = Pause \<or> status s = Stop" by (cases "status s") auto
  with False show ?thesis by (simp add: pauseAnimation_def)
qed

lemma pending_after_pause:
  assumes i: "controller_inv s"
  shows "pending (state_of (pauseAnimation s)) = []"
proof (cases "status s = Play")
  case True
  with pause_any [OF i] show ?thesis by (simp add: state_of_def)
next
  case False
  with i have "pending s = []" by (auto simp: controller_inv_def)
  with False pause_any [OF i] show ?thesis by (simp add: state_of_def)
qed

lemma fire_idle: "pending s = [] \<Longrightarrow> fire h s = Inr s"
  by (simp add: fire_def)

lemma fireX_idle: "pending s = [] \<Longrightarrow> fireX h s = Inr s"
  by (simp add: fireX_def)

text \<open>
  C8. \<^verbatim>\<open>pauseAnimation\<close> returns the state unchanged when the status is Pause or Stop.
  When the status is Play it leaves \<^verbatim>\<open>lastSelected\<close> as it is, leaves no timer pending,
  sends the two opacity writes and nothing to the selection manager or the caption, and
  sets the status to Pause; after it, no timer runs anything. In every reachable state of
  both variants.
\<close>

theorem pauseAnimation_effect:
  assumes "sB = exec asB constructor" and "sX = execX asX constructor"
  shows "(if status sB = Play
          then pauseAnimation sB =
            Inr (sB\<lparr>status := Pause, pending := [],
                  events := events sB @
                    [Attr ''#pause'' ''opacity'' (Str ''0.3''),
                     Attr ''#play, #stop, #next, #previous'' ''opacity'' (Str ''1'')]\<rparr>)
          else pauseAnimation sB = Inr sB) \<and>
         (\<forall>h. fire h (state_of (pauseAnimation sB)) = Inr (state_of (pauseAnimation sB))) \<and>
         (if status sX = Play
          then pauseAnimation sX =
            Inr (sX\<lparr>status := Pause, pending := [],
                  events := events sX @
                    [Attr ''#pause'' ''opacity'' (Str ''0.3''),
                     Attr ''#play, #stop, #next, #previous'' ''opacity'' (Str ''1'')]\<rparr>)
          else pauseAnimation sX = Inr sX) \<and>
         (\<forall>h. fireX h (state_of (pauseAnimation sX)) = Inr (state_of (pauseAnimation sX)))"
proof -
  have iB: "controller_inv sB" unfolding assms by (rule reachable_inv)
  have iX: "controller_inv sX"
    unfolding assms using reachable_invX [of asX] by (simp add: controller_invX_def)
  show ?thesis
    using pause_any [OF iB] pause_any [OF iX]
      fire_idle [OF pending_after_pause [OF iB]] fireX_idle [OF pending_after_pause [OF iX]]
    by simp
qed

theorem pauseAnimation_effect_witness:
  "status (exec [CallUpdate (Some abc), ClickPlay] constructor) = Play \<and>
   length (pending (exec [CallUpdate (Some abc), ClickPlay] constructor)) = 3 \<and>
   pending (state_of (pauseAnimation (exec [CallUpdate (Some abc), ClickPlay] constructor))) = [] \<and>
   status (state_of (pauseAnimation (exec [CallUpdate (Some abc), ClickPlay] constructor))) = Pause \<and>
   fire 1 (state_of (pauseAnimation (exec [CallUpdate (Some abc), ClickPlay] constructor))) =
     Inr (state_of (pauseAnimation (exec [CallUpdate (Some abc), ClickPlay] constructor))) \<and>
   status (execX [CallUpdate (Some abc), ClickPlay] constructor) = Play \<and>
   length (pending (execX [CallUpdate (Some abc), ClickPlay] constructor)) = 4 \<and>
   pending (state_of (pauseAnimation (execX [CallUpdate (Some abc), ClickPlay] constructor))) = [] \<and>
   status (state_of (pauseAnimation (execX [CallUpdate (Some abc), ClickPlay] constructor))) = Pause"
  using pauseAnimation_effect [OF refl refl, of "[CallUpdate (Some abc), ClickPlay]"
      "[CallUpdate (Some abc), ClickPlay]"]
  by (simp add: eval_defs)

subsection \<open>The pending timers (C4)\<close>

lemma pending_after_stop:
  assumes i: "controller_inv s"
  shows "pending (state_of (stopAnimation s)) = []"
proof -
  from i have "owned s" by (simp add: controller_inv_def)
  then have e: "filter (\<lambda>t. handle t \<notin> set (timers s)) (pending s) = []"
    by (rule filter_owned_empty)
  consider "status s = Stop" | vs where "status s \<noteq> Stop" "visualSettings s = Some vs"
    | "status s \<noteq> Stop" "visualSettings s = None"
    by (cases "visualSettings s") auto
  then show ?thesis
  proof cases
    case 1
    with i have "pending s = []" by (auto simp: controller_inv_def)
    with 1 show ?thesis by (simp add: stopAnimation_def state_of_def)
  next
    case 2
    then show ?thesis by (simp add: stopAnimation_eq e state_of_def)
  next
    case 3
    then show ?thesis by (simp add: stopAnimation_throws e state_of_def)
  qed
qed

lemma play_appends:
  "\<exists>new. pending (state_of (playAnimation s)) = pending s @ new \<and>
         timers (state_of (playAnimation s)) = timers s @ map handle new"
proof (cases "status s \<noteq> Play \<and> (\<exists>vm vs. viewModel s = Some vm \<and> settings vm = Some vs)")
  case True
  then obtain vm vs where "status s \<noteq> Play" "viewModel s = Some vm" "settings vm = Some vs"
    by blast
  then show ?thesis by (simp add: playAnimation_eq state_of_def o_def)
next
  case False
  then have "pending (state_of (playAnimation s)) = pending s @ [] \<and>
         timers (state_of (playAnimation s)) = timers s @ map handle []"
    by (auto simp: playAnimation_def env_defs res_defs Let_def split: option.splits)
  then show ?thesis by blast
qed

lemma play_appendsX:
  "\<exists>new. pending (state_of (playAnimationX s)) = pending s @ new \<and>
         timers (state_of (playAnimationX s)) = timers s @ map handle new"
proof (cases "status s \<noteq> Play \<and> (\<exists>vm vs. viewModel s = Some vm \<and> settings vm = Some vs)")
  case True
  then obtain vm vs where v: "status s \<noteq> Play" "viewModel s = Some vm" "settings vm = Some vs"
    by blast
  show ?thesis
    unfolding playAnimationX_eq [OF v] state_of_def
    by (rule exI [of _ "map (\<lambda>j. \<lparr>handle = nextHandle s + nat (j - (if status s = Stop then 0 else lastSelected s + 1)),
                      delay = (j - lastSelected s) * timeInterval (transitionSettings vs),
                      callback = AdvanceX j\<rparr>)
             [(if status s = Stop then 0 else lastSelected s + 1)..int (length (dataPoints vm)) - 1]
             @ [\<lparr>handle = nextHandle s + nat (int (length (dataPoints vm)) - (if status s = Stop then 0 else lastSelected s + 1)),
                 delay = (int (length (dataPoints vm)) - lastSelected s) * timeInterval (transitionSettings vs),
                 callback = StopAnimationTimer\<rparr>]"])
       (simp add: o_def)
next
  case False
  then have "pending (state_of (playAnimationX s)) = pending s @ [] \<and>
         timers (state_of (playAnimationX s)) = timers s @ map handle []"
    by (auto simp: playAnimationX_def env_defs res_defs Let_def split: option.splits)
  then show ?thesis by blast
qed

lemma idle_no_timers:
  "controller_inv s \<Longrightarrow> status s = Stop \<or> status s = Pause \<Longrightarrow> pending s = []"
  by (auto simp: controller_inv_def)

text \<open>
  C4. In every reachable state of both variants: each pending timer's handle is in
  \<^verbatim>\<open>this.timers\<close>; no timer is pending while the status is Stop or Pause; after
  \<^verbatim>\<open>pauseAnimation\<close> and after \<^verbatim>\<open>stopAnimation\<close> no timer is pending;
  \<^verbatim>\<open>playAnimation\<close> appends the timers it creates to the pending ones and their handles
  to \<^verbatim>\<open>this.timers\<close>.
\<close>

theorem pending_timers_invariant:
  assumes "sB = exec asB constructor" and "sX = execX asX constructor"
  shows "owned sB \<and>
         (status sB = Stop \<or> status sB = Pause \<longrightarrow> pending sB = []) \<and>
         pending (state_of (pauseAnimation sB)) = [] \<and>
         pending (state_of (stopAnimation sB)) = [] \<and>
         (\<exists>new. pending (state_of (playAnimation sB)) = pending sB @ new \<and>
                timers (state_of (playAnimation sB)) = timers sB @ map handle new) \<and>
         owned sX \<and>
         (status sX = Stop \<or> status sX = Pause \<longrightarrow> pending sX = []) \<and>
         pending (state_of (pauseAnimation sX)) = [] \<and>
         pending (state_of (stopAnimation sX)) = [] \<and>
         (\<exists>new. pending (state_of (playAnimationX sX)) = pending sX @ new \<and>
                timers (state_of (playAnimationX sX)) = timers sX @ map handle new)"
proof -
  have iB: "controller_inv sB" unfolding assms by (rule reachable_inv)
  have iX: "controller_inv sX"
    unfolding assms using reachable_invX [of asX] by (simp add: controller_invX_def)
  have oB: "owned sB" and oX: "owned sX"
    using iB iX by (simp_all add: controller_inv_def)
  show ?thesis
    using oB oX idle_no_timers [OF iB] idle_no_timers [OF iX]
      pending_after_pause [OF iB] pending_after_pause [OF iX]
      pending_after_stop [OF iB] pending_after_stop [OF iX]
      play_appends [of sB] play_appendsX [of sX]
    by blast
qed

theorem pending_timers_invariant_witness:
  "status (exec [CallUpdate (Some abc), ClickPlay, ClickPause] constructor) = Pause \<and>
   pending (exec [CallUpdate (Some abc), ClickPlay, ClickPause] constructor) = [] \<and>
   timers (exec [CallUpdate (Some abc), ClickPlay, ClickPause] constructor) = [0, 1, 2] \<and>
   status (execX [CallUpdate (Some abc), ClickPlay, ClickStop] constructor) = Stop \<and>
   pending (execX [CallUpdate (Some abc), ClickPlay, ClickStop] constructor) = [] \<and>
   timers (execX [CallUpdate (Some abc), ClickPlay, ClickStop] constructor) = [0, 1, 2, 3]"
  using pending_timers_invariant [OF refl refl, of "[CallUpdate (Some abc), ClickPlay, ClickPause]"
      "[CallUpdate (Some abc), ClickPlay, ClickStop]"]
  by (simp add: eval_defs)

subsection \<open>Playing (C2)\<close>

text \<open>
  C2, as amended. With a view model and its settings installed, \<^verbatim>\<open>playAnimation\<close> returns the state
  unchanged when the status is Play. Otherwise the starting index is 0 when the status is
  Stop and \<^verbatim>\<open>lastSelected + 1\<close> when it is Pause; one timer is created for each index
  \<open>i\<close> from the starting index to the last, with delay
  \<^verbatim>\<open>(i - lastSelected) * timeInterval\<close> and the callback for \<open>i\<close>; \<^verbatim>\<open>lastSelected\<close> is
  not changed and the status becomes Play. The extended variant creates the same timers,
  followed by its \<^verbatim>\<open>stopAnimationTimer\<close>.
\<close>

theorem playAnimation_effect:
  assumes "viewModel sB = Some vmB" and "settings vmB = Some vsB"
    and "viewModel sX = Some vmX" and "settings vmX = Some vsX"
  shows
    "(if status sB = Play then playAnimation sB = Inr sB
      else playAnimation sB =
        Inr (sB\<lparr>status := Play,
              timers := timers sB @
                map (\<lambda>i. nextHandle sB + nat (i - (if status sB = Stop then 0 else lastSelected sB + 1)))
                  [(if status sB = Stop then 0 else lastSelected sB + 1)..int (length (dataPoints vmB)) - 1],
              pending := pending sB @
                map (\<lambda>i. \<lparr>handle = nextHandle sB + nat (i - (if status sB = Stop then 0 else lastSelected sB + 1)),
                          delay = (i - lastSelected sB) * timeInterval (transitionSettings vsB),
                          callback = AdvanceB i\<rparr>)
                  [(if status sB = Stop then 0 else lastSelected sB + 1)..int (length (dataPoints vmB)) - 1],
              nextHandle := nextHandle sB +
                nat (int (length (dataPoints vmB)) - (if status sB = Stop then 0 else lastSelected sB + 1)),
              events := events sB @
                [Attr ''#play, #next, #previous'' ''opacity'' (Str ''0.3''),
                 Attr ''#stop, #pause'' ''opacity'' (Str ''1'')]\<rparr>)) \<and>
     (if status sX = Play then playAnimationX sX = Inr sX
      else playAnimationX sX =
        Inr (sX\<lparr>status := Play,
              timers := timers sX @
                map (\<lambda>i. nextHandle sX + nat (i - (if status sX = Stop then 0 else lastSelected sX + 1)))
                  [(if status sX = Stop then 0 else lastSelected sX + 1)..int (length (dataPoints vmX)) - 1]
                @ [nextHandle sX +
                   nat (int (length (dataPoints vmX)) - (if status sX = Stop then 0 else lastSelected sX + 1))],
              pending := pending sX @
                map (\<lambda>i. \<lparr>handle = nextHandle sX + nat (i - (if status sX = Stop then 0 else lastSelected sX + 1)),
                          delay = (i - lastSelected sX) * timeInterval (transitionSettings vsX),
                          callback = AdvanceX i\<rparr>)
                  [(if status sX = Stop then 0 else lastSelected sX + 1)..int (length (dataPoints vmX)) - 1]
                @ [\<lparr>handle = nextHandle sX +
                      nat (int (length (dataPoints vmX)) - (if status sX = Stop then 0 else lastSelected sX + 1)),
                    delay = (int (length (dataPoints vmX)) - lastSelected sX) * timeInterval (transitionSettings vsX),
                    callback = StopAnimationTimer\<rparr>],
              nextHandle := nextHandle sX +
                nat (int (length (dataPoints vmX)) - (if status sX = Stop then 0 else lastSelected sX + 1)) + 1,
              events := events sX @
                [Attr ''#play, #next, #previous'' ''opacity'' (Str ''0.3''),
                 Attr ''#stop, #pause'' ''opacity'' (Str ''1'')]\<rparr>))"
proof (rule conjI)
  show "if status sB = Play then playAnimation sB = Inr sB
      else playAnimation sB =
        Inr (sB\<lparr>status := Play,
              timers := timers sB @
                map (\<lambda>i. nextHandle sB + nat (i - (if status sB = Stop then 0 else lastSelected sB + 1)))
                  [(if status sB = Stop then 0 else lastSelected sB + 1)..int (length (dataPoints vmB)) - 1],
              pending := pending sB @
                map (\<lambda>i. \<lparr>handle = nextHandle sB + nat (i - (if status sB = Stop then 0 else lastSelected sB + 1)),
                          delay = (i - lastSelected sB) * timeInterval (transitionSettings vsB),
                          callback = AdvanceB i\<rparr>)
                  [(if status sB = Stop then 0 else lastSelected sB + 1)..int (length (dataPoints vmB)) - 1],
              nextHandle := nextHandle sB +
                nat (int (length (dataPoints vmB)) - (if status sB = Stop then 0 else lastSelected sB + 1)),
              events := events sB @
                [Attr ''#play, #next, #previous'' ''opacity'' (Str ''0.3''),
                 Attr ''#stop, #pause'' ''opacity'' (Str ''1'')]\<rparr>)"
  proof (cases "status sB = Play")
    case True
    then show ?thesis by (simp add: playAnimation_def)
  next
    case False
    show ?thesis
      by (simp only: False if_False) (rule playAnimation_eq [OF False assms(1,2)])
  qed
next
  show "if status sX = Play then playAnimationX sX = Inr sX
      else playAnimationX sX =
        Inr (sX\<lparr>status := Play,
              timers := timers sX @
                map (\<lambda>i. nextHandle sX + nat (i - (if status sX = Stop then 0 else lastSelected sX + 1)))
                  [(if status sX = Stop then 0 else lastSelected sX + 1)..int (length (dataPoints vmX)) - 1]
                @ [nextHandle sX +
                   nat (int (length (dataPoints vmX)) - (if status sX = Stop then 0 else lastSelected sX + 1))],
              pending := pending sX @
                map (\<lambda>i. \<lparr>handle = nextHandle sX + nat (i - (if status sX = Stop then 0 else lastSelected sX + 1)),
                          delay = (i - lastSelected sX) * timeInterval (transitionSettings vsX),
                          callback = AdvanceX i\<rparr>)
                  [(if status sX = Stop then 0 else lastSelected sX + 1)..int (length (dataPoints vmX)) - 1]
                @ [\<lparr>handle = nextHandle sX +
                      nat (int (length (dataPoints vmX)) - (if status sX = Stop then 0 else lastSelected sX + 1)),
                    delay = (int (length (dataPoints vmX)) - lastSelected sX) * timeInterval (transitionSettings vsX),
                    callback = StopAnimationTimer\<rparr>],
              nextHandle := nextHandle sX +
                nat (int (length (dataPoints vmX)) - (if status sX = Stop then 0 else lastSelected sX + 1)) + 1,
              events := events sX @
                [Attr ''#play, #next, #previous'' ''opacity'' (Str ''0.3''),
                 Attr ''#stop, #pause'' ''opacity'' (Str ''1'')]\<rparr>)"
  proof (cases "status sX = Play")
    case True
    then show ?thesis by (simp add: playAnimationX_def)
  next
    case False
    show ?thesis
      by (simp only: False if_False) (rule playAnimationX_eq [OF False assms(3,4)])
  qed
qed

theorem playAnimation_effect_witness:
  "status (exec [CallUpdate (Some abc), ClickPlay, Timeout 0, Timeout 1, ClickPause] constructor) = Pause \<and>
   lastSelected (exec [CallUpdate (Some abc), ClickPlay, Timeout 0, Timeout 1, ClickPause] constructor) = 1 \<and>
   pending (exec [CallUpdate (Some abc), ClickPlay, Timeout 0, Timeout 1, ClickPause] constructor) = [] \<and>
   pending (state_of (playAnimation
     (exec [CallUpdate (Some abc), ClickPlay, Timeout 0, Timeout 1, ClickPause] constructor))) =
     [\<lparr>handle = 3, delay = 1000, callback = AdvanceB 2\<rparr>] \<and>
   status (state_of (playAnimation
     (exec [CallUpdate (Some abc), ClickPlay, Timeout 0, Timeout 1, ClickPause] constructor))) = Play \<and>
   lastSelected (state_of (playAnimation
     (exec [CallUpdate (Some abc), ClickPlay, Timeout 0, Timeout 1, ClickPause] constructor))) = 1 \<and>
   status (execX [CallUpdate (Some abc)] constructor) = Stop \<and>
   pending (state_of (playAnimationX (execX [CallUpdate (Some abc)] constructor))) =
     [\<lparr>handle = 0, delay = 0, callback = AdvanceX 0\<rparr>,
      \<lparr>handle = 1, delay = 1000, callback = AdvanceX 1\<rparr>,
      \<lparr>handle = 2, delay = 2000, callback = AdvanceX 2\<rparr>,
      \<lparr>handle = 3, delay = 3000, callback = StopAnimationTimer\<rparr>] \<and>
   status (exec [CallUpdate (Some abc), ClickPlay] constructor) = Play \<and>
   playAnimation (exec [CallUpdate (Some abc), ClickPlay] constructor) =
     Inr (exec [CallUpdate (Some abc), ClickPlay] constructor)"
proof -
  define b where "b = exec [CallUpdate (Some abc), ClickPlay, Timeout 0, Timeout 1, ClickPause] constructor"
  define x where "x = execX [CallUpdate (Some abc)] constructor"
  define p where "p = exec [CallUpdate (Some abc), ClickPlay] constructor"
  define vmB where "vmB = visualTransform (Some abc)"
  define vmX where "vmX = visualTransformX abc"
  define vsB where "vsB = the (settings vmB)"
  define vsX where "vsX = the (settings vmX)"
  have vb: "viewModel b = Some vmB" and vx: "viewModel x = Some vmX"
    and vp: "viewModel p = Some vmB"
    by (simp_all add: b_def x_def p_def vmB_def vmX_def eval_defs)
  have sb: "settings vmB = Some vsB" and sx: "settings vmX = Some vsX"
    by (simp_all add: vsB_def vsX_def vmB_def vmX_def visualTransform_def visualTransformX_def)
  have t: "timeInterval (transitionSettings vsB) = 1000" "timeInterval (transitionSettings vsX) = 1000"
    "length (dataPoints vmB) = 3" "length (dataPoints vmX) = 3"
    by (simp_all add: vsB_def vsX_def vmB_def vmX_def eval_defs)
  have fb: "status b = Pause" "lastSelected b = 1" "pending b = []" "nextHandle b = 3"
    by (simp_all add: b_def eval_defs)
  have fx: "status x = Stop" "lastSelected x = 0" "pending x = []" "nextHandle x = 0"
    by (simp_all add: x_def eval_defs)
  have fp: "status p = Play"
    by (simp add: p_def eval_defs)
  note th = playAnimation_effect [OF vb sb vx sx]
  note thp = playAnimation_effect [OF vp sb vx sx]
  have c1: "pending (state_of (playAnimation b)) =
     [\<lparr>handle = 3, delay = 1000, callback = AdvanceB 2\<rparr>]"
     "status (state_of (playAnimation b)) = Play"
     "lastSelected (state_of (playAnimation b)) = 1"
     "pending (state_of (playAnimationX x)) =
     [\<lparr>handle = 0, delay = 0, callback = AdvanceX 0\<rparr>,
      \<lparr>handle = 1, delay = 1000, callback = AdvanceX 1\<rparr>,
      \<lparr>handle = 2, delay = 2000, callback = AdvanceX 2\<rparr>,
      \<lparr>handle = 3, delay = 3000, callback = StopAnimationTimer\<rparr>]"
    using th by (simp_all add: t fb fx state_of_def upto_rec1)
  have c2: "playAnimation p = Inr p"
    using thp [THEN conjunct1] by (simp add: fp)
  show ?thesis
    unfolding b_def [symmetric] x_def [symmetric] p_def [symmetric]
    by (simp only: c1 c2 fb fx fp simp_thms)
qed

text \<open>
  The claim as written fails where no view model is installed: before the first update
  with ready data, \<^verbatim>\<open>playAnimation\<close> is not a no-op and does not set the status to Play; it
  writes the opacities, raises on reading \<^verbatim>\<open>this.viewModel.settings\<close>, creates no timer
  and leaves the status Stop. In both variants.
\<close>

theorem play_uninstalled_counterexample:
  "status (constructor :: nat VisualB) = Stop \<and>
   \<not> returns (playAnimation (constructor :: nat VisualB)) \<and>
   status (exec [ClickPlay] (constructor :: nat VisualB)) = Stop \<and>
   pending (exec [ClickPlay] (constructor :: nat VisualB)) = [] \<and>
   \<not> returns (playAnimationX (constructor :: nat VisualX)) \<and>
   status (execX [ClickPlay] (constructor :: nat VisualX)) = Stop \<and>
   pending (execX [ClickPlay] (constructor :: nat VisualX)) = []"
  by (simp add: eval_defs)

subsection \<open>Stepping (C7, C10)\<close>

lemma step_idle: "status s = Play \<or> status s = Stop \<Longrightarrow> step d s = Inr s"
  by (simp add: step_def)

lemma step_out_of_range:
  "viewModel s = Some vm \<Longrightarrow>
   lastSelected s + d < 0 \<or> lastSelected s + d > int (length (dataPoints vm)) - 1 \<Longrightarrow>
   step d s = Inr s"
  by (simp add: step_def)

text \<open>
  C7, as amended. With a view model and settings installed, \<^verbatim>\<open>step(d)\<close> returns the
  state unchanged when the status is Play or Stop, and when \<^verbatim>\<open>lastSelected + d\<close> is
  outside \<open>[0, length - 1]\<close>. Otherwise it adds \<open>d\<close> to \<^verbatim>\<open>lastSelected\<close>, selects the data
  point there, sets the caption to its category when \<^verbatim>\<open>captionSettings.show\<close> is true
  (and sends no caption when it is false), and sets the status to Pause. It never raises.
\<close>

theorem step_effect:
  assumes "viewModel s = Some vm" and "visualSettings s = Some vs"
  shows
    "(if status s = Play \<or> status s = Stop then step d s = Inr s
      else if lastSelected s + d < 0 \<or> lastSelected s + d > int (length (dataPoints vm)) - 1
      then step d s = Inr s
      else step d s =
        Inr (s\<lparr>status := Pause, lastSelected := lastSelected s + d,
              events := events s @
                [Select (selectionId (dataPoints vm ! nat (lastSelected s + d)))]
                @ (if show (captionSettings vs)
                   then [LabelText (category (dataPoints vm ! nat (lastSelected s + d)))]
                   else [])\<rparr>))"
proof (cases "status s = Play \<or> status s = Stop")
  case True
  then show ?thesis by (simp add: step_idle)
next
  case idle: False
  then have p: "status s = Pause" by (cases "status s") auto
  show ?thesis
  proof (cases "lastSelected s + d < 0 \<or> lastSelected s + d > int (length (dataPoints vm)) - 1")
    case True
    with idle show ?thesis by (simp add: step_out_of_range [OF assms(1)])
  next
    case False
    then have r: "0 \<le> lastSelected s + d" "lastSelected s + d \<le> int (length (dataPoints vm)) - 1"
      by auto
    show ?thesis
      by (simp only: idle False if_False) (rule step_eq [OF p assms r])
  qed
qed

theorem step_effect_witness:
  "status (exec [CallUpdate (Some abc), ClickPlay, Timeout 0, ClickPause] constructor) = Pause \<and>
   lastSelected (exec [CallUpdate (Some abc), ClickPlay, Timeout 0, ClickPause] constructor) = 0 \<and>
   step (- 1) (exec [CallUpdate (Some abc), ClickPlay, Timeout 0, ClickPause] constructor) =
     Inr (exec [CallUpdate (Some abc), ClickPlay, Timeout 0, ClickPause] constructor) \<and>
   lastSelected (state_of (step 1
     (exec [CallUpdate (Some abc), ClickPlay, Timeout 0, ClickPause] constructor))) = 1 \<and>
   events (state_of (step 1
     (exec [CallUpdate (Some abc), ClickPlay, Timeout 0, ClickPause] constructor))) =
     events (exec [CallUpdate (Some abc), ClickPlay, Timeout 0, ClickPause] constructor) @
     [Select 1, LabelText ''B'']"
proof -
  define b where "b = exec [CallUpdate (Some abc), ClickPlay, Timeout 0, ClickPause] constructor"
  define vm where "vm = visualTransform (Some abc)"
  define vs where "vs = the (settings vm)"
  have v: "viewModel b = Some vm" "visualSettings b = Some vs"
    by (simp_all add: b_def vm_def vs_def eval_defs)
  have f: "status b = Pause" "lastSelected b = 0"
    by (simp_all add: b_def eval_defs)
  have t: "length (dataPoints vm) = 3" "show (captionSettings vs)"
    "selectionId (dataPoints vm ! Suc 0) = 1" "category (dataPoints vm ! Suc 0) = ''B''"
    by (simp_all add: vm_def vs_def eval_defs)
  have c: "step (- 1) b = Inr b" "lastSelected (state_of (step 1 b)) = 1"
    "events (state_of (step 1 b)) = events b @ [Select 1, LabelText ''B'']"
    using step_effect [OF v, of "- 1"] step_effect [OF v, of 1]
    by (simp_all add: f t state_of_def)
  show ?thesis
    unfolding b_def [symmetric] by (simp only: c f simp_thms)
qed

text \<open>
  The claim as written fails where the caption is switched off: a step within the bounds
  selects the data point and sends no caption.
\<close>

theorem step_caption_counterexample:
  "status (exec [CallUpdate (Some (abc_with ''show'' False)), ClickPlay, Timeout 0, ClickPause]
     constructor) = Pause \<and>
   lastSelected (exec [CallUpdate (Some (abc_with ''show'' False)), ClickPlay, Timeout 0, ClickPause]
     constructor) = 0 \<and>
   lastSelected (state_of (step 1
     (exec [CallUpdate (Some (abc_with ''show'' False)), ClickPlay, Timeout 0, ClickPause]
       constructor))) = 1 \<and>
   events (state_of (step 1
     (exec [CallUpdate (Some (abc_with ''show'' False)), ClickPlay, Timeout 0, ClickPause]
       constructor))) =
     events (exec [CallUpdate (Some (abc_with ''show'' False)), ClickPlay, Timeout 0, ClickPause]
       constructor) @ [Select 1] \<and>
   LabelText ''B'' \<notin> set (events (state_of (step 1
     (exec [CallUpdate (Some (abc_with ''show'' False)), ClickPlay, Timeout 0, ClickPause]
       constructor))))"
  by (simp add: eval_defs)

text \<open>
  C10. \<^verbatim>\<open>step\<close> takes any integer: while the status is Pause and \<^verbatim>\<open>lastSelected + d\<close>
  is within the list, one call moves \<^verbatim>\<open>lastSelected\<close> by \<open>d\<close> and does exactly what a
  step by one position onto the same data point does (from either neighbour): the data
  point is selected, and its category is sent to the caption under the same condition
  (\<^verbatim>\<open>captionSettings.show\<close>) as for a single step.
\<close>

theorem step_any_delta:
  assumes "status s = Pause" and "viewModel s = Some vm" and "visualSettings s = Some vs"
    and "0 \<le> lastSelected s + d" and "lastSelected s + d \<le> int (length (dataPoints vm)) - 1"
  shows
    "returns (step d s) \<and>
     lastSelected (state_of (step d s)) = lastSelected s + d \<and>
     status (state_of (step d s)) = Pause \<and>
     events (state_of (step d s)) =
       events s @ [Select (selectionId (dataPoints vm ! nat (lastSelected s + d)))]
       @ (if show (captionSettings vs)
          then [LabelText (category (dataPoints vm ! nat (lastSelected s + d)))] else []) \<and>
     step d s = step 1 (s\<lparr>lastSelected := lastSelected s + d - 1\<rparr>) \<and>
     step d s = step (- 1) (s\<lparr>lastSelected := lastSelected s + d + 1\<rparr>)"
proof -
  note e = step_eq [OF assms]
  have up: "step 1 (s\<lparr>lastSelected := lastSelected s + d - 1\<rparr>) = step d s"
    using assms by (subst step_eq [where vm = vm and vs = vs]) (simp_all add: e)
  have down: "step (- 1) (s\<lparr>lastSelected := lastSelected s + d + 1\<rparr>) = step d s"
    using assms by (subst step_eq [where vm = vm and vs = vs]) (simp_all add: e)
  show ?thesis
    by (simp add: up down) (simp add: e returns_def state_of_def)
qed

theorem step_any_delta_witness:
  "status (exec [CallUpdate (Some abc), ClickPlay, Timeout 0, ClickPause] constructor) = Pause \<and>
   lastSelected (exec [CallUpdate (Some abc), ClickPlay, Timeout 0, ClickPause] constructor) = 0 \<and>
   lastSelected (state_of (step 2
     (exec [CallUpdate (Some abc), ClickPlay, Timeout 0, ClickPause] constructor))) = 2 \<and>
   events (state_of (step 2
     (exec [CallUpdate (Some abc), ClickPlay, Timeout 0, ClickPause] constructor))) =
     events (exec [CallUpdate (Some abc), ClickPlay, Timeout 0, ClickPause] constructor) @
     [Select 2, LabelText ''C'']"
proof -
  define b where "b = exec [CallUpdate (Some abc), ClickPlay, Timeout 0, ClickPause] constructor"
  define vm where "vm = visualTransform (Some abc)"
  define vs where "vs = the (settings vm)"
  have v: "viewModel b = Some vm" "visualSettings b = Some vs"
    by (simp_all add: b_def vm_def vs_def eval_defs)
  have f: "status b = Pause" "lastSelected b = 0"
    by (simp_all add: b_def eval_defs)
  have t: "length (dataPoints vm) = 3" "show (captionSettings vs)"
    "selectionId (dataPoints vm ! 2) = 2" "category (dataPoints vm ! 2) = ''C''"
    by (simp_all add: vm_def vs_def eval_defs)
  have r: "0 \<le> lastSelected b + 2" "lastSelected b + 2 \<le> int (length (dataPoints vm)) - 1"
    by (simp_all add: f t)
  have c: "lastSelected (state_of (step 2 b)) = 2"
    "events (state_of (step 2 b)) = events b @ [Select 2, LabelText ''C'']"
    using step_any_delta [OF f(1) v r, THEN conjunct2, THEN conjunct1]
      step_any_delta [OF f(1) v r, THEN conjunct2, THEN conjunct2, THEN conjunct2, THEN conjunct1]
    by (simp_all add: f t)
  show ?thesis
    unfolding b_def [symmetric] by (simp only: c f simp_thms)
qed

subsection \<open>Stopping (C3)\<close>

lemma stop_any:
  assumes i: "controller_inv s" and v: "visualSettings s = Some vs"
  shows "if status s = Stop then stopAnimation s = Inr s
         else stopAnimation s =
           Inr (s\<lparr>status := Stop, lastSelected := 0, pending := [],
                 events := events s @
                   [Attr ''#pause, #stop, #next, #previous'' ''opacity'' (Str ''0.3''),
                    Attr ''#play'' ''opacity'' (Str ''1'')]
                   @ (if show (captionSettings vs) then [LabelText ''''] else [])
                   @ [ClearSelection]\<rparr>)"
proof (cases "status s = Stop")
  case True
  then show ?thesis by (simp add: stopAnimation_def)
next
  case False
  from i have "owned s" by (simp add: controller_inv_def)
  then have e: "filter (\<lambda>t. handle t \<notin> set (timers s)) (pending s) = []"
    by (rule filter_owned_empty)
  show ?thesis
    by (simp only: False if_False) (simp add: stopAnimation_eq [OF False v] e)
qed

lemma stopped_fields:
  assumes i: "controller_inv s" and v: "visualSettings s = Some vs"
  shows "status (state_of (stopAnimation s)) = Stop"
    "lastSelected (state_of (stopAnimation s)) = 0"
    "pending (state_of (stopAnimation s)) = []"
    "viewModel (state_of (stopAnimation s)) = viewModel s"
    "nextHandle (state_of (stopAnimation s)) = nextHandle s"
proof -
  have "status (state_of (stopAnimation s)) = Stop \<and>
    lastSelected (state_of (stopAnimation s)) = 0 \<and>
    pending (state_of (stopAnimation s)) = [] \<and>
    viewModel (state_of (stopAnimation s)) = viewModel s \<and>
    nextHandle (state_of (stopAnimation s)) = nextHandle s"
  proof (cases "status s = Stop")
    case True
    with i have "pending s = []" "lastSelected s = 0" by (auto simp: controller_inv_def)
    with True show ?thesis by (simp add: stopAnimation_def state_of_def)
  next
    case False
    with stop_any [OF i v] show ?thesis by (simp add: state_of_def)
  qed
  then show "status (state_of (stopAnimation s)) = Stop"
    "lastSelected (state_of (stopAnimation s)) = 0"
    "pending (state_of (stopAnimation s)) = []"
    "viewModel (state_of (stopAnimation s)) = viewModel s"
    "nextHandle (state_of (stopAnimation s)) = nextHandle s"
    by simp_all
qed

lemma play_after_stop:
  assumes i: "controller_inv s" and v: "visualSettings s = Some vs"
    and vm: "viewModel s = Some vm" "settings vm = Some vs'"
  shows "\<exists>s''. playAnimation (state_of (stopAnimation s)) = Inr s'' \<and> status s'' = Play \<and>
     pending s'' =
       map (\<lambda>i. \<lparr>handle = nextHandle s + nat i,
                 delay = i * timeInterval (transitionSettings vs'), callback = AdvanceB i\<rparr>)
         [0..int (length (dataPoints vm)) - 1]"
proof -
  note f = stopped_fields [OF i v]
  have np: "status (state_of (stopAnimation s)) \<noteq> Play" by (simp add: f)
  have vm': "viewModel (state_of (stopAnimation s)) = Some vm" by (simp add: f vm)
  show ?thesis
    by (simp add: playAnimation_eq [OF np vm' vm(2)] f)
qed

lemma playX_after_stop:
  assumes i: "controller_inv s" and v: "visualSettings s = Some vs"
    and vm: "viewModel s = Some vm" "settings vm = Some vs'"
  shows "\<exists>s''. playAnimationX (state_of (stopAnimation s)) = Inr s'' \<and> status s'' = Play \<and>
     pending s'' =
       map (\<lambda>i. \<lparr>handle = nextHandle s + nat i,
                 delay = i * timeInterval (transitionSettings vs'), callback = AdvanceX i\<rparr>)
         [0..int (length (dataPoints vm)) - 1]
       @ [\<lparr>handle = nextHandle s + length (dataPoints vm),
           delay = int (length (dataPoints vm)) * timeInterval (transitionSettings vs'),
           callback = StopAnimationTimer\<rparr>]"
proof -
  note f = stopped_fields [OF i v]
  have np: "status (state_of (stopAnimation s)) \<noteq> Play" by (simp add: f)
  have vm': "viewModel (state_of (stopAnimation s)) = Some vm" by (simp add: f vm)
  show ?thesis
    by (simp add: playAnimationX_eq [OF np vm' vm(2)] f)
qed

text \<open>
  C3, as amended. In every reachable state of either variant in which a view model and
  settings are installed: \<^verbatim>\<open>stopAnimation\<close> returns the state unchanged when the status is
  Stop; otherwise it leaves no timer pending, sets the caption to the empty string when
  \<^verbatim>\<open>captionSettings.show\<close> is true (and sends no caption when it is false), clears the
  selection, sets \<^verbatim>\<open>lastSelected\<close> to 0 and the status to Stop. A \<^verbatim>\<open>playAnimation\<close>
  that follows creates the timers for the indices from 0, with delay
  \<^verbatim>\<open>i * timeInterval\<close>, and these are all the timers then pending.
\<close>

theorem stopAnimation_effect:
  assumes "sB = exec asB constructor" and "visualSettings sB = Some vsB"
    and "viewModel sB = Some vmB" and "settings vmB = Some vsB'"
    and "sX = execX asX constructor" and "visualSettings sX = Some vsX"
    and "viewModel sX = Some vmX" and "settings vmX = Some vsX'"
  shows
    "(if status sB = Stop then stopAnimation sB = Inr sB
      else stopAnimation sB =
        Inr (sB\<lparr>status := Stop, lastSelected := 0, pending := [],
              events := events sB @
                [Attr ''#pause, #stop, #next, #previous'' ''opacity'' (Str ''0.3''),
                 Attr ''#play'' ''opacity'' (Str ''1'')]
                @ (if show (captionSettings vsB) then [LabelText ''''] else [])
                @ [ClearSelection]\<rparr>)) \<and>
     (\<exists>s''. playAnimation (state_of (stopAnimation sB)) = Inr s'' \<and> status s'' = Play \<and>
        pending s'' =
          map (\<lambda>i. \<lparr>handle = nextHandle sB + nat i,
                    delay = i * timeInterval (transitionSettings vsB'), callback = AdvanceB i\<rparr>)
            [0..int (length (dataPoints vmB)) - 1]) \<and>
     (if status sX = Stop then stopAnimation sX = Inr sX
      else stopAnimation sX =
        Inr (sX\<lparr>status := Stop, lastSelected := 0, pending := [],
              events := events sX @
                [Attr ''#pause, #stop, #next, #previous'' ''opacity'' (Str ''0.3''),
                 Attr ''#play'' ''opacity'' (Str ''1'')]
                @ (if show (captionSettings vsX) then [LabelText ''''] else [])
                @ [ClearSelection]\<rparr>)) \<and>
     (\<exists>s''. playAnimationX (state_of (stopAnimation sX)) = Inr s'' \<and> status s'' = Play \<and>
        pending s'' =
          map (\<lambda>i. \<lparr>handle = nextHandle sX + nat i,
                    delay = i * timeInterval (transitionSettings vsX'), callback = AdvanceX i\<rparr>)
            [0..int (length (dataPoints vmX)) - 1]
          @ [\<lparr>handle = nextHandle sX + length (dataPoints vmX),
              delay = int (length (dataPoints vmX)) * timeInterval (transitionSettings vsX'),
              callback = StopAnimationTimer\<rparr>])"
proof -
  have iB: "controller_inv sB" unfolding assms(1) by (rule reachable_inv)
  have iX: "controller_inv sX"
    unfolding assms(5) using reachable_invX [of asX] by (simp add: controller_invX_def)
  show ?thesis
    by (intro conjI stop_any [OF iB assms(2)] play_after_stop [OF iB assms(2,3,4)]
        stop_any [OF iX assms(6)] playX_after_stop [OF iX assms(6,7,8)])
qed

theorem stopAnimation_effect_witness:
  "status (exec [CallUpdate (Some abc), ClickPlay, Timeout 0, Timeout 1] constructor) = Play \<and>
   lastSelected (exec [CallUpdate (Some abc), ClickPlay, Timeout 0, Timeout 1] constructor) = 1 \<and>
   length (pending (exec [CallUpdate (Some abc), ClickPlay, Timeout 0, Timeout 1] constructor)) = 1 \<and>
   status (state_of (stopAnimation
     (exec [CallUpdate (Some abc), ClickPlay, Timeout 0, Timeout 1] constructor))) = Stop \<and>
   lastSelected (state_of (stopAnimation
     (exec [CallUpdate (Some abc), ClickPlay, Timeout 0, Timeout 1] constructor))) = 0 \<and>
   pending (state_of (stopAnimation
     (exec [CallUpdate (Some abc), ClickPlay, Timeout 0, Timeout 1] constructor))) = [] \<and>
   events (state_of (stopAnimation
     (exec [CallUpdate (Some abc), ClickPlay, Timeout 0, Timeout 1] constructor))) =
     events (exec [CallUpdate (Some abc), ClickPlay, Timeout 0, Timeout 1] constructor) @
     [Attr ''#pause, #stop, #next, #previous'' ''opacity'' (Str ''0.3''),
      Attr ''#play'' ''opacity'' (Str ''1''), LabelText '''', ClearSelection] \<and>
   (\<exists>s''. playAnimation (state_of (stopAnimation
       (exec [CallUpdate (Some abc), ClickPlay, Timeout 0, Timeout 1] constructor))) = Inr s'' \<and>
     status s'' = Play \<and>
     pending s'' =
       [\<lparr>handle = 3, delay = 0, callback = AdvanceB 0\<rparr>,
        \<lparr>handle = 4, delay = 1000, callback = AdvanceB 1\<rparr>,
        \<lparr>handle = 5, delay = 2000, callback = AdvanceB 2\<rparr>]) \<and>
   status (execX [CallUpdate (Some abc), ClickPlay] constructor) = Play \<and>
   status (state_of (stopAnimation (execX [CallUpdate (Some abc), ClickPlay] constructor))) = Stop \<and>
   pending (state_of (stopAnimation (execX [CallUpdate (Some abc), ClickPlay] constructor))) = []"
proof -
  define b where "b = exec [CallUpdate (Some abc), ClickPlay, Timeout 0, Timeout 1] constructor"
  define x where "x = execX [CallUpdate (Some abc), ClickPlay] constructor"
  define vmB where "vmB = visualTransform (Some abc)"
  define vmX where "vmX = visualTransformX abc"
  define vsB where "vsB = the (settings vmB)"
  define vsX where "vsX = the (settings vmX)"
  have rb: "b = exec [CallUpdate (Some abc), ClickPlay, Timeout 0, Timeout 1] constructor"
    and rx: "x = execX [CallUpdate (Some abc), ClickPlay] constructor"
    by (simp_all only: b_def x_def)
  have vb: "visualSettings b = Some vsB" "viewModel b = Some vmB" "settings vmB = Some vsB"
    by (simp_all add: b_def vmB_def vsB_def eval_defs)
  have vx: "visualSettings x = Some vsX" "viewModel x = Some vmX" "settings vmX = Some vsX"
    by (simp_all add: x_def vmX_def vsX_def eval_defs)
  have fb: "status b = Play" "lastSelected b = 1" "length (pending b) = 1" "nextHandle b = 3"
    by (simp_all add: b_def eval_defs)
  have fx: "status x = Play"
    by (simp_all add: x_def eval_defs)
  have t: "timeInterval (transitionSettings vsB) = 1000" "length (dataPoints vmB) = 3"
    "show (captionSettings vsB)"
    by (simp_all add: vsB_def vmB_def eval_defs)
  note th = stopAnimation_effect [OF rb vb rx vx]
  have c: "status (state_of (stopAnimation b)) = Stop"
    "lastSelected (state_of (stopAnimation b)) = 0"
    "pending (state_of (stopAnimation b)) = []"
    "events (state_of (stopAnimation b)) = events b @
     [Attr ''#pause, #stop, #next, #previous'' ''opacity'' (Str ''0.3''),
      Attr ''#play'' ''opacity'' (Str ''1''), LabelText '''', ClearSelection]"
    "status (state_of (stopAnimation x)) = Stop"
    "pending (state_of (stopAnimation x)) = []"
    using th [THEN conjunct1] th [THEN conjunct2, THEN conjunct2, THEN conjunct1]
    by (simp_all add: fb fx t state_of_def)
  have d: "\<exists>s''. playAnimation (state_of (stopAnimation b)) = Inr s'' \<and>
     status s'' = Play \<and>
     pending s'' =
       [\<lparr>handle = 3, delay = 0, callback = AdvanceB 0\<rparr>,
        \<lparr>handle = 4, delay = 1000, callback = AdvanceB 1\<rparr>,
        \<lparr>handle = 5, delay = 2000, callback = AdvanceB 2\<rparr>]"
    using th [THEN conjunct2, THEN conjunct1]
    by (simp add: fb t upto_rec1)
  show ?thesis
    unfolding b_def [symmetric] x_def [symmetric] by (simp only: c d fb fx simp_thms)
qed

text \<open>
  The claim as written fails where the caption is switched off: stopping a running
  animation clears the selection and sends no caption.
\<close>

theorem stop_caption_counterexample:
  "status (exec [CallUpdate (Some (abc_with ''show'' False)), ClickPlay] constructor) = Play \<and>
   status (state_of (stopAnimation
     (exec [CallUpdate (Some (abc_with ''show'' False)), ClickPlay] constructor))) = Stop \<and>
   events (state_of (stopAnimation
     (exec [CallUpdate (Some (abc_with ''show'' False)), ClickPlay] constructor))) =
     events (exec [CallUpdate (Some (abc_with ''show'' False)), ClickPlay] constructor) @
     [Attr ''#pause, #stop, #next, #previous'' ''opacity'' (Str ''0.3''),
      Attr ''#play'' ''opacity'' (Str ''1''), ClearSelection]"
  by (simp add: eval_defs)

subsection \<open>Playing from the stopped state (C1)\<close>

lemma fire_advance:
  assumes f: "find (\<lambda>t. handle t = h) (pending u) = Some \<lparr>handle = h, delay = d, callback = AdvanceB i\<rparr>"
    and r: "0 \<le> i" "i < int (length (dataPoints vm))"
    and v: "viewModel u = Some vm" "visualSettings u = Some vs"
  shows "fire h u =
    Inr (u\<lparr>lastSelected := i, pending := filter (\<lambda>t. handle t \<noteq> h) (pending u),
          events := events u @ [Select (selectionId (dataPoints vm ! nat i))]
            @ (if show (captionSettings vs) then [LabelText (category (dataPoints vm ! nat i))]
               else [])\<rparr>)"
proof -
  have v': "viewModel (clearTimeout h u) = Some vm" "visualSettings (clearTimeout h u) = Some vs"
    using v by (simp_all add: clearTimeout_def)
  have "fire h u = advance i (clearTimeout h u)"
    using f by (simp add: fire_def)
  also have "\<dots> = Inr ((clearTimeout h u)\<lparr>lastSelected := i,
          events := events (clearTimeout h u) @ [Select (selectionId (dataPoints vm ! nat i))]
            @ (if show (captionSettings vs) then [LabelText (category (dataPoints vm ! nat i))]
               else [])\<rparr>)"
    by (rule advance_eq [OF v' r])
  finally show ?thesis by (simp add: clearTimeout_def)
qed

lemma fireX_advance:
  assumes f: "find (\<lambda>t. handle t = h) (pending u) = Some \<lparr>handle = h, delay = d, callback = AdvanceX i\<rparr>"
    and r: "0 \<le> i" "i < int (length (dataPoints vm))"
    and v: "viewModel u = Some vm" "visualSettings u = Some vs"
  shows "fireX h u =
    Inr (u\<lparr>lastSelected := i, pending := filter (\<lambda>t. handle t \<noteq> h) (pending u),
          events := events u @ [Select (selectionId (dataPoints vm ! nat i))]
            @ (if show (captionSettings vs) then [LabelText (category (dataPoints vm ! nat i))]
               else [])\<rparr>)"
proof -
  have v': "viewModel (clearTimeout h u) = Some vm" "visualSettings (clearTimeout h u) = Some vs"
    using v by (simp_all add: clearTimeout_def)
  have "fireX h u = advance i (clearTimeout h u)"
    using f by (simp add: fireX_def)
  also have "\<dots> = Inr ((clearTimeout h u)\<lparr>lastSelected := i,
          events := events (clearTimeout h u) @ [Select (selectionId (dataPoints vm ! nat i))]
            @ (if show (captionSettings vs) then [LabelText (category (dataPoints vm ! nat i))]
               else [])\<rparr>)"
    by (rule advance_eq [OF v' r])
  finally show ?thesis by (simp add: clearTimeout_def)
qed

lemma play_when_stopped:
  assumes i: "controller_inv s" and st: "status s = Stop"
    and vm: "viewModel s = Some vm" "settings vm = Some vs"
  shows "\<exists>s'. playAnimation s = Inr s' \<and> status s' = Play \<and>
     pending s' =
       map (\<lambda>i. \<lparr>handle = nextHandle s + nat i,
                 delay = i * timeInterval (transitionSettings vs), callback = AdvanceB i\<rparr>)
         [0..int (length (dataPoints vm)) - 1] \<and>
     length (pending s') = length (dataPoints vm)"
proof -
  from i st have z: "pending s = []" "lastSelected s = 0" by (auto simp: controller_inv_def)
  have np: "status s \<noteq> Play" using st by simp
  show ?thesis
    by (simp add: playAnimation_eq [OF np vm] st z)
qed

lemma playX_when_stopped:
  assumes i: "controller_inv s" and st: "status s = Stop"
    and vm: "viewModel s = Some vm" "settings vm = Some vs"
  shows "\<exists>s'. playAnimationX s = Inr s' \<and> status s' = Play \<and>
     pending s' =
       map (\<lambda>i. \<lparr>handle = nextHandle s + nat i,
                 delay = i * timeInterval (transitionSettings vs), callback = AdvanceX i\<rparr>)
         [0..int (length (dataPoints vm)) - 1]
       @ [\<lparr>handle = nextHandle s + length (dataPoints vm),
           delay = int (length (dataPoints vm)) * timeInterval (transitionSettings vs),
           callback = StopAnimationTimer\<rparr>] \<and>
     length (pending s') = length (dataPoints vm) + 1"
proof -
  from i st have z: "pending s = []" "lastSelected s = 0" by (auto simp: controller_inv_def)
  have np: "status s \<noteq> Play" using st by simp
  show ?thesis
    by (simp add: playAnimationX_eq [OF np vm] st z)
qed

text \<open>
  C1, as amended. In every reachable state whose status is Stop and in which a view model
  of \<open>N\<close> data points and its settings are installed, \<^verbatim>\<open>playAnimation\<close> creates exactly
  \<open>N\<close> timers with an index callback, one for each index \<open>i\<close> from \<open>0\<close> to \<open>N - 1\<close>, with
  delay \<^verbatim>\<open>i * timeInterval\<close> (the extended variant adds its \<^verbatim>\<open>stopAnimationTimer\<close>). When
  the timer for \<open>i\<close> runs and the installed view model has a data point \<open>i\<close>, it sets
  \<^verbatim>\<open>lastSelected\<close> to \<open>i\<close>, selects that data point, and sets the caption to its category
  when \<^verbatim>\<open>captionSettings.show\<close> is true (and sends no caption when it is false).
\<close>

theorem play_from_Stopped:
  assumes "sB = exec asB constructor" and "status sB = Stop"
    and "viewModel sB = Some vmB" and "settings vmB = Some vsB"
    and "sX = execX asX constructor" and "status sX = Stop"
    and "viewModel sX = Some vmX" and "settings vmX = Some vsX"
  shows
    "(\<exists>s'. playAnimation sB = Inr s' \<and> status s' = Play \<and>
        pending s' =
          map (\<lambda>i. \<lparr>handle = nextHandle sB + nat i,
                    delay = i * timeInterval (transitionSettings vsB), callback = AdvanceB i\<rparr>)
            [0..int (length (dataPoints vmB)) - 1] \<and>
        length (pending s') = length (dataPoints vmB)) \<and>
     (\<forall>u h d i vm vs.
        find (\<lambda>t. handle t = h) (pending u) = Some \<lparr>handle = h, delay = d, callback = AdvanceB i\<rparr> \<longrightarrow>
        0 \<le> i \<longrightarrow> i < int (length (dataPoints vm)) \<longrightarrow>
        viewModel u = Some vm \<longrightarrow> visualSettings u = Some vs \<longrightarrow>
        fire h u =
          Inr (u\<lparr>lastSelected := i, pending := filter (\<lambda>t. handle t \<noteq> h) (pending u),
                events := events u @ [Select (selectionId (dataPoints vm ! nat i))]
                  @ (if show (captionSettings vs)
                     then [LabelText (category (dataPoints vm ! nat i))] else [])\<rparr>)) \<and>
     (\<exists>s'. playAnimationX sX = Inr s' \<and> status s' = Play \<and>
        pending s' =
          map (\<lambda>i. \<lparr>handle = nextHandle sX + nat i,
                    delay = i * timeInterval (transitionSettings vsX), callback = AdvanceX i\<rparr>)
            [0..int (length (dataPoints vmX)) - 1]
          @ [\<lparr>handle = nextHandle sX + length (dataPoints vmX),
              delay = int (length (dataPoints vmX)) * timeInterval (transitionSettings vsX),
              callback = StopAnimationTimer\<rparr>] \<and>
        length (pending s') = length (dataPoints vmX) + 1) \<and>
     (\<forall>u h d i vm vs.
        find (\<lambda>t. handle t = h) (pending u) = Some \<lparr>handle = h, delay = d, callback = AdvanceX i\<rparr> \<longrightarrow>
        0 \<le> i \<longrightarrow> i < int (length (dataPoints vm)) \<longrightarrow>
        viewModel u = Some vm \<longrightarrow> visualSettings u = Some vs \<longrightarrow>
        fireX h u =
          Inr (u\<lparr>lastSelected := i, pending := filter (\<lambda>t. handle t \<noteq> h) (pending u),
                events := events u @ [Select (selectionId (dataPoints vm ! nat i))]
                  @ (if show (captionSettings vs)
                     then [LabelText (category (dataPoints vm ! nat i))] else [])\<rparr>))"
proof -
  have iB: "controller_inv sB" unfolding assms(1) by (rule reachable_inv)
  have iX: "controller_inv sX"
    unfolding assms(5) using reachable_invX [of asX] by (simp add: controller_invX_def)
  show ?thesis
    by (intro conjI allI impI play_when_stopped [OF iB assms(2,3,4)]
        playX_when_stopped [OF iX assms(6,7,8)] fire_advance fireX_advance)
qed

theorem play_from_Stopped_witness:
  "status (exec [CallUpdate (Some abc)] constructor) = Stop \<and>
   (\<exists>s'. playAnimation (exec [CallUpdate (Some abc)] constructor) = Inr s' \<and>
      pending s' =
        [\<lparr>handle = 0, delay = 0, callback = AdvanceB 0\<rparr>,
         \<lparr>handle = 1, delay = 1000, callback = AdvanceB 1\<rparr>,
         \<lparr>handle = 2, delay = 2000, callback = AdvanceB 2\<rparr>]) \<and>
   fire 1 (exec [CallUpdate (Some abc), ClickPlay] constructor) =
     Inr ((exec [CallUpdate (Some abc), ClickPlay] constructor)
       \<lparr>lastSelected := 1,
        pending := [\<lparr>handle = 0, delay = 0, callback = AdvanceB 0\<rparr>,
                    \<lparr>handle = 2, delay = 2000, callback = AdvanceB 2\<rparr>],
        events := events (exec [CallUpdate (Some abc), ClickPlay] constructor) @
          [Select 1, LabelText ''B'']\<rparr>) \<and>
   status (execX [CallUpdate (Some abc)] constructor) = Stop \<and>
   (\<exists>s'. playAnimationX (execX [CallUpdate (Some abc)] constructor) = Inr s' \<and>
      pending s' =
        [\<lparr>handle = 0, delay = 0, callback = AdvanceX 0\<rparr>,
         \<lparr>handle = 1, delay = 1000, callback = AdvanceX 1\<rparr>,
         \<lparr>handle = 2, delay = 2000, callback = AdvanceX 2\<rparr>,
         \<lparr>handle = 3, delay = 3000, callback = StopAnimationTimer\<rparr>])"
proof -
  define b where "b = exec [CallUpdate (Some abc)] constructor"
  define x where "x = execX [CallUpdate (Some abc)] constructor"
  define u where "u = exec [CallUpdate (Some abc), ClickPlay] constructor"
  define vmB where "vmB = visualTransform (Some abc)"
  define vmX where "vmX = visualTransformX abc"
  define vsB where "vsB = the (settings vmB)"
  define vsX where "vsX = the (settings vmX)"
  have rb: "b = exec [CallUpdate (Some abc)] constructor"
    and rx: "x = execX [CallUpdate (Some abc)] constructor"
    by (simp_all only: b_def x_def)
  have vb: "status b = Stop" "viewModel b = Some vmB" "settings vmB = Some vsB"
    by (simp_all add: b_def vmB_def vsB_def eval_defs)
  have vx: "status x = Stop" "viewModel x = Some vmX" "settings vmX = Some vsX"
    by (simp_all add: x_def vmX_def vsX_def eval_defs)
  have fb: "nextHandle b = 0" "nextHandle x = 0"
    by (simp_all add: b_def x_def eval_defs)
  have t: "timeInterval (transitionSettings vsB) = 1000" "length (dataPoints vmB) = 3"
    "timeInterval (transitionSettings vsX) = 1000" "length (dataPoints vmX) = 3"
    "show (captionSettings vsB)" "selectionId (dataPoints vmB ! Suc 0) = 1"
    "category (dataPoints vmB ! Suc 0) = ''B''"
    by (simp_all add: vsB_def vmB_def vsX_def vmX_def eval_defs)
  have fu: "find (\<lambda>t. handle t = 1) (pending u) = Some \<lparr>handle = 1, delay = 1000, callback = AdvanceB 1\<rparr>"
    "viewModel u = Some vmB" "visualSettings u = Some vsB"
    "filter (\<lambda>t. handle t \<noteq> Suc 0) (pending u) =
       [\<lparr>handle = 0, delay = 0, callback = AdvanceB 0\<rparr>,
        \<lparr>handle = 2, delay = 2000, callback = AdvanceB 2\<rparr>]"
    by (simp_all add: u_def vmB_def vsB_def eval_defs)
  note th = play_from_Stopped [OF rb vb rx vx]
  have c1: "\<exists>s'. playAnimation b = Inr s' \<and>
      pending s' =
        [\<lparr>handle = 0, delay = 0, callback = AdvanceB 0\<rparr>,
         \<lparr>handle = 1, delay = 1000, callback = AdvanceB 1\<rparr>,
         \<lparr>handle = 2, delay = 2000, callback = AdvanceB 2\<rparr>]"
    using th [THEN conjunct1] by (auto simp: fb t upto_rec1)
  have c2: "\<exists>s'. playAnimationX x = Inr s' \<and>
      pending s' =
        [\<lparr>handle = 0, delay = 0, callback = AdvanceX 0\<rparr>,
         \<lparr>handle = 1, delay = 1000, callback = AdvanceX 1\<rparr>,
         \<lparr>handle = 2, delay = 2000, callback = AdvanceX 2\<rparr>,
         \<lparr>handle = 3, delay = 3000, callback = StopAnimationTimer\<rparr>]"
    using th [THEN conjunct2, THEN conjunct2, THEN conjunct1] by (auto simp: fb t upto_rec1)
  have c3: "fire 1 u =
     Inr (u\<lparr>lastSelected := 1,
        pending := [\<lparr>handle = 0, delay = 0, callback = AdvanceB 0\<rparr>,
                    \<lparr>handle = 2, delay = 2000, callback = AdvanceB 2\<rparr>],
        events := events u @ [Select 1, LabelText ''B'']\<rparr>)"
    using th [THEN conjunct2, THEN conjunct1, rule_format, of 1 u 1000 1 vmB vsB, OF fu(1) _ _ fu(2,3)]
    by (simp add: t fu(4))
  show ?thesis
    unfolding b_def [symmetric] x_def [symmetric] u_def [symmetric]
    by (simp only: c1 c2 c3 vb vx simp_thms)
qed

text \<open>
  The claim as written fails where the caption is switched off: the callback for index 1
  sets \<^verbatim>\<open>lastSelected\<close>, selects the data point and sends no caption.
\<close>

theorem advance_caption_counterexample:
  "status (exec [CallUpdate (Some (abc_with ''show'' False))] constructor) = Stop \<and>
   find (\<lambda>t. handle t = 1)
     (pending (exec [CallUpdate (Some (abc_with ''show'' False)), ClickPlay] constructor)) =
     Some \<lparr>handle = 1, delay = 1000, callback = AdvanceB 1\<rparr> \<and>
   lastSelected (state_of (fire 1
     (exec [CallUpdate (Some (abc_with ''show'' False)), ClickPlay] constructor))) = 1 \<and>
   events (state_of (fire 1
     (exec [CallUpdate (Some (abc_with ''show'' False)), ClickPlay] constructor))) =
     events (exec [CallUpdate (Some (abc_with ''show'' False)), ClickPlay] constructor) @
     [Select 1] \<and>
   LabelText ''B'' \<notin> set (events (state_of (fire 1
     (exec [CallUpdate (Some (abc_with ''show'' False)), ClickPlay] constructor))))"
  by (simp add: eval_defs)

subsection \<open>The timer that ends a cycle (C5)\<close>

lemma execX_append: "execX (as @ bs) s = execX bs (execX as s)"
  by (induction as arbitrary: s) simp_all

lemma run_advances:
  fixes u :: "'tok VisualX"
  assumes "viewModel u = Some vm" and "visualSettings u = Some vs"
    and "pending u =
      map (\<lambda>j. \<lparr>handle = h0 + nat j, delay = f j, callback = AdvanceX j\<rparr>) [k..n] @ rest"
    and "0 \<le> k" and "n < int (length (dataPoints vm))"
    and "\<forall>t \<in> set rest. \<forall>j. k \<le> j \<and> j \<le> n \<longrightarrow> handle t \<noteq> h0 + nat j"
  shows "execX (map (\<lambda>j. Timeout (h0 + nat j)) [k..n]) u =
     u\<lparr>lastSelected := (if k \<le> n then n else lastSelected u), pending := rest,
       events := events u @
         concat (map (\<lambda>j. Select (selectionId (dataPoints vm ! nat j)) #
                   (if show (captionSettings vs)
                    then [LabelText (category (dataPoints vm ! nat j))] else [])) [k..n])\<rparr>"
  using assms
proof (induction k n arbitrary: u rule: upto.induct)
  case (1 k n)
  show ?case
  proof (cases "k \<le> n")
    case False
    then have "[k..n] = []" by simp
    with "1.prems"(3) False show ?thesis by simp
  next
    case True
    then have up: "[k..n] = k # [k + 1..n]" by (simp add: upto_rec1)
    let ?mk = "\<lambda>j. \<lparr>handle = h0 + nat j, delay = f j, callback = AdvanceX j\<rparr>"
    have p: "pending u = ?mk k # map ?mk [k + 1..n] @ rest"
      using "1.prems"(3) by (simp add: up)
    have fnd: "find (\<lambda>t. handle t = h0 + nat k) (pending u) =
        Some \<lparr>handle = h0 + nat k, delay = f k, callback = AdvanceX k\<rparr>"
      by (simp add: p)
    have kr: "0 \<le> k" "k < int (length (dataPoints vm))"
      using "1.prems"(4,5) True by auto
    have f1: "filter (\<lambda>t. handle t \<noteq> h0 + nat k) (map ?mk [k + 1..n]) = map ?mk [k + 1..n]"
      using "1.prems"(4) by (auto simp: filter_id_conv)
    have f2: "filter (\<lambda>t. handle t \<noteq> h0 + nat k) rest = rest"
      using "1.prems"(6) True by (auto simp: filter_id_conv)
    define u1 where "u1 = u\<lparr>lastSelected := k, pending := map ?mk [k + 1..n] @ rest,
          events := events u @ [Select (selectionId (dataPoints vm ! nat k))]
            @ (if show (captionSettings vs) then [LabelText (category (dataPoints vm ! nat k))]
               else [])\<rparr>"
    have fire: "fireX (h0 + nat k) u = Inr u1"
      unfolding u1_def
      by (subst fireX_advance [OF fnd kr "1.prems"(1,2)]) (simp add: p f1 f2)
    have ih: "execX (map (\<lambda>j. Timeout (h0 + nat j)) [k + 1..n]) u1 =
      u1\<lparr>lastSelected := (if k + 1 \<le> n then n else lastSelected u1), pending := rest,
       events := events u1 @
         concat (map (\<lambda>j. Select (selectionId (dataPoints vm ! nat j)) #
                   (if show (captionSettings vs)
                    then [LabelText (category (dataPoints vm ! nat j))] else [])) [k + 1..n])\<rparr>"
    proof (rule "1.IH" [OF True])
      show "viewModel u1 = Some vm" "visualSettings u1 = Some vs"
        using "1.prems"(1,2) by (simp_all add: u1_def)
      show "pending u1 = map ?mk [k + 1..n] @ rest" by (simp add: u1_def)
      show "0 \<le> k + 1" using "1.prems"(4) by simp
      show "n < int (length (dataPoints vm))" by (rule "1.prems"(5))
      show "\<forall>t \<in> set rest. \<forall>j. k + 1 \<le> j \<and> j \<le> n \<longrightarrow> handle t \<noteq> h0 + nat j"
        using "1.prems"(6) by auto
    qed
    have "execX (map (\<lambda>j. Timeout (h0 + nat j)) [k..n]) u =
        execX (map (\<lambda>j. Timeout (h0 + nat j)) [k + 1..n]) u1"
      by (simp add: up fire state_of_def)
    also note ih
    finally show ?thesis
      using True by (auto simp: u1_def up)
  qed
qed


lemma one_round:
  fixes s :: "'tok VisualX"
  assumes st: "status s = Play"
    and v: "viewModel s = Some vm" "settings vm = Some vs" "visualSettings s = Some vs"
    and lp: "loop (transitionSettings vs)"
    and p: "pending s =
      map (\<lambda>j. \<lparr>handle = h0 + nat j, delay = j * timeInterval (transitionSettings vs),
                callback = AdvanceX j\<rparr>) [0..int (length (dataPoints vm)) - 1]
      @ [\<lparr>handle = h0 + length (dataPoints vm),
          delay = int (length (dataPoints vm)) * timeInterval (transitionSettings vs),
          callback = StopAnimationTimer\<rparr>]"
  shows "run_pending s =
    s\<lparr>status := Play, lastSelected := 0,
      timers := timers s @ map (\<lambda>j. nextHandle s + nat j) [0..int (length (dataPoints vm)) - 1]
        @ [nextHandle s + length (dataPoints vm)],
      pending :=
        map (\<lambda>j. \<lparr>handle = nextHandle s + nat j, delay = j * timeInterval (transitionSettings vs),
                  callback = AdvanceX j\<rparr>) [0..int (length (dataPoints vm)) - 1]
        @ [\<lparr>handle = nextHandle s + length (dataPoints vm),
            delay = int (length (dataPoints vm)) * timeInterval (transitionSettings vs),
            callback = StopAnimationTimer\<rparr>],
      nextHandle := nextHandle s + length (dataPoints vm) + 1,
      events := events s @
        concat (map (\<lambda>j. Select (selectionId (dataPoints vm ! nat j)) #
                  (if show (captionSettings vs)
                   then [LabelText (category (dataPoints vm ! nat j))] else []))
          [0..int (length (dataPoints vm)) - 1])
        @ [Attr ''#play, #next, #previous'' ''opacity'' (Str ''0.3''),
           Attr ''#stop, #pause'' ''opacity'' (Str ''1'')]\<rparr>"
proof -
  let ?n = "int (length (dataPoints vm)) - 1"
  let ?T = "\<lparr>handle = h0 + length (dataPoints vm),
          delay = int (length (dataPoints vm)) * timeInterval (transitionSettings vs),
          callback = StopAnimationTimer\<rparr>"
  let ?items = "concat (map (\<lambda>j. Select (selectionId (dataPoints vm ! nat j)) #
                  (if show (captionSettings vs)
                   then [LabelText (category (dataPoints vm ! nat j))] else [])) [0..?n])"
  have hs: "map Timeout (map handle (pending s)) =
      map (\<lambda>j. Timeout (h0 + nat j)) [0..?n] @ [Timeout (h0 + length (dataPoints vm))]"
    by (simp add: p o_def)
  have r: "\<forall>t \<in> set [?T]. \<forall>j. 0 \<le> j \<and> j \<le> ?n \<longrightarrow> handle t \<noteq> h0 + nat j"
    by auto
  define u where "u = s\<lparr>lastSelected := (if 0 \<le> ?n then ?n else lastSelected s), pending := [?T],
       events := events s @ ?items\<rparr>"
  have a: "execX (map (\<lambda>j. Timeout (h0 + nat j)) [0..?n]) s = u"
    unfolding u_def by (rule run_advances [OF v(1) v(3) p _ _ r]) simp_all
  define w where "w = (clearTimeout (h0 + length (dataPoints vm)) u)\<lparr>status := Stop, lastSelected := 0\<rparr>"
  have fw: "status w \<noteq> Play" "viewModel w = Some vm" "status w = Stop" "lastSelected w = 0"
    "pending w = []" "nextHandle w = nextHandle s" "timers w = timers s"
    "events w = events s @ ?items"
    using v by (simp_all add: w_def u_def clearTimeout_def)
  have "fireX (h0 + length (dataPoints vm)) u = replayOrStop (clearTimeout (h0 + length (dataPoints vm)) u)"
    by (simp add: fireX_def u_def)
  also have "\<dots> = playAnimationX w"
    using v lp by (simp add: replayOrStop_def w_def u_def clearTimeout_def Let_def)
  finally have f: "fireX (h0 + length (dataPoints vm)) u = playAnimationX w" .
  have "run_pending s =
      execX (map (\<lambda>j. Timeout (h0 + nat j)) [0..?n] @ [Timeout (h0 + length (dataPoints vm))]) s"
    unfolding run_pending_def hs ..
  also have "\<dots> = state_of (playAnimationX w)"
    by (simp add: execX_append a f)
  also have "\<dots> = s\<lparr>status := Play, lastSelected := 0,
      timers := timers s @ map (\<lambda>j. nextHandle s + nat j) [0..?n]
        @ [nextHandle s + length (dataPoints vm)],
      pending :=
        map (\<lambda>j. \<lparr>handle = nextHandle s + nat j, delay = j * timeInterval (transitionSettings vs),
                  callback = AdvanceX j\<rparr>) [0..?n]
        @ [\<lparr>handle = nextHandle s + length (dataPoints vm),
            delay = int (length (dataPoints vm)) * timeInterval (transitionSettings vs),
            callback = StopAnimationTimer\<rparr>],
      nextHandle := nextHandle s + length (dataPoints vm) + 1,
      events := events s @ ?items
        @ [Attr ''#play, #next, #previous'' ''opacity'' (Str ''0.3''),
           Attr ''#stop, #pause'' ''opacity'' (Str ''1'')]\<rparr>"
    by (simp add: playAnimationX_eq [OF fw(1,2) v(2)] fw state_of_def)
       (simp add: w_def u_def clearTimeout_def)
  finally show ?thesis .
qed

lemma rounds:
  fixes s :: "'tok VisualX"
  assumes st: "status s = Play"
    and v: "viewModel s = Some vm" "settings vm = Some vs" "visualSettings s = Some vs"
    and lp: "loop (transitionSettings vs)"
    and nh: "nextHandle s = h0 + length (dataPoints vm) + 1"
    and p: "pending s =
      map (\<lambda>j. \<lparr>handle = h0 + nat j, delay = j * timeInterval (transitionSettings vs),
                callback = AdvanceX j\<rparr>) [0..int (length (dataPoints vm)) - 1]
      @ [\<lparr>handle = h0 + length (dataPoints vm),
          delay = int (length (dataPoints vm)) * timeInterval (transitionSettings vs),
          callback = StopAnimationTimer\<rparr>]"
  shows "status ((run_pending ^^ n) s) = Play \<and>
     viewModel ((run_pending ^^ n) s) = Some vm \<and>
     visualSettings ((run_pending ^^ n) s) = Some vs \<and>
     nextHandle ((run_pending ^^ n) s) = h0 + (n + 1) * (length (dataPoints vm) + 1) \<and>
     pending ((run_pending ^^ n) s) =
       map (\<lambda>j. \<lparr>handle = h0 + n * (length (dataPoints vm) + 1) + nat j,
                 delay = j * timeInterval (transitionSettings vs),
                 callback = AdvanceX j\<rparr>) [0..int (length (dataPoints vm)) - 1]
       @ [\<lparr>handle = h0 + n * (length (dataPoints vm) + 1) + length (dataPoints vm),
           delay = int (length (dataPoints vm)) * timeInterval (transitionSettings vs),
           callback = StopAnimationTimer\<rparr>]"
proof (induction n)
  case 0
  show ?case using st v nh p by simp
next
  case (Suc n)
  let ?r = "(run_pending ^^ n) s"
  note o = one_round [of ?r vm vs "h0 + n * (length (dataPoints vm) + 1)", OF _ _ v(2) _ lp]
  have e: "run_pending ?r = ?r\<lparr>status := Play, lastSelected := 0,
      timers := timers ?r @ map (\<lambda>j. nextHandle ?r + nat j) [0..int (length (dataPoints vm)) - 1]
        @ [nextHandle ?r + length (dataPoints vm)],
      pending :=
        map (\<lambda>j. \<lparr>handle = nextHandle ?r + nat j, delay = j * timeInterval (transitionSettings vs),
                  callback = AdvanceX j\<rparr>) [0..int (length (dataPoints vm)) - 1]
        @ [\<lparr>handle = nextHandle ?r + length (dataPoints vm),
            delay = int (length (dataPoints vm)) * timeInterval (transitionSettings vs),
            callback = StopAnimationTimer\<rparr>],
      nextHandle := nextHandle ?r + length (dataPoints vm) + 1,
      events := events ?r @
        concat (map (\<lambda>j. Select (selectionId (dataPoints vm ! nat j)) #
                  (if show (captionSettings vs)
                   then [LabelText (category (dataPoints vm ! nat j))] else []))
          [0..int (length (dataPoints vm)) - 1])
        @ [Attr ''#play, #next, #previous'' ''opacity'' (Str ''0.3''),
           Attr ''#stop, #pause'' ''opacity'' (Str ''1'')]\<rparr>"
    using Suc.IH by (intro o) simp_all
  have n: "nextHandle ?r = h0 + (n + 1) * (length (dataPoints vm) + 1)"
    using Suc.IH by simp
  show ?case
    using Suc.IH by (simp add: e n algebra_simps)
qed

lemma rounds_events:
  fixes s :: "'tok VisualX"
  assumes st: "status s = Play"
    and v: "viewModel s = Some vm" "settings vm = Some vs" "visualSettings s = Some vs"
    and lp: "loop (transitionSettings vs)"
    and nh: "nextHandle s = h0 + length (dataPoints vm) + 1"
    and p: "pending s =
      map (\<lambda>j. \<lparr>handle = h0 + nat j, delay = j * timeInterval (transitionSettings vs),
                callback = AdvanceX j\<rparr>) [0..int (length (dataPoints vm)) - 1]
      @ [\<lparr>handle = h0 + length (dataPoints vm),
          delay = int (length (dataPoints vm)) * timeInterval (transitionSettings vs),
          callback = StopAnimationTimer\<rparr>]"
  shows "events ((run_pending ^^ Suc n) s) = events ((run_pending ^^ n) s) @
        concat (map (\<lambda>j. Select (selectionId (dataPoints vm ! nat j)) #
                  (if show (captionSettings vs)
                   then [LabelText (category (dataPoints vm ! nat j))] else []))
          [0..int (length (dataPoints vm)) - 1])
        @ [Attr ''#play, #next, #previous'' ''opacity'' (Str ''0.3''),
           Attr ''#stop, #pause'' ''opacity'' (Str ''1'')]"
proof -
  let ?r = "(run_pending ^^ n) s"
  note r = rounds [OF assms, of n]
  note o = one_round [of ?r vm vs "h0 + n * (length (dataPoints vm) + 1)", OF _ _ v(2) _ lp]
  have "run_pending ?r = ?r\<lparr>status := Play, lastSelected := 0,
      timers := timers ?r @ map (\<lambda>j. nextHandle ?r + nat j) [0..int (length (dataPoints vm)) - 1]
        @ [nextHandle ?r + length (dataPoints vm)],
      pending :=
        map (\<lambda>j. \<lparr>handle = nextHandle ?r + nat j, delay = j * timeInterval (transitionSettings vs),
                  callback = AdvanceX j\<rparr>) [0..int (length (dataPoints vm)) - 1]
        @ [\<lparr>handle = nextHandle ?r + length (dataPoints vm),
            delay = int (length (dataPoints vm)) * timeInterval (transitionSettings vs),
            callback = StopAnimationTimer\<rparr>],
      nextHandle := nextHandle ?r + length (dataPoints vm) + 1,
      events := events ?r @
        concat (map (\<lambda>j. Select (selectionId (dataPoints vm ! nat j)) #
                  (if show (captionSettings vs)
                   then [LabelText (category (dataPoints vm ! nat j))] else []))
          [0..int (length (dataPoints vm)) - 1])
        @ [Attr ''#play, #next, #previous'' ''opacity'' (Str ''0.3''),
           Attr ''#stop, #pause'' ''opacity'' (Str ''1'')]\<rparr>"
    using r by (intro o) simp_all
  then show ?thesis by simp
qed


lemma rounds_reachable:
  "\<exists>as'. (run_pending ^^ n) (execX as constructor) = execX as' constructor"
proof (induction n)
  case 0
  show ?case by auto
next
  case (Suc n)
  then obtain as' where a: "(run_pending ^^ n) (execX as constructor) = execX as' constructor"
    by blast
  have "(run_pending ^^ Suc n) (execX as constructor) =
      execX (as' @ map Timeout (map handle (pending (execX as' constructor)))) constructor"
    by (simp add: a run_pending_def execX_append)
  then show ?case by blast
qed

lemma fireX_terminal:
  assumes "find (\<lambda>t. handle t = h) (pending u) =
      Some \<lparr>handle = h, delay = d, callback = StopAnimationTimer\<rparr>"
    and "visualSettings u = Some vs"
  shows "fireX h u =
    (if loop (transitionSettings vs)
     then playAnimationX ((clearTimeout h u)\<lparr>status := Stop, lastSelected := 0\<rparr>)
     else stopAnimation (clearTimeout h u))"
  using assms by (simp add: fireX_def replayOrStop_def clearTimeout_def Let_def)

lemma terminal_scheduled:
  assumes "status s \<noteq> Play" and "viewModel s = Some vm" and "settings vm = Some vs"
  shows "\<exists>s'. playAnimationX s = Inr s' \<and>
     pending s' = pending s @
       map (\<lambda>i. \<lparr>handle = nextHandle s + nat (i - (if status s = Stop then 0 else lastSelected s + 1)),
                 delay = (i - lastSelected s) * timeInterval (transitionSettings vs),
                 callback = AdvanceX i\<rparr>)
         [(if status s = Stop then 0 else lastSelected s + 1)..int (length (dataPoints vm)) - 1]
       @ [\<lparr>handle = nextHandle s +
             nat (int (length (dataPoints vm)) - (if status s = Stop then 0 else lastSelected s + 1)),
           delay = (int (length (dataPoints vm)) - lastSelected s) * timeInterval (transitionSettings vs),
           callback = StopAnimationTimer\<rparr>]"
  by (simp add: playAnimationX_eq [OF assms])

lemma replays_forever:
  fixes s :: "'tok VisualX"
  assumes r: "s = execX as constructor" and st: "status s = Stop"
    and v: "viewModel s = Some vm" "settings vm = Some vs"
    and lp: "loop (transitionSettings vs)"
  shows "status ((run_pending ^^ n) (state_of (playAnimationX s))) = Play \<and>
     pending ((run_pending ^^ n) (state_of (playAnimationX s))) =
       map (\<lambda>j. \<lparr>handle = nextHandle s + n * (length (dataPoints vm) + 1) + nat j,
                 delay = j * timeInterval (transitionSettings vs),
                 callback = AdvanceX j\<rparr>) [0..int (length (dataPoints vm)) - 1]
       @ [\<lparr>handle = nextHandle s + n * (length (dataPoints vm) + 1) + length (dataPoints vm),
           delay = int (length (dataPoints vm)) * timeInterval (transitionSettings vs),
           callback = StopAnimationTimer\<rparr>] \<and>
     events ((run_pending ^^ Suc n) (state_of (playAnimationX s))) =
       events ((run_pending ^^ n) (state_of (playAnimationX s))) @
       concat (map (\<lambda>j. Select (selectionId (dataPoints vm ! nat j)) #
                 (if show (captionSettings vs)
                  then [LabelText (category (dataPoints vm ! nat j))] else []))
         [0..int (length (dataPoints vm)) - 1])
       @ [Attr ''#play, #next, #previous'' ''opacity'' (Str ''0.3''),
          Attr ''#stop, #pause'' ''opacity'' (Str ''1'')] \<and>
     pending (state_of (pauseAnimation ((run_pending ^^ n) (state_of (playAnimationX s))))) = [] \<and>
     pending (state_of (stopAnimation ((run_pending ^^ n) (state_of (playAnimationX s))))) = []"
proof -
  have ix: "controller_invX s" unfolding r by (rule reachable_invX)
  then have i: "controller_inv s" by (simp add: controller_invX_def)
  from i st have z: "pending s = []" "lastSelected s = 0" by (auto simp: controller_inv_def)
  from ix v have "installed s" by (simp add: controller_invX_def)
  with v have vs: "visualSettings s = Some vs" by (simp add: installed_def)
  have np: "status s \<noteq> Play" using st by simp
  define s' where "s' = state_of (playAnimationX s)"
  have f: "status s' = Play" "viewModel s' = Some vm" "visualSettings s' = Some vs"
    "nextHandle s' = nextHandle s + length (dataPoints vm) + 1"
    "pending s' =
      map (\<lambda>j. \<lparr>handle = nextHandle s + nat j, delay = j * timeInterval (transitionSettings vs),
                callback = AdvanceX j\<rparr>) [0..int (length (dataPoints vm)) - 1]
      @ [\<lparr>handle = nextHandle s + length (dataPoints vm),
          delay = int (length (dataPoints vm)) * timeInterval (transitionSettings vs),
          callback = StopAnimationTimer\<rparr>]"
    using v vs by (simp_all add: s'_def playAnimationX_eq [OF np v] state_of_def st z)
  note a = rounds [OF f(1,2) v(2) f(3) lp f(4,5), of n]
  note b = rounds_events [OF f(1,2) v(2) f(3) lp f(4,5), of n]
  have "s' = execX (as @ [ClickPlay]) constructor"
    by (simp add: s'_def r execX_append)
  then obtain as' where "(run_pending ^^ n) s' = execX as' constructor"
    using rounds_reachable [of n "as @ [ClickPlay]"] by auto
  then have "controller_invX ((run_pending ^^ n) s')" by (simp add: reachable_invX)
  then have c: "controller_inv ((run_pending ^^ n) s')" by (simp add: controller_invX_def)
  show ?thesis
    unfolding s'_def [symmetric]
    using a b pending_after_pause [OF c] pending_after_stop [OF c] by simp
qed

lemma run_advances_gen:
  fixes u :: "'tok VisualX"
  assumes "viewModel u = Some vm" and "visualSettings u = Some vs"
    and "pending u =
      map (\<lambda>j. \<lparr>handle = g j, delay = f j, callback = AdvanceX j\<rparr>) [k..n] @ rest"
    and "0 \<le> k" and "n < int (length (dataPoints vm))"
    and "\<forall>i j. k \<le> i \<and> i < j \<and> j \<le> n \<longrightarrow> g i \<noteq> g j"
    and "\<forall>t \<in> set rest. \<forall>j. k \<le> j \<and> j \<le> n \<longrightarrow> handle t \<noteq> g j"
  shows "execX (map (\<lambda>j. Timeout (g j)) [k..n]) u =
     u\<lparr>lastSelected := (if k \<le> n then n else lastSelected u), pending := rest,
       events := events u @
         concat (map (\<lambda>j. Select (selectionId (dataPoints vm ! nat j)) #
                   (if show (captionSettings vs)
                    then [LabelText (category (dataPoints vm ! nat j))] else [])) [k..n])\<rparr>"
  using assms
proof (induction k n arbitrary: u rule: upto.induct)
  case (1 k n)
  show ?case
  proof (cases "k \<le> n")
    case False
    then have "[k..n] = []" by simp
    with "1.prems"(3) False show ?thesis by simp
  next
    case True
    then have up: "[k..n] = k # [k + 1..n]" by (simp add: upto_rec1)
    let ?mk = "\<lambda>j. \<lparr>handle = g j, delay = f j, callback = AdvanceX j\<rparr>"
    have p: "pending u = ?mk k # map ?mk [k + 1..n] @ rest"
      using "1.prems"(3) by (simp add: up)
    have fnd: "find (\<lambda>t. handle t = g k) (pending u) =
        Some \<lparr>handle = g k, delay = f k, callback = AdvanceX k\<rparr>"
      by (simp add: p)
    have kr: "0 \<le> k" "k < int (length (dataPoints vm))"
      using "1.prems"(4,5) True by auto
    have ne: "g k \<noteq> g x" if "k + 1 \<le> x" "x \<le> n" for x
      using "1.prems"(6) [rule_format, of k x] that by simp
    have f1: "filter (\<lambda>t. handle t \<noteq> g k) (map ?mk [k + 1..n]) = map ?mk [k + 1..n]"
      using ne by (fastforce simp: filter_id_conv)
    have f2: "filter (\<lambda>t. handle t \<noteq> g k) rest = rest"
      using "1.prems"(7) True by (auto simp: filter_id_conv)
    define u1 where "u1 = u\<lparr>lastSelected := k, pending := map ?mk [k + 1..n] @ rest,
          events := events u @ [Select (selectionId (dataPoints vm ! nat k))]
            @ (if show (captionSettings vs) then [LabelText (category (dataPoints vm ! nat k))]
               else [])\<rparr>"
    have fire: "fireX (g k) u = Inr u1"
      unfolding u1_def
      by (subst fireX_advance [OF fnd kr "1.prems"(1,2)]) (simp add: p f1 f2)
    have ih: "execX (map (\<lambda>j. Timeout (g j)) [k + 1..n]) u1 =
      u1\<lparr>lastSelected := (if k + 1 \<le> n then n else lastSelected u1), pending := rest,
       events := events u1 @
         concat (map (\<lambda>j. Select (selectionId (dataPoints vm ! nat j)) #
                   (if show (captionSettings vs)
                    then [LabelText (category (dataPoints vm ! nat j))] else [])) [k + 1..n])\<rparr>"
    proof (rule "1.IH" [OF True])
      show "viewModel u1 = Some vm" "visualSettings u1 = Some vs"
        using "1.prems"(1,2) by (simp_all add: u1_def)
      show "pending u1 = map ?mk [k + 1..n] @ rest" by (simp add: u1_def)
      show "0 \<le> k + 1" using "1.prems"(4) by simp
      show "n < int (length (dataPoints vm))" by (rule "1.prems"(5))
      show "\<forall>i j. k + 1 \<le> i \<and> i < j \<and> j \<le> n \<longrightarrow> g i \<noteq> g j"
        using "1.prems"(6) by auto
      show "\<forall>t \<in> set rest. \<forall>j. k + 1 \<le> j \<and> j \<le> n \<longrightarrow> handle t \<noteq> g j"
        using "1.prems"(7) by auto
    qed
    have "execX (map (\<lambda>j. Timeout (g j)) [k..n]) u =
        execX (map (\<lambda>j. Timeout (g j)) [k + 1..n]) u1"
      by (simp add: up fire state_of_def)
    also note ih
    finally show ?thesis
      using True by (auto simp: u1_def up)
  qed
qed

lemma resume_round:
  fixes s :: "'tok VisualX"
  assumes i: "controller_invX s" and st: "status s = Pause"
    and v: "viewModel s = Some vm" "settings vm = Some vs"
    and lp: "loop (transitionSettings vs)"
  shows "status (run_pending (state_of (playAnimationX s))) = Play \<and>
     viewModel (run_pending (state_of (playAnimationX s))) = Some vm \<and>
     visualSettings (run_pending (state_of (playAnimationX s))) = Some vs \<and>
     nextHandle (run_pending (state_of (playAnimationX s))) =
       nextHandle s + nat (int (length (dataPoints vm)) - (lastSelected s + 1)) + 1
         + length (dataPoints vm) + 1 \<and>
     pending (run_pending (state_of (playAnimationX s))) =
       map (\<lambda>j. \<lparr>handle =
                   nextHandle s + nat (int (length (dataPoints vm)) - (lastSelected s + 1)) + 1 + nat j,
                 delay = j * timeInterval (transitionSettings vs),
                 callback = AdvanceX j\<rparr>) [0..int (length (dataPoints vm)) - 1]
       @ [\<lparr>handle = nextHandle s + nat (int (length (dataPoints vm)) - (lastSelected s + 1)) + 1
             + length (dataPoints vm),
           delay = int (length (dataPoints vm)) * timeInterval (transitionSettings vs),
           callback = StopAnimationTimer\<rparr>]"
proof -
  let ?N = "int (length (dataPoints vm))"
  let ?k = "lastSelected s + 1"
  let ?g = "\<lambda>j. nextHandle s + nat (j - ?k)"
  let ?T = "\<lparr>handle = nextHandle s + nat (?N - ?k),
      delay = (?N - lastSelected s) * timeInterval (transitionSettings vs),
      callback = StopAnimationTimer\<rparr>"
  from i have c: "controller_inv s" and nn: "0 \<le> lastSelected s"
    by (simp_all add: controller_invX_def)
  from c st have p0: "pending s = []" by (auto simp: controller_inv_def)
  from i v have "installed s" by (simp add: controller_invX_def)
  with v have vs: "visualSettings s = Some vs" by (simp add: installed_def)
  have np: "status s \<noteq> Play" using st by simp
  define s' where "s' = state_of (playAnimationX s)"
  have f: "status s' = Play" "viewModel s' = Some vm" "visualSettings s' = Some vs"
    "nextHandle s' = nextHandle s + nat (?N - ?k) + 1"
    "pending s' =
      map (\<lambda>j. \<lparr>handle = ?g j, delay = (j - lastSelected s) * timeInterval (transitionSettings vs),
                callback = AdvanceX j\<rparr>) [?k..?N - 1] @ [?T]"
    using v vs by (simp_all add: s'_def playAnimationX_eq [OF np v] state_of_def st p0)
  have hs: "map Timeout (map handle (pending s')) =
      map (\<lambda>j. Timeout (?g j)) [?k..?N - 1] @ [Timeout (nextHandle s + nat (?N - ?k))]"
    by (simp add: f(5) o_def)
  have d1: "\<forall>i j. ?k \<le> i \<and> i < j \<and> j \<le> ?N - 1 \<longrightarrow> ?g i \<noteq> ?g j"
    by auto
  have d2: "\<forall>t \<in> set [?T]. \<forall>j. ?k \<le> j \<and> j \<le> ?N - 1 \<longrightarrow> handle t \<noteq> ?g j"
    by auto
  let ?items = "concat (map (\<lambda>j. Select (selectionId (dataPoints vm ! nat j)) #
                  (if show (captionSettings vs)
                   then [LabelText (category (dataPoints vm ! nat j))] else [])) [?k..?N - 1])"
  define u where "u = s'\<lparr>lastSelected := (if ?k \<le> ?N - 1 then ?N - 1 else lastSelected s'),
      pending := [?T], events := events s' @ ?items\<rparr>"
  have a: "execX (map (\<lambda>j. Timeout (?g j)) [?k..?N - 1]) s' = u"
    unfolding u_def
    by (rule run_advances_gen [OF f(2,3) f(5) _ _ d1 d2]) (use nn in simp_all)
  define w where "w = (clearTimeout (nextHandle s + nat (?N - ?k)) u)\<lparr>status := Stop, lastSelected := 0\<rparr>"
  have fw: "status w \<noteq> Play" "viewModel w = Some vm" "status w = Stop" "lastSelected w = 0"
    "pending w = []" "nextHandle w = nextHandle s + nat (?N - ?k) + 1"
    "visualSettings w = Some vs"
    using f by (simp_all add: w_def u_def clearTimeout_def)
  have "fireX (nextHandle s + nat (?N - ?k)) u =
      replayOrStop (clearTimeout (nextHandle s + nat (?N - ?k)) u)"
    by (simp add: fireX_def u_def)
  also have "\<dots> = playAnimationX w"
    using f lp by (simp add: replayOrStop_def w_def u_def clearTimeout_def Let_def)
  finally have fr: "fireX (nextHandle s + nat (?N - ?k)) u = playAnimationX w" .
  have "run_pending s' =
      execX (map (\<lambda>j. Timeout (?g j)) [?k..?N - 1] @ [Timeout (nextHandle s + nat (?N - ?k))]) s'"
    unfolding run_pending_def hs ..
  also have "\<dots> = state_of (playAnimationX w)"
    by (simp add: execX_append a fr)
  finally have r: "run_pending s' = state_of (playAnimationX w)" .
  show ?thesis
    unfolding s'_def [symmetric] r
    by (simp add: playAnimationX_eq [OF fw(1,2) v(2)] fw state_of_def)
qed

lemma resumes_forever:
  fixes s :: "'tok VisualX"
  assumes r: "s = execX as constructor" and st: "status s = Pause"
    and v: "viewModel s = Some vm" "settings vm = Some vs"
    and lp: "loop (transitionSettings vs)"
  shows "status ((run_pending ^^ Suc n) (state_of (playAnimationX s))) = Play \<and>
     pending ((run_pending ^^ Suc n) (state_of (playAnimationX s))) =
       map (\<lambda>j. \<lparr>handle =
                   nextHandle s + nat (int (length (dataPoints vm)) - (lastSelected s + 1)) + 1
                     + n * (length (dataPoints vm) + 1) + nat j,
                 delay = j * timeInterval (transitionSettings vs),
                 callback = AdvanceX j\<rparr>) [0..int (length (dataPoints vm)) - 1]
       @ [\<lparr>handle = nextHandle s + nat (int (length (dataPoints vm)) - (lastSelected s + 1)) + 1
             + n * (length (dataPoints vm) + 1) + length (dataPoints vm),
           delay = int (length (dataPoints vm)) * timeInterval (transitionSettings vs),
           callback = StopAnimationTimer\<rparr>] \<and>
     events ((run_pending ^^ Suc (Suc n)) (state_of (playAnimationX s))) =
       events ((run_pending ^^ Suc n) (state_of (playAnimationX s))) @
       concat (map (\<lambda>j. Select (selectionId (dataPoints vm ! nat j)) #
                 (if show (captionSettings vs)
                  then [LabelText (category (dataPoints vm ! nat j))] else []))
         [0..int (length (dataPoints vm)) - 1])
       @ [Attr ''#play, #next, #previous'' ''opacity'' (Str ''0.3''),
          Attr ''#stop, #pause'' ''opacity'' (Str ''1'')] \<and>
     pending (state_of (pauseAnimation
       ((run_pending ^^ Suc n) (state_of (playAnimationX s))))) = [] \<and>
     pending (state_of (stopAnimation
       ((run_pending ^^ Suc n) (state_of (playAnimationX s))))) = []"
proof -
  have ix: "controller_invX s" unfolding r by (rule reachable_invX)
  define s' where "s' = state_of (playAnimationX s)"
  define q where "q = run_pending s'"
  note f = resume_round [OF ix st v lp, folded s'_def, folded q_def]
  have f1: "status q = Play" and f2: "viewModel q = Some vm" and f3: "visualSettings q = Some vs"
    and f4: "nextHandle q =
       nextHandle s + nat (int (length (dataPoints vm)) - (lastSelected s + 1)) + 1
         + length (dataPoints vm) + 1"
    and f5: "pending q =
       map (\<lambda>j. \<lparr>handle =
                   nextHandle s + nat (int (length (dataPoints vm)) - (lastSelected s + 1)) + 1 + nat j,
                 delay = j * timeInterval (transitionSettings vs),
                 callback = AdvanceX j\<rparr>) [0..int (length (dataPoints vm)) - 1]
       @ [\<lparr>handle = nextHandle s + nat (int (length (dataPoints vm)) - (lastSelected s + 1)) + 1
             + length (dataPoints vm),
           delay = int (length (dataPoints vm)) * timeInterval (transitionSettings vs),
           callback = StopAnimationTimer\<rparr>]"
    using f by simp_all
  note a = rounds [OF f1 f2 v(2) f3 lp f4 f5, of n]
  note b = rounds_events [OF f1 f2 v(2) f3 lp f4 f5, of n]
  have sw: "(run_pending ^^ Suc m) s' = (run_pending ^^ m) q" for m
    by (simp add: q_def funpow_swap1)
  have "s' = execX (as @ [ClickPlay]) constructor"
    by (simp add: s'_def r execX_append)
  then obtain as' where "(run_pending ^^ Suc n) s' = execX as' constructor"
    using rounds_reachable [of "Suc n" "as @ [ClickPlay]"] by auto
  then have "controller_invX ((run_pending ^^ Suc n) s')" by (simp only: reachable_invX)
  then have c: "controller_inv ((run_pending ^^ Suc n) s')" by (simp add: controller_invX_def)
  show ?thesis
    unfolding s'_def [symmetric]
    using a b pending_after_pause [OF c] pending_after_stop [OF c]
    unfolding sw by simp
qed

text \<open>
  C5, as amended. In the extended variant, in every reachable state in which a view model
  and its settings are installed and the status is not Play, \<^verbatim>\<open>playAnimation\<close> creates,
  after the timers for the indices, exactly one \<^verbatim>\<open>stopAnimationTimer\<close> with delay
  \<^verbatim>\<open>(length - lastSelected) * timeInterval\<close>. When a \<^verbatim>\<open>stopAnimationTimer\<close> runs, it sets
  the status to Stop and \<^verbatim>\<open>lastSelected\<close> to 0 and calls \<^verbatim>\<open>playAnimation\<close> if \<^verbatim>\<open>loop\<close>
  is true, and calls \<^verbatim>\<open>stopAnimation\<close> if it is false. With \<^verbatim>\<open>loop\<close> true the sequence
  replays without end: after a play from the stopped state and any number \<open>n\<close> of
  rounds in which every pending timer runs (after a play from the paused state and \<open>n + 1\<close>
  rounds, the first of which finishes the resumed pass), the status is Play, the timers for
  all indices and a new \<^verbatim>\<open>stopAnimationTimer\<close> are pending again, one more round selects
  every data point in order again, and a \<^verbatim>\<open>pauseAnimation\<close> or \<^verbatim>\<open>stopAnimation\<close> leaves
  nothing pending.
\<close>

theorem terminal_timer:
  fixes s :: "'tok VisualX"
  assumes "s = execX as constructor" and "status s \<noteq> Play"
    and "viewModel s = Some vm" and "settings vm = Some vs"
  shows
    "(\<exists>s'. playAnimationX s = Inr s' \<and>
        pending s' = pending s @
          map (\<lambda>i. \<lparr>handle = nextHandle s + nat (i - (if status s = Stop then 0 else lastSelected s + 1)),
                    delay = (i - lastSelected s) * timeInterval (transitionSettings vs),
                    callback = AdvanceX i\<rparr>)
            [(if status s = Stop then 0 else lastSelected s + 1)..int (length (dataPoints vm)) - 1]
          @ [\<lparr>handle = nextHandle s +
                nat (int (length (dataPoints vm)) - (if status s = Stop then 0 else lastSelected s + 1)),
              delay = (int (length (dataPoints vm)) - lastSelected s) * timeInterval (transitionSettings vs),
              callback = StopAnimationTimer\<rparr>]) \<and>
     (\<forall>(u :: 'tok VisualX) h d vs'.
        find (\<lambda>t. handle t = h) (pending u) =
          Some \<lparr>handle = h, delay = d, callback = StopAnimationTimer\<rparr> \<longrightarrow>
        visualSettings u = Some vs' \<longrightarrow>
        fireX h u =
          (if loop (transitionSettings vs')
           then playAnimationX ((clearTimeout h u)\<lparr>status := Stop, lastSelected := 0\<rparr>)
           else stopAnimation (clearTimeout h u))) \<and>
     (status s = Stop \<longrightarrow> loop (transitionSettings vs) \<longrightarrow>
      (\<forall>n.
         status ((run_pending ^^ n) (state_of (playAnimationX s))) = Play \<and>
         pending ((run_pending ^^ n) (state_of (playAnimationX s))) =
           map (\<lambda>j. \<lparr>handle = nextHandle s + n * (length (dataPoints vm) + 1) + nat j,
                     delay = j * timeInterval (transitionSettings vs),
                     callback = AdvanceX j\<rparr>) [0..int (length (dataPoints vm)) - 1]
           @ [\<lparr>handle = nextHandle s + n * (length (dataPoints vm) + 1) + length (dataPoints vm),
               delay = int (length (dataPoints vm)) * timeInterval (transitionSettings vs),
               callback = StopAnimationTimer\<rparr>] \<and>
         events ((run_pending ^^ Suc n) (state_of (playAnimationX s))) =
           events ((run_pending ^^ n) (state_of (playAnimationX s))) @
           concat (map (\<lambda>j. Select (selectionId (dataPoints vm ! nat j)) #
                     (if show (captionSettings vs)
                      then [LabelText (category (dataPoints vm ! nat j))] else []))
             [0..int (length (dataPoints vm)) - 1])
           @ [Attr ''#play, #next, #previous'' ''opacity'' (Str ''0.3''),
              Attr ''#stop, #pause'' ''opacity'' (Str ''1'')] \<and>
         pending (state_of (pauseAnimation
           ((run_pending ^^ n) (state_of (playAnimationX s))))) = [] \<and>
         pending (state_of (stopAnimation
           ((run_pending ^^ n) (state_of (playAnimationX s))))) = [])) \<and>
     (status s = Pause \<longrightarrow> loop (transitionSettings vs) \<longrightarrow>
      (\<forall>n.
         status ((run_pending ^^ Suc n) (state_of (playAnimationX s))) = Play \<and>
         pending ((run_pending ^^ Suc n) (state_of (playAnimationX s))) =
           map (\<lambda>j. \<lparr>handle =
                       nextHandle s + nat (int (length (dataPoints vm)) - (lastSelected s + 1)) + 1
                         + n * (length (dataPoints vm) + 1) + nat j,
                     delay = j * timeInterval (transitionSettings vs),
                     callback = AdvanceX j\<rparr>) [0..int (length (dataPoints vm)) - 1]
           @ [\<lparr>handle = nextHandle s + nat (int (length (dataPoints vm)) - (lastSelected s + 1)) + 1
                 + n * (length (dataPoints vm) + 1) + length (dataPoints vm),
               delay = int (length (dataPoints vm)) * timeInterval (transitionSettings vs),
               callback = StopAnimationTimer\<rparr>] \<and>
         events ((run_pending ^^ Suc (Suc n)) (state_of (playAnimationX s))) =
           events ((run_pending ^^ Suc n) (state_of (playAnimationX s))) @
           concat (map (\<lambda>j. Select (selectionId (dataPoints vm ! nat j)) #
                     (if show (captionSettings vs)
                      then [LabelText (category (dataPoints vm ! nat j))] else []))
             [0..int (length (dataPoints vm)) - 1])
           @ [Attr ''#play, #next, #previous'' ''opacity'' (Str ''0.3''),
              Attr ''#stop, #pause'' ''opacity'' (Str ''1'')] \<and>
         pending (state_of (pauseAnimation
           ((run_pending ^^ Suc n) (state_of (playAnimationX s))))) = [] \<and>
         pending (state_of (stopAnimation
           ((run_pending ^^ Suc n) (state_of (playAnimationX s))))) = []))"
  by (intro conjI allI impI terminal_scheduled [OF assms(2,3,4)] fireX_terminal
      replays_forever [OF assms(1) _ assms(3,4)] resumes_forever [OF assms(1) _ assms(3,4)])


theorem terminal_timer_witness:
  "status (execX [CallUpdate (Some (abc_with ''loop'' True))] constructor) = Stop \<and>
   (\<exists>s'. playAnimationX (execX [CallUpdate (Some (abc_with ''loop'' True))] constructor) = Inr s' \<and>
      pending s' =
        [\<lparr>handle = 0, delay = 0, callback = AdvanceX 0\<rparr>,
         \<lparr>handle = 1, delay = 1000, callback = AdvanceX 1\<rparr>,
         \<lparr>handle = 2, delay = 2000, callback = AdvanceX 2\<rparr>,
         \<lparr>handle = 3, delay = 3000, callback = StopAnimationTimer\<rparr>]) \<and>
   status ((run_pending ^^ 2) (state_of (playAnimationX
     (execX [CallUpdate (Some (abc_with ''loop'' True))] constructor)))) = Play \<and>
   pending ((run_pending ^^ 2) (state_of (playAnimationX
     (execX [CallUpdate (Some (abc_with ''loop'' True))] constructor)))) =
     [\<lparr>handle = 8, delay = 0, callback = AdvanceX 0\<rparr>,
      \<lparr>handle = 9, delay = 1000, callback = AdvanceX 1\<rparr>,
      \<lparr>handle = 10, delay = 2000, callback = AdvanceX 2\<rparr>,
      \<lparr>handle = 11, delay = 3000, callback = StopAnimationTimer\<rparr>] \<and>
   status (execX [CallUpdate (Some (abc_with ''loop'' True)), ClickPlay, Timeout 0, ClickPause]
     constructor) = Pause \<and>
   pending ((run_pending ^^ Suc 0) (state_of (playAnimationX
     (execX [CallUpdate (Some (abc_with ''loop'' True)), ClickPlay, Timeout 0, ClickPause]
       constructor)))) =
     [\<lparr>handle = 7, delay = 0, callback = AdvanceX 0\<rparr>,
      \<lparr>handle = 8, delay = 1000, callback = AdvanceX 1\<rparr>,
      \<lparr>handle = 9, delay = 2000, callback = AdvanceX 2\<rparr>,
      \<lparr>handle = 10, delay = 3000, callback = StopAnimationTimer\<rparr>] \<and>
   find (\<lambda>t. handle t = 3)
     (pending (execX [CallUpdate (Some abc), ClickPlay, Timeout 0, Timeout 1, Timeout 2] constructor)) =
     Some \<lparr>handle = 3, delay = 3000, callback = StopAnimationTimer\<rparr> \<and>
   fireX 3 (execX [CallUpdate (Some abc), ClickPlay, Timeout 0, Timeout 1, Timeout 2] constructor) =
     stopAnimation (clearTimeout 3
       (execX [CallUpdate (Some abc), ClickPlay, Timeout 0, Timeout 1, Timeout 2] constructor))"
proof -
  define x where "x = execX [CallUpdate (Some (abc_with ''loop'' True))] constructor"
  define u where "u = execX [CallUpdate (Some abc), ClickPlay, Timeout 0, Timeout 1, Timeout 2] constructor"
  define z where "z = execX [CallUpdate (Some (abc_with ''loop'' True)), ClickPlay, Timeout 0, ClickPause]
     constructor"
  define vm where "vm = visualTransformX (abc_with ''loop'' True)"
  define vs where "vs = the (settings vm)"
  define vs' where "vs' = the (settings (visualTransformX abc))"
  have rx: "x = execX [CallUpdate (Some (abc_with ''loop'' True))] constructor"
    by (simp only: x_def)
  have vx: "status x \<noteq> Play" "viewModel x = Some vm" "settings vm = Some vs"
    by (simp_all add: x_def vm_def vs_def eval_defs)
  have fx: "status x = Stop" "nextHandle x = 0" "lastSelected x = 0" "pending x = []"
    by (simp_all add: x_def eval_defs)
  have t: "timeInterval (transitionSettings vs) = 1000" "length (dataPoints vm) = 3"
    "loop (transitionSettings vs)" "\<not> loop (transitionSettings vs')"
    by (simp_all add: vs_def vm_def vs'_def eval_defs)
  have fu: "find (\<lambda>t. handle t = 3) (pending u) =
      Some \<lparr>handle = 3, delay = 3000, callback = StopAnimationTimer\<rparr>"
    "visualSettings u = Some vs'"
    by (simp_all add: u_def vs'_def eval_defs)
  have rz: "z = execX [CallUpdate (Some (abc_with ''loop'' True)), ClickPlay, Timeout 0, ClickPause]
     constructor"
    by (simp only: z_def)
  have vz: "status z \<noteq> Play" "viewModel z = Some vm"
    by (simp_all add: z_def vm_def eval_defs)
  have fz: "status z = Pause" "nextHandle z = 4" "lastSelected z = 0"
    by (simp_all add: z_def eval_defs)
  note thz = terminal_timer [OF rz vz vx(3)]
  have c4: "pending ((run_pending ^^ Suc 0) (state_of (playAnimationX z))) =
     [\<lparr>handle = 7, delay = 0, callback = AdvanceX 0\<rparr>,
      \<lparr>handle = 8, delay = 1000, callback = AdvanceX 1\<rparr>,
      \<lparr>handle = 9, delay = 2000, callback = AdvanceX 2\<rparr>,
      \<lparr>handle = 10, delay = 3000, callback = StopAnimationTimer\<rparr>]"
    using thz [THEN conjunct2, THEN conjunct2, THEN conjunct2, rule_format, OF fz(1) t(3), of 0,
        THEN conjunct2, THEN conjunct1]
    by (simp add: fz t upto_rec1)
  note th = terminal_timer [OF rx vx]
  have c1: "\<exists>s'. playAnimationX x = Inr s' \<and>
      pending s' =
        [\<lparr>handle = 0, delay = 0, callback = AdvanceX 0\<rparr>,
         \<lparr>handle = 1, delay = 1000, callback = AdvanceX 1\<rparr>,
         \<lparr>handle = 2, delay = 2000, callback = AdvanceX 2\<rparr>,
         \<lparr>handle = 3, delay = 3000, callback = StopAnimationTimer\<rparr>]"
    using th [THEN conjunct1] by (auto simp: fx t upto_rec1)
  note r = th [THEN conjunct2, THEN conjunct2, THEN conjunct1, rule_format, OF fx(1) t(3), of 2]
  have c2: "status ((run_pending ^^ 2) (state_of (playAnimationX x))) = Play"
    "pending ((run_pending ^^ 2) (state_of (playAnimationX x))) =
     [\<lparr>handle = 8, delay = 0, callback = AdvanceX 0\<rparr>,
      \<lparr>handle = 9, delay = 1000, callback = AdvanceX 1\<rparr>,
      \<lparr>handle = 10, delay = 2000, callback = AdvanceX 2\<rparr>,
      \<lparr>handle = 11, delay = 3000, callback = StopAnimationTimer\<rparr>]"
    using r [THEN conjunct1] r [THEN conjunct2, THEN conjunct1]
    by (simp_all add: fx t upto_rec1)
  have c3: "fireX 3 u = stopAnimation (clearTimeout 3 u)"
    using th [THEN conjunct2, THEN conjunct1, rule_format, OF fu] by (simp add: t)
  show ?thesis
    unfolding x_def [symmetric] u_def [symmetric] z_def [symmetric]
    by (simp only: c1 c2 c3 c4 fx fz fu simp_thms)
qed

text \<open>
  The claim as written fails where no view model is installed: before the first update
  with ready data (an update with data that is not ready installs nothing),
  \<^verbatim>\<open>playAnimation\<close> raises on reading \<^verbatim>\<open>this.viewModel.settings\<close>, creates no timer at
  all and leaves the status Stop.
\<close>

theorem terminal_uninstalled_counterexample:
  "status (constructor :: nat VisualX) = Stop \<and>
   \<not> returns (playAnimationX (constructor :: nat VisualX)) \<and>
   pending (execX [ClickPlay] (constructor :: nat VisualX)) = [] \<and>
   status (execX [ClickPlay] (constructor :: nat VisualX)) = Stop \<and>
   \<not> returns (playAnimationX (execX [CallUpdate None] (constructor :: nat VisualX))) \<and>
   pending (execX [CallUpdate None, ClickPlay] (constructor :: nat VisualX)) = []"
  by (simp add: eval_defs)

subsection \<open>Updates (C9)\<close>

lemma stop_reachable:
  assumes i: "controller_invX s"
  shows "\<exists>s1. stopAnimation s = Inr s1 \<and> status s1 = Stop \<and> lastSelected s1 = 0 \<and>
     pending s1 = [] \<and> nextHandle s1 = nextHandle s"
proof (cases "status s = Stop")
  case True
  from i have "controller_inv s" by (simp add: controller_invX_def)
  with True have "pending s = []" "lastSelected s = 0" by (auto simp: controller_inv_def)
  with True show ?thesis by (simp add: stopAnimation_def)
next
  case False
  from i have c: "controller_inv s" by (simp add: controller_invX_def)
  from i False have "installed s" by (simp add: controller_invX_def)
  then obtain vs where v: "visualSettings s = Some vs" by (blast dest: installedD)
  from stop_any [OF c v] False show ?thesis by simp
qed

lemma updateX_ready:
  fixes s :: "'tok VisualX"
  assumes i: "controller_invX s"
  shows "\<exists>s1 vs.
     stopAnimation s = Inr s1 \<and> status s1 = Stop \<and> lastSelected s1 = 0 \<and> pending s1 = [] \<and>
     settings (visualTransformX dv) = Some vs \<and>
     updateX (Some dv) s =
       and_then
         (if autoStart (transitionSettings vs)
          then playAnimationX
            (s1\<lparr>viewModel := Some (visualTransformX dv), visualSettings := Some vs,
                visualDataPoints := Some (dataPoints (visualTransformX dv))\<rparr>)
          else Inr
            (s1\<lparr>viewModel := Some (visualTransformX dv), visualSettings := Some vs,
                visualDataPoints := Some (dataPoints (visualTransformX dv))\<rparr>))
         (\<lambda>s5. Inr (s5\<lparr>events := events s5 @ restyleX dv vs\<rparr>)) \<and>
     returns (updateX (Some dv) s) \<and>
     viewModel (state_of (updateX (Some dv) s)) = Some (visualTransformX dv) \<and>
     visualSettings (state_of (updateX (Some dv) s)) = Some vs \<and>
     lastSelected (state_of (updateX (Some dv) s)) = 0 \<and>
     (if autoStart (transitionSettings vs)
      then status (state_of (updateX (Some dv) s)) = Play \<and>
        pending (state_of (updateX (Some dv) s)) =
          map (\<lambda>i. \<lparr>handle = nextHandle s + nat i,
                    delay = i * timeInterval (transitionSettings vs), callback = AdvanceX i\<rparr>)
            [0..int (length (dataPoints (visualTransformX dv))) - 1]
          @ [\<lparr>handle = nextHandle s + length (dataPoints (visualTransformX dv)),
              delay = int (length (dataPoints (visualTransformX dv))) *
                timeInterval (transitionSettings vs),
              callback = StopAnimationTimer\<rparr>]
      else status (state_of (updateX (Some dv) s)) = Stop \<and>
        pending (state_of (updateX (Some dv) s)) = [])"
proof -
  from stop_reachable [OF i] obtain s1 where
    s1: "stopAnimation s = Inr s1" "status s1 = Stop" "lastSelected s1 = 0" "pending s1 = []"
      "nextHandle s1 = nextHandle s"
    by blast
  obtain vs where vs: "settings (visualTransformX dv) = Some vs"
    using visualTransformX_settings [of dv] by auto
  define s4 where "s4 = s1\<lparr>viewModel := Some (visualTransformX dv), visualSettings := Some vs,
      visualDataPoints := Some (dataPoints (visualTransformX dv))\<rparr>"
  have u: "updateX (Some dv) s =
      and_then (if autoStart (transitionSettings vs) then playAnimationX s4 else Inr s4)
        (\<lambda>s5. Inr (s5\<lparr>events := events s5 @ restyleX dv vs\<rparr>))"
    using s1(1) vs by (simp add: updateX_def isDataReady_def and_then_def Let_def s4_def)
  have f4: "status s4 \<noteq> Play" "viewModel s4 = Some (visualTransformX dv)" "status s4 = Stop"
    "lastSelected s4 = 0" "pending s4 = []" "nextHandle s4 = nextHandle s"
    "visualSettings s4 = Some vs"
    using s1 by (simp_all add: s4_def)
  note pl = playAnimationX_eq [OF f4(1,2) vs]
  have rest: "returns (updateX (Some dv) s) \<and>
     viewModel (state_of (updateX (Some dv) s)) = Some (visualTransformX dv) \<and>
     visualSettings (state_of (updateX (Some dv) s)) = Some vs \<and>
     lastSelected (state_of (updateX (Some dv) s)) = 0 \<and>
     (if autoStart (transitionSettings vs)
      then status (state_of (updateX (Some dv) s)) = Play \<and>
        pending (state_of (updateX (Some dv) s)) =
          map (\<lambda>i. \<lparr>handle = nextHandle s + nat i,
                    delay = i * timeInterval (transitionSettings vs), callback = AdvanceX i\<rparr>)
            [0..int (length (dataPoints (visualTransformX dv))) - 1]
          @ [\<lparr>handle = nextHandle s + length (dataPoints (visualTransformX dv)),
              delay = int (length (dataPoints (visualTransformX dv))) *
                timeInterval (transitionSettings vs),
              callback = StopAnimationTimer\<rparr>]
      else status (state_of (updateX (Some dv) s)) = Stop \<and>
        pending (state_of (updateX (Some dv) s)) = [])"
  proof (cases "autoStart (transitionSettings vs)")
    case True
    then show ?thesis
      by (simp add: u pl f4 res_defs)
  next
    case False
    then show ?thesis
      by (simp add: u f4 res_defs)
  qed
  show ?thesis
    using s1(1-4) vs u [unfolded s4_def] rest by blast
qed

lemma update_basic:
  fixes s :: "'tok VisualB"
  shows "status (state_of (update options s)) = status s \<and>
     lastSelected (state_of (update options s)) = lastSelected s \<and>
     pending (state_of (update options s)) = pending s \<and>
     timers (state_of (update options s)) = timers s \<and>
     viewModel (state_of (update options s)) = Some (visualTransform options) \<and>
     visualSettings (state_of (update options s)) = settings (visualTransform options) \<and>
     (\<exists>es. events (state_of (update options s)) = events s @ es \<and> ClearSelection \<notin> set es)"
  by (cases options)
     (auto simp: update_def visualTransform_def env_defs res_defs Let_def split: option.splits)

text \<open>
  C9. In every reachable state of the extended variant, an update with ready data first
  runs \<^verbatim>\<open>stopAnimation\<close>, which returns with the status Stop, \<^verbatim>\<open>lastSelected\<close> 0 and no
  timer pending; then installs the new view model and settings; then, when the new
  \<^verbatim>\<open>autoStart\<close> is true, runs \<^verbatim>\<open>playAnimation\<close>, so that exactly the timers of the new
  sequence are pending and the status is Play, and otherwise leaves the status Stop and
  nothing pending. The basic variant's update, in any state and for any data, installs the
  view model of the new data and leaves the status, \<^verbatim>\<open>lastSelected\<close>, the pending timers
  and \<^verbatim>\<open>this.timers\<close> as they were, and does not clear the selection.
\<close>

theorem update_effect:
  fixes sX :: "'a VisualX" and sB :: "'b VisualB"
  assumes "sX = execX asX constructor"
  shows
    "(\<exists>s1 vs.
       stopAnimation sX = Inr s1 \<and> status s1 = Stop \<and> lastSelected s1 = 0 \<and> pending s1 = [] \<and>
       settings (visualTransformX dv) = Some vs \<and>
       updateX (Some dv) sX =
         and_then
           (if autoStart (transitionSettings vs)
            then playAnimationX
              (s1\<lparr>viewModel := Some (visualTransformX dv), visualSettings := Some vs,
                  visualDataPoints := Some (dataPoints (visualTransformX dv))\<rparr>)
            else Inr
              (s1\<lparr>viewModel := Some (visualTransformX dv), visualSettings := Some vs,
                  visualDataPoints := Some (dataPoints (visualTransformX dv))\<rparr>))
           (\<lambda>s5. Inr (s5\<lparr>events := events s5 @ restyleX dv vs\<rparr>)) \<and>
       returns (updateX (Some dv) sX) \<and>
       viewModel (state_of (updateX (Some dv) sX)) = Some (visualTransformX dv) \<and>
       visualSettings (state_of (updateX (Some dv) sX)) = Some vs \<and>
       lastSelected (state_of (updateX (Some dv) sX)) = 0 \<and>
       (if autoStart (transitionSettings vs)
        then status (state_of (updateX (Some dv) sX)) = Play \<and>
          pending (state_of (updateX (Some dv) sX)) =
            map (\<lambda>i. \<lparr>handle = nextHandle sX + nat i,
                      delay = i * timeInterval (transitionSettings vs), callback = AdvanceX i\<rparr>)
              [0..int (length (dataPoints (visualTransformX dv))) - 1]
            @ [\<lparr>handle = nextHandle sX + length (dataPoints (visualTransformX dv)),
                delay = int (length (dataPoints (visualTransformX dv))) *
                  timeInterval (transitionSettings vs),
                callback = StopAnimationTimer\<rparr>]
        else status (state_of (updateX (Some dv) sX)) = Stop \<and>
          pending (state_of (updateX (Some dv) sX)) = [])) \<and>
     (status (state_of (update options sB)) = status sB \<and>
      lastSelected (state_of (update options sB)) = lastSelected sB \<and>
      pending (state_of (update options sB)) = pending sB \<and>
      timers (state_of (update options sB)) = timers sB \<and>
      viewModel (state_of (update options sB)) = Some (visualTransform options) \<and>
      visualSettings (state_of (update options sB)) = settings (visualTransform options) \<and>
      (\<exists>es. events (state_of (update options sB)) = events sB @ es \<and> ClearSelection \<notin> set es))"
proof -
  have i: "controller_invX sX" unfolding assms by (rule reachable_invX)
  show ?thesis
    by (rule conjI [OF updateX_ready [OF i] update_basic])
qed


theorem update_effect_witness:
  "status (execX [CallUpdate (Some abc), ClickPlay, Timeout 0] constructor) = Play \<and>
   length (pending (execX [CallUpdate (Some abc), ClickPlay, Timeout 0] constructor)) = 3 \<and>
   status (state_of (updateX (Some (abc_with ''autoStart'' True))
     (execX [CallUpdate (Some abc), ClickPlay, Timeout 0] constructor))) = Play \<and>
   lastSelected (state_of (updateX (Some (abc_with ''autoStart'' True))
     (execX [CallUpdate (Some abc), ClickPlay, Timeout 0] constructor))) = 0 \<and>
   pending (state_of (updateX (Some (abc_with ''autoStart'' True))
     (execX [CallUpdate (Some abc), ClickPlay, Timeout 0] constructor))) =
     [\<lparr>handle = 4, delay = 0, callback = AdvanceX 0\<rparr>,
      \<lparr>handle = 5, delay = 1000, callback = AdvanceX 1\<rparr>,
      \<lparr>handle = 6, delay = 2000, callback = AdvanceX 2\<rparr>,
      \<lparr>handle = 7, delay = 3000, callback = StopAnimationTimer\<rparr>] \<and>
   status (state_of (updateX (Some abc)
     (execX [CallUpdate (Some abc), ClickPlay, Timeout 0] constructor))) = Stop \<and>
   pending (state_of (updateX (Some abc)
     (execX [CallUpdate (Some abc), ClickPlay, Timeout 0] constructor))) = [] \<and>
   status (exec [CallUpdate (Some abc), ClickPlay] constructor) = Play \<and>
   length (pending (exec [CallUpdate (Some abc), ClickPlay] constructor)) = 3 \<and>
   status (state_of (update None (exec [CallUpdate (Some abc), ClickPlay] constructor))) = Play \<and>
   pending (state_of (update None (exec [CallUpdate (Some abc), ClickPlay] constructor))) =
     pending (exec [CallUpdate (Some abc), ClickPlay] constructor) \<and>
   viewModel (state_of (update None (exec [CallUpdate (Some abc), ClickPlay] constructor))) =
     Some \<lparr>dataPoints = [], settings = None\<rparr>"
proof -
  define x where "x = execX [CallUpdate (Some abc), ClickPlay, Timeout 0] constructor"
  define b where "b = exec [CallUpdate (Some abc), ClickPlay] constructor"
  have rx: "x = execX [CallUpdate (Some abc), ClickPlay, Timeout 0] constructor"
    by (simp only: x_def)
  have f: "status x = Play" "length (pending x) = 3" "nextHandle x = 4"
    "status b = Play" "length (pending b) = 3"
    by (simp_all add: x_def b_def eval_defs)
  have t: "settings (visualTransformX (abc_with ''autoStart'' True)) = Some vs \<Longrightarrow>
      autoStart (transitionSettings vs) \<and> timeInterval (transitionSettings vs) = 1000" for vs
    by (auto simp: eval_defs)
  have t': "settings (visualTransformX abc) = Some vs \<Longrightarrow> \<not> autoStart (transitionSettings vs)" for vs
    by (auto simp: eval_defs)
  have l: "length (dataPoints (visualTransformX (abc_with ''autoStart'' True))) = 3"
    by (simp add: eval_defs)
  have e: "visualTransform None = \<lparr>dataPoints = [], settings = None\<rparr>"
    by (simp add: visualTransform_def)
  note tha = update_effect [OF rx, of "abc_with ''autoStart'' True" None b]
  note thb = update_effect [OF rx, of abc None b]
  have c1: "status (state_of (updateX (Some (abc_with ''autoStart'' True)) x)) = Play"
    "lastSelected (state_of (updateX (Some (abc_with ''autoStart'' True)) x)) = 0"
    "pending (state_of (updateX (Some (abc_with ''autoStart'' True)) x)) =
     [\<lparr>handle = 4, delay = 0, callback = AdvanceX 0\<rparr>,
      \<lparr>handle = 5, delay = 1000, callback = AdvanceX 1\<rparr>,
      \<lparr>handle = 6, delay = 2000, callback = AdvanceX 2\<rparr>,
      \<lparr>handle = 7, delay = 3000, callback = StopAnimationTimer\<rparr>]"
    using tha [THEN conjunct1] by (auto simp: f l upto_rec1 dest!: t)
  have c2: "status (state_of (updateX (Some abc) x)) = Stop"
    "pending (state_of (updateX (Some abc) x)) = []"
    using thb [THEN conjunct1] by (auto dest!: t')
  have c3: "status (state_of (update None b)) = Play"
    "pending (state_of (update None b)) = pending b"
    "viewModel (state_of (update None b)) = Some \<lparr>dataPoints = [], settings = None\<rparr>"
    using tha [THEN conjunct2] by (simp_all add: f e)
  show ?thesis
    unfolding x_def [symmetric] b_def [symmetric]
    by (simp only: c1 c2 c3 f simp_thms)
qed

subsection \<open>The empty sequence (C6)\<close>

lemma step_empty:
  assumes "viewModel s = Some vm" and "dataPoints vm = []"
  shows "step d s = Inr s"
proof (cases "status s = Play \<or> status s = Stop")
  case True
  then show ?thesis by (rule step_idle)
next
  case False
  have "lastSelected s + d < 0 \<or> lastSelected s + d > int (length (dataPoints vm)) - 1"
    using assms(2) by auto
  then show ?thesis by (rule step_out_of_range [OF assms(1)])
qed

lemma returns_pause: "returns (pauseAnimation s)"
  by (simp add: pauseAnimation_def returns_def Let_def)

lemma returns_stop:
  assumes "visualSettings s = Some vs"
  shows "returns (stopAnimation s)"
proof (cases "status s = Stop")
  case True
  then show ?thesis by (simp add: stopAnimation_def returns_def)
next
  case False
  show ?thesis by (simp add: stopAnimation_eq [OF False assms] returns_def)
qed

lemma nonneg_act:
  assumes "0 \<le> lastSelected s"
  shows "0 \<le> lastSelected (state_of (act a s))"
proof (cases a)
  case ClickPlay
  with assms show ?thesis
    by (auto simp: playAnimation_def playLoop_eq env_defs res_defs Let_def split: option.splits)
next
  case ClickStop
  with assms show ?thesis
    by (auto simp: stopAnimation_def updateCaption_def env_defs res_defs Let_def split: option.splits)
next
  case ClickPause
  with assms show ?thesis
    by (auto simp: pauseAnimation_def env_defs res_defs Let_def)
next
  case (CallStep d)
  with assms show ?thesis
    by (auto simp: step_def updateCaption_def env_defs res_defs Let_def split: option.splits)
next
  case (CallUpdate options)
  with assms show ?thesis
    using update_basic [of options s] by simp
next
  case (Timeout h)
  with assms show ?thesis
    by (auto simp: fire_def advance_def updateCaption_def env_defs res_defs Let_def
        split: option.splits callbackB.splits)
qed

lemma nonneg_exec: "0 \<le> lastSelected s \<Longrightarrow> 0 \<le> lastSelected (exec as s)"
  by (induction as arbitrary: s) (simp_all add: nonneg_act)

lemma reachable_nonneg: "0 \<le> lastSelected (exec as constructor)"
  by (rule nonneg_exec) (simp add: constructor_def)

lemma play_empty:
  assumes "viewModel s = Some vm" and "dataPoints vm = []" and "settings vm = Some vs"
    and "0 \<le> lastSelected s"
  shows "returns (playAnimation s) \<and> pending (state_of (playAnimation s)) = pending s"
proof (cases "status s = Play")
  case True
  then show ?thesis by (simp add: playAnimation_def res_defs)
next
  case False
  show ?thesis
    using assms(4) by (simp add: playAnimation_eq [OF False assms(1,3)] assms(2) res_defs)
qed

lemma empty_reachableX:
  fixes s :: "'tok VisualX"
  assumes i: "controller_invX s" and v: "viewModel s = Some vm" "dataPoints vm = []"
    "settings vm = Some vs"
  shows "lastSelected s = 0" and "visualSettings s = Some vs"
    and "\<forall>t \<in> set (pending s). callback t = StopAnimationTimer"
proof -
  from i v(1,2) show "lastSelected s = 0"
    by (auto simp: controller_invX_def seq_len_def)
  from i v(1) have "installed s" by (simp add: controller_invX_def)
  with v show "visualSettings s = Some vs" by (simp add: installed_def)
  from i have "in_range s" by (simp add: controller_invX_def)
  then have "\<forall>t \<in> set (pending s). within 0 (callback t)"
    using v(1,2) by (simp add: in_range_def seq_len_def)
  then show "\<forall>t \<in> set (pending s). callback t = StopAnimationTimer"
  proof (intro ballI)
    fix t assume "\<forall>t \<in> set (pending s). within 0 (callback t)" "t \<in> set (pending s)"
    then have "within 0 (callback t)" by blast
    then show "callback t = StopAnimationTimer" by (cases "callback t") auto
  qed
qed

lemma playX_empty:
  fixes s :: "'tok VisualX"
  assumes i: "controller_invX s" and v: "viewModel s = Some vm" "dataPoints vm = []"
    "settings vm = Some vs"
  shows "returns (playAnimationX s)"
    and "status s \<noteq> Play \<Longrightarrow>
      playAnimationX s =
        Inr (s\<lparr>status := Play, timers := timers s @ [nextHandle s],
              pending := [\<lparr>handle = nextHandle s, delay = 0, callback = StopAnimationTimer\<rparr>],
              nextHandle := nextHandle s + 1,
              events := events s @
                [Attr ''#play, #next, #previous'' ''opacity'' (Str ''0.3''),
                 Attr ''#stop, #pause'' ''opacity'' (Str ''1'')]\<rparr>)"
proof -
  note z = empty_reachableX(1) [OF i v]
  show "returns (playAnimationX s)"
  proof (cases "status s = Play")
    case True
    then show ?thesis by (simp add: playAnimationX_def returns_def)
  next
    case False
    show ?thesis by (simp add: playAnimationX_eq [OF False v(1,3)] returns_def)
  qed
  assume np: "status s \<noteq> Play"
  from i have "controller_inv s" by (simp add: controller_invX_def)
  with np have p: "pending s = []" by (auto simp: controller_inv_def)
  show "playAnimationX s =
        Inr (s\<lparr>status := Play, timers := timers s @ [nextHandle s],
              pending := [\<lparr>handle = nextHandle s, delay = 0, callback = StopAnimationTimer\<rparr>],
              nextHandle := nextHandle s + 1,
              events := events s @
                [Attr ''#play, #next, #previous'' ''opacity'' (Str ''0.3''),
                 Attr ''#stop, #pause'' ''opacity'' (Str ''1'')]\<rparr>)"
    by (simp add: playAnimationX_eq [OF np v(1,3)] v(2) z p)
qed

lemma fireX_empty:
  fixes s :: "'tok VisualX"
  assumes i: "controller_invX s" and v: "viewModel s = Some vm" "dataPoints vm = []"
    "settings vm = Some vs"
  shows "returns (fireX h s)"
    and "find (\<lambda>t. handle t = h) (pending s) \<noteq> None \<Longrightarrow>
      fireX h s =
        (if loop (transitionSettings vs)
         then playAnimationX ((clearTimeout h s)\<lparr>status := Stop, lastSelected := 0\<rparr>)
         else stopAnimation (clearTimeout h s))"
proof -
  note e = empty_reachableX [OF i v]
  have pending_case: "fireX h s =
        (if loop (transitionSettings vs)
         then playAnimationX ((clearTimeout h s)\<lparr>status := Stop, lastSelected := 0\<rparr>)
         else stopAnimation (clearTimeout h s))"
    if f: "find (\<lambda>t. handle t = h) (pending s) = Some t" for t
  proof -
    from f have "t \<in> set (pending s)" "handle t = h" by (auto dest: find_handle)
    with e(3) have "callback t = StopAnimationTimer" by blast
    with \<open>handle t = h\<close> have "t = \<lparr>handle = h, delay = delay t, callback = StopAnimationTimer\<rparr>"
      by (cases t) simp
    with f have "find (\<lambda>t. handle t = h) (pending s) =
        Some \<lparr>handle = h, delay = delay t, callback = StopAnimationTimer\<rparr>" by simp
    then show ?thesis by (rule fireX_terminal [OF _ e(2)])
  qed
  show "find (\<lambda>t. handle t = h) (pending s) \<noteq> None \<Longrightarrow>
      fireX h s =
        (if loop (transitionSettings vs)
         then playAnimationX ((clearTimeout h s)\<lparr>status := Stop, lastSelected := 0\<rparr>)
         else stopAnimation (clearTimeout h s))"
    using pending_case by auto
  show "returns (fireX h s)"
  proof (cases "find (\<lambda>t. handle t = h) (pending s)")
    case None
    then show ?thesis by (simp add: fireX_def returns_def)
  next
    case (Some t)
    have v': "visualSettings (clearTimeout h s) = Some vs" using e(2) by (simp add: clearTimeout_def)
    have np: "status ((clearTimeout h s)\<lparr>status := Stop, lastSelected := 0\<rparr>) \<noteq> Play"
      and vm': "viewModel ((clearTimeout h s)\<lparr>status := Stop, lastSelected := 0\<rparr>) = Some vm"
      using v(1) by (simp_all add: clearTimeout_def)
    show ?thesis
      unfolding pending_case [OF Some]
      by (simp add: returns_stop [OF v'] playAnimationX_eq [OF np vm' v(3)])
         (simp add: returns_def)
  qed
qed

text \<open>
  C6, as amended. With an empty sequence installed together with its settings, no method
  raises, in any reachable state. In the basic variant \<^verbatim>\<open>playAnimation\<close> creates no timer
  and \<^verbatim>\<open>step\<close> changes nothing. In the extended variant \<^verbatim>\<open>playAnimation\<close> creates no timer
  for an index and one \<^verbatim>\<open>stopAnimationTimer\<close> with delay 0; when that timer runs it calls
  \<^verbatim>\<open>stopAnimation\<close> if \<^verbatim>\<open>loop\<close> is false, and if \<^verbatim>\<open>loop\<close> is true it calls
  \<^verbatim>\<open>playAnimation\<close> again, which creates the next \<^verbatim>\<open>stopAnimationTimer\<close> with delay 0.
\<close>

theorem empty_sequence:
  fixes sB :: "'a VisualB" and sX :: "'b VisualX"
  assumes "sB = exec asB constructor" and "viewModel sB = Some vmB" and "dataPoints vmB = []"
    and "settings vmB = Some vsB" and "visualSettings sB = Some vsB"
    and "sX = execX asX constructor" and "viewModel sX = Some vmX" and "dataPoints vmX = []"
    and "settings vmX = Some vsX"
  shows
    "returns (playAnimation sB) \<and> pending (state_of (playAnimation sB)) = pending sB \<and>
     returns (stopAnimation sB) \<and> returns (pauseAnimation sB) \<and> (\<forall>d. step d sB = Inr sB) \<and>
     returns (playAnimationX sX) \<and> returns (stopAnimation sX) \<and> returns (pauseAnimation sX) \<and>
     (\<forall>d. step d sX = Inr sX) \<and> (\<forall>h. returns (fireX h sX)) \<and>
     (status sX \<noteq> Play \<longrightarrow>
        playAnimationX sX =
          Inr (sX\<lparr>status := Play, timers := timers sX @ [nextHandle sX],
                pending := [\<lparr>handle = nextHandle sX, delay = 0, callback = StopAnimationTimer\<rparr>],
                nextHandle := nextHandle sX + 1,
                events := events sX @
                  [Attr ''#play, #next, #previous'' ''opacity'' (Str ''0.3''),
                   Attr ''#stop, #pause'' ''opacity'' (Str ''1'')]\<rparr>)) \<and>
     (\<forall>h. find (\<lambda>t. handle t = h) (pending sX) \<noteq> None \<longrightarrow>
        fireX h sX =
          (if loop (transitionSettings vsX)
           then playAnimationX ((clearTimeout h sX)\<lparr>status := Stop, lastSelected := 0\<rparr>)
           else stopAnimation (clearTimeout h sX)))"
proof -
  have i: "controller_invX sX" unfolding assms(6) by (rule reachable_invX)
  have n: "0 \<le> lastSelected sB" unfolding assms(1) by (rule reachable_nonneg)
  note x = assms(7,8,9)
  note e = empty_reachableX [OF i x]
  show ?thesis
    using play_empty [OF assms(2,3,4) n] returns_stop [OF assms(5)] returns_pause [of sB]
      step_empty [OF assms(2,3)] playX_empty [OF i x] returns_stop [OF e(2)]
      returns_pause [of sX] step_empty [OF assms(7,8)] fireX_empty [OF i x]
    by simp
qed


theorem empty_sequence_witness:
  "map_option dataPoints
     (viewModel (exec [CallUpdate (Some (nothing_with ''loop'' False))] constructor)) = Some [] \<and>
   returns (playAnimation (exec [CallUpdate (Some (nothing_with ''loop'' False))] constructor)) \<and>
   pending (state_of (playAnimation
     (exec [CallUpdate (Some (nothing_with ''loop'' False))] constructor))) = [] \<and>
   map_option dataPoints
     (viewModel (execX [CallUpdate (Some (nothing_with ''loop'' False))] constructor)) = Some [] \<and>
   status (execX [CallUpdate (Some (nothing_with ''loop'' False))] constructor) = Stop \<and>
   pending (state_of (playAnimationX
     (execX [CallUpdate (Some (nothing_with ''loop'' False))] constructor))) =
     [\<lparr>handle = 0, delay = 0, callback = StopAnimationTimer\<rparr>] \<and>
   find (\<lambda>t. handle t = 0)
     (pending (execX [CallUpdate (Some (nothing_with ''loop'' False)), ClickPlay] constructor)) =
     Some \<lparr>handle = 0, delay = 0, callback = StopAnimationTimer\<rparr> \<and>
   fireX 0 (execX [CallUpdate (Some (nothing_with ''loop'' False)), ClickPlay] constructor) =
     stopAnimation (clearTimeout 0
       (execX [CallUpdate (Some (nothing_with ''loop'' False)), ClickPlay] constructor))"
proof -
  define b where "b = exec [CallUpdate (Some (nothing_with ''loop'' False))] constructor"
  define x where "x = execX [CallUpdate (Some (nothing_with ''loop'' False))] constructor"
  define y where "y = execX [CallUpdate (Some (nothing_with ''loop'' False)), ClickPlay] constructor"
  define vmB where "vmB = visualTransform (Some (nothing_with ''loop'' False))"
  define vmX where "vmX = visualTransformX (nothing_with ''loop'' False)"
  define vsB where "vsB = the (settings vmB)"
  define vsX where "vsX = the (settings vmX)"
  have rb: "b = exec [CallUpdate (Some (nothing_with ''loop'' False))] constructor"
    and rx: "x = execX [CallUpdate (Some (nothing_with ''loop'' False))] constructor"
    and ry: "y = execX [CallUpdate (Some (nothing_with ''loop'' False)), ClickPlay] constructor"
    by (simp_all only: b_def x_def y_def)
  have vb: "viewModel b = Some vmB" "dataPoints vmB = []" "settings vmB = Some vsB"
    "visualSettings b = Some vsB"
    by (simp_all add: b_def vmB_def vsB_def eval_defs)
  have vx: "viewModel x = Some vmX" "dataPoints vmX = []" "settings vmX = Some vsX"
    by (simp_all add: x_def vmX_def vsX_def eval_defs)
  have vy: "viewModel y = Some vmX" "dataPoints vmX = []" "settings vmX = Some vsX"
    by (simp_all add: y_def vmX_def vsX_def eval_defs)
  have f: "pending b = []" "status x = Stop" "nextHandle x = 0" "\<not> loop (transitionSettings vsX)"
    "find (\<lambda>t. handle t = 0) (pending y) =
       Some \<lparr>handle = 0, delay = 0, callback = StopAnimationTimer\<rparr>"
    by (simp_all add: b_def x_def y_def vsX_def vmX_def eval_defs)
  note thx = empty_sequence [OF rb vb rx vx]
  note thy = empty_sequence [OF rb vb ry vy]
  have c1: "returns (playAnimation b)" "pending (state_of (playAnimation b)) = []"
    using thx by (simp_all add: f)
  have c2: "pending (state_of (playAnimationX x)) =
      [\<lparr>handle = 0, delay = 0, callback = StopAnimationTimer\<rparr>]"
    using thx by (simp add: f state_of_def)
  have c3: "fireX 0 y = stopAnimation (clearTimeout 0 y)"
    using thy f(5) by (simp add: f(4))
  have d: "map_option dataPoints (viewModel b) = Some []"
    "map_option dataPoints (viewModel x) = Some []"
    by (simp_all add: vb vx)
  show ?thesis
    unfolding b_def [symmetric] x_def [symmetric] y_def [symmetric]
    by (simp only: c1 c2 c3 d f simp_thms)
qed

text \<open>
  The claim as written fails where \<^verbatim>\<open>loop\<close> is true: on the empty sequence the
  \<^verbatim>\<open>stopAnimationTimer\<close> has delay 0, and when it runs the animation is not stopped: the
  status is Play again and the next \<^verbatim>\<open>stopAnimationTimer\<close>, again with delay 0, is
  pending.
\<close>

theorem empty_loop_counterexample:
  "map_option dataPoints
     (viewModel (execX [CallUpdate (Some (nothing_with ''loop'' True)), ClickPlay] constructor)) =
     Some [] \<and>
   pending (execX [CallUpdate (Some (nothing_with ''loop'' True)), ClickPlay] constructor) =
     [\<lparr>handle = 0, delay = 0, callback = StopAnimationTimer\<rparr>] \<and>
   status (state_of (fireX 0
     (execX [CallUpdate (Some (nothing_with ''loop'' True)), ClickPlay] constructor))) = Play \<and>
   pending (state_of (fireX 0
     (execX [CallUpdate (Some (nothing_with ''loop'' True)), ClickPlay] constructor))) =
     [\<lparr>handle = 1, delay = 0, callback = StopAnimationTimer\<rparr>] \<and>
   status (state_of (stopAnimation (clearTimeout 0
     (execX [CallUpdate (Some (nothing_with ''loop'' True)), ClickPlay] constructor)))) = Stop \<and>
   fireX 0 (execX [CallUpdate (Some (nothing_with ''loop'' True)), ClickPlay] constructor) \<noteq>
     stopAnimation (clearTimeout 0
       (execX [CallUpdate (Some (nothing_with ''loop'' True)), ClickPlay] constructor))"
  by (simp add: eval_defs)

text \<open>
  The basic variant's \<^verbatim>\<open>update\<close> with data that is not ready installs the empty view
  model, whose settings are \<^verbatim>\<open>{}\<close>, and raises while styling. From then on
  \<^verbatim>\<open>playAnimation\<close> raises, and a running animation cannot be stopped:
  \<^verbatim>\<open>stopAnimation\<close> raises in \<^verbatim>\<open>updateCaption\<close> after clearing the timers, and the status
  stays Play. The extended variant returns from such an update at once.
\<close>

lemma not_ready_update_raises:
  "\<not> returns (update None (constructor :: nat VisualB)) \<and>
   viewModel (exec [CallUpdate None] (constructor :: nat VisualB)) =
     Some \<lparr>dataPoints = [], settings = None\<rparr> \<and>
   \<not> returns (playAnimation (exec [CallUpdate None] (constructor :: nat VisualB))) \<and>
   \<not> returns (stopAnimation (exec [CallUpdate (Some abc), ClickPlay, CallUpdate None] constructor)) \<and>
   status (state_of (stopAnimation
     (exec [CallUpdate (Some abc), ClickPlay, CallUpdate None] constructor))) = Play \<and>
   updateX None (execX [CallUpdate (Some abc), ClickPlay] constructor) =
     Inr (execX [CallUpdate (Some abc), ClickPlay] constructor)"
  by (simp add: eval_defs)

end
